(* ===== verification/Prelude.thy ===== *)
theory Prelude
  imports
    Main
    "HOL-Library.Word"
    "HOL-Library.Product_Lexorder"
    "HOL-Library.List_Lexorder"
    "HOL-Library.Sublist"
    "HOL-Library.Multiset"
begin

text \<open>
  Shared vocabulary of the development.

  \<^item> An operation of the Go code that can fail and that works on shared state is a
    function from a world to a result and a world. The combinators below are the ways the
    Go code sequences such calls: \<^verbatim>\<open>x, err := f(); if err != nil { return err }\<close> is
    \<open>bindE\<close>, \<^verbatim>\<open>if err != nil { return g(err) }\<close> is \<open>mapErrE\<close>, and an
    error that is inspected and then handled is \<open>handleE\<close>.
  \<^item> \<open>keeps\<close> says that an operation preserves an invariant of the world whatever its
    result; its rules follow the combinators, so an invariant of a handler is proved from
    the invariants of the statements it runs.
  \<^item> A SQL table is a list of rows with a primary key; lemmas on insertion, update and
    deletion of rows are proved once, in the locale \<open>keyed_rows\<close>.
  \<^item> \<open>page\<close> is \<^verbatim>\<open>LIMIT .. OFFSET ..\<close>, with the law that successive pages cover a
    result exactly once.
\<close>

named_theorems op_defs \<open>unfolding of the sequencing combinators\<close>
named_theorems keeps_intros \<open>introduction rules for invariant preservation\<close>

section \<open>Operations that can fail\<close>

type_synonym ('w, 'e, 'a) op = "'w \<Rightarrow> ('e + 'a) \<times> 'w"

definition returnE :: "'a \<Rightarrow> ('w, 'e, 'a) op" where
  "returnE x w = (Inr x, w)"

definition throwE :: "'e \<Rightarrow> ('w, 'e, 'a) op" where
  "throwE e w = (Inl e, w)"

definition liftE :: "'e + 'a \<Rightarrow> ('w, 'e, 'a) op" where
  "liftE r w = (r, w)"

definition bindE :: "('w, 'e, 'a) op \<Rightarrow> ('a \<Rightarrow> ('w, 'e, 'b) op) \<Rightarrow> ('w, 'e, 'b) op" where
  "bindE m f w = (case m w of (Inl e, w1) \<Rightarrow> (Inl e, w1) | (Inr x, w1) \<Rightarrow> f x w1)"

definition handleE :: "('w, 'e, 'a) op \<Rightarrow> ('e \<Rightarrow> ('w, 'e, 'a) op) \<Rightarrow> ('w, 'e, 'a) op" where
  "handleE m h w = (case m w of (Inl e, w1) \<Rightarrow> h e w1 | (Inr x, w1) \<Rightarrow> (Inr x, w1))"

definition mapErrE :: "('e \<Rightarrow> 'e) \<Rightarrow> ('w, 'e, 'a) op \<Rightarrow> ('w, 'e, 'a) op" where
  "mapErrE g m = handleE m (\<lambda>e. throwE (g e))"

text \<open>A call whose error is dropped (\<^verbatim>\<open>_ = f()\<close>).\<close>

definition ignoreE :: "('w, 'e, 'a) op \<Rightarrow> ('w, 'e, unit) op" where
  "ignoreE m w = (Inr (), snd (m w))"

lemmas op_unfold [op_defs] =
  returnE_def throwE_def liftE_def bindE_def handleE_def mapErrE_def ignoreE_def

lemma bindE_returnE [simp]: "bindE (returnE x) f = f x"
  by (simp add: fun_eq_iff op_defs)

lemma bindE_throwE [simp]: "bindE (throwE e) f = throwE e"
  by (simp add: fun_eq_iff op_defs)

lemma bindE_assoc: "bindE (bindE m f) g = bindE m (\<lambda>x. bindE (f x) g)"
  by (simp add: fun_eq_iff op_defs split: prod.splits sum.splits)

text \<open>What a successful or a failed sequence of two calls says about the two.\<close>

lemma bindE_Inr_iff:
  "bindE m f w = (Inr y, w2) \<longleftrightarrow> (\<exists>x w1. m w = (Inr x, w1) \<and> f x w1 = (Inr y, w2))"
  by (auto simp: bindE_def split: prod.splits sum.splits)

lemma bindE_Inl_iff:
  "bindE m f w = (Inl e, w2) \<longleftrightarrow>
     m w = (Inl e, w2) \<or> (\<exists>x w1. m w = (Inr x, w1) \<and> f x w1 = (Inl e, w2))"
  by (auto simp: bindE_def split: prod.splits sum.splits)

lemma bindE_cases:
  assumes "bindE m f w = (r, w2)"
  obtains (failed) e where "m w = (Inl e, w2)" "r = Inl e"
  | (went_on) x w1 where "m w = (Inr x, w1)" "f x w1 = (r, w2)"
  using assms by (auto simp: bindE_def split: prod.splits sum.splits)

lemma mapErrE_cases:
  assumes "mapErrE g m w = (r, w1)"
  obtains (failed) e where "m w = (Inl e, w1)" "r = Inl (g e)" | (passed) x where "m w = (Inr x, w1)" "r = Inr x"
  using assms by (cases "m w"; cases "fst (m w)") (auto simp: mapErrE_def handleE_def throwE_def)

lemma bindE_eqI: "m w = (Inr x, w1) \<Longrightarrow> bindE m f w = f x w1"
  by (simp add: bindE_def)

lemma bindE_eqI_err: "m w = (Inl e, w1) \<Longrightarrow> bindE m f w = (Inl e, w1)"
  by (simp add: bindE_def)

lemma mapErrE_eqI: "m w = (Inr x, w1) \<Longrightarrow> mapErrE g m w = (Inr x, w1)"
  by (simp add: op_defs)

lemma mapErrE_eqI_err: "m w = (Inl e, w1) \<Longrightarrow> mapErrE g m w = (Inl (g e), w1)"
  by (simp add: op_defs)

lemma mapErrE_Inr_iff: "mapErrE g m w = (Inr x, w1) \<longleftrightarrow> m w = (Inr x, w1)"
  by (auto simp: op_defs split: prod.splits sum.splits)

lemma mapErrE_Inl_iff:
  "mapErrE g m w = (Inl e, w1) \<longleftrightarrow> (\<exists>e0. m w = (Inl e0, w1) \<and> e = g e0)"
  by (auto simp: op_defs split: prod.splits sum.splits)

lemma throwE_iff [simp]: "throwE e w = (r, w1) \<longleftrightarrow> r = Inl e \<and> w1 = w"
  by (auto simp: op_defs)

lemma returnE_iff [simp]: "returnE x w = (r, w1) \<longleftrightarrow> r = Inr x \<and> w1 = w"
  by (auto simp: op_defs)

lemma liftE_iff [simp]: "liftE s w = (r, w1) \<longleftrightarrow> r = s \<and> w1 = w"
  by (auto simp: op_defs)

lemmas op_iffs = bindE_Inr_iff bindE_Inl_iff mapErrE_Inr_iff mapErrE_Inl_iff

section \<open>Invariants of operations\<close>

definition keeps :: "('w \<Rightarrow> bool) \<Rightarrow> ('w, 'e, 'a) op \<Rightarrow> bool" where
  "keeps I m \<longleftrightarrow> (\<forall>w. I w \<longrightarrow> I (snd (m w)))"

lemma keepsI: "(\<And>w. I w \<Longrightarrow> I (snd (m w))) \<Longrightarrow> keeps I m"
  by (simp add: keeps_def)

lemma keepsD: "keeps I m \<Longrightarrow> I w \<Longrightarrow> I (snd (m w))"
  by (simp add: keeps_def)

lemma keeps_resultD: "keeps I m \<Longrightarrow> I w \<Longrightarrow> m w = (r, w1) \<Longrightarrow> I w1"
  by (metis keepsD snd_conv)

lemma keeps_returnE [keeps_intros]: "keeps I (returnE x)"
  by (simp add: keeps_def op_defs)

lemma keeps_throwE [keeps_intros]: "keeps I (throwE e)"
  by (simp add: keeps_def op_defs)

lemma keeps_liftE [keeps_intros]: "keeps I (liftE r)"
  by (simp add: keeps_def op_defs)

lemma keeps_bindE [keeps_intros]:
  "keeps I m \<Longrightarrow> (\<And>x. keeps I (f x)) \<Longrightarrow> keeps I (bindE m f)"
  by (auto simp: keeps_def bindE_def split: prod.splits sum.splits)

lemma keeps_handleE [keeps_intros]:
  "keeps I m \<Longrightarrow> (\<And>e. keeps I (h e)) \<Longrightarrow> keeps I (handleE m h)"
  by (auto simp: keeps_def handleE_def split: prod.splits sum.splits)

lemma keeps_mapErrE [keeps_intros]: "keeps I m \<Longrightarrow> keeps I (mapErrE g m)"
  by (simp add: mapErrE_def keeps_handleE keeps_throwE)

lemma keeps_ignoreE [keeps_intros]: "keeps I m \<Longrightarrow> keeps I (ignoreE m)"
  by (simp add: keeps_def ignoreE_def)

lemma keeps_if [keeps_intros]:
  "(b \<Longrightarrow> keeps I m) \<Longrightarrow> (\<not> b \<Longrightarrow> keeps I n) \<Longrightarrow> keeps I (if b then m else n)"
  by simp

lemma keeps_case_option [keeps_intros]:
  "keeps I m \<Longrightarrow> (\<And>x. keeps I (f x)) \<Longrightarrow> keeps I (case v of None \<Rightarrow> m | Some x \<Rightarrow> f x)"
  by (simp split: option.split)

lemma keeps_case_sum [keeps_intros]:
  "(\<And>x. keeps I (f x)) \<Longrightarrow> (\<And>x. keeps I (g x)) \<Longrightarrow> keeps I (case v of Inl x \<Rightarrow> f x | Inr x \<Rightarrow> g x)"
  by (simp split: sum.split)

lemma keeps_case_prod [keeps_intros]:
  "(\<And>x y. keeps I (f x y)) \<Longrightarrow> keeps I (case v of (x, y) \<Rightarrow> f x y)"
  by (simp split: prod.split)

section \<open>Tables: lists of rows with a primary key\<close>

text \<open>\<^verbatim>\<open>UPDATE t SET f WHERE p\<close>, \<^verbatim>\<open>DELETE FROM t WHERE p\<close>, and the number of rows a
  condition selects.\<close>

definition update_rows :: "('r \<Rightarrow> bool) \<Rightarrow> ('r \<Rightarrow> 'r) \<Rightarrow> 'r list \<Rightarrow> 'r list" where
  "update_rows p f t = map (\<lambda>r. if p r then f r else r) t"

definition delete_rows :: "('r \<Rightarrow> bool) \<Rightarrow> 'r list \<Rightarrow> 'r list" where
  "delete_rows p t = filter (\<lambda>r. \<not> p r) t"

definition count_rows :: "('r \<Rightarrow> bool) \<Rightarrow> 'r list \<Rightarrow> nat" where
  "count_rows p t = length (filter p t)"

lemma update_rows_Nil [simp]: "update_rows p f [] = []"
  by (simp add: update_rows_def)

lemma update_rows_append [simp]:
  "update_rows p f (t @ u) = update_rows p f t @ update_rows p f u"
  by (simp add: update_rows_def)

lemma set_update_rows:
  "set (update_rows p f t) = {f r |r. r \<in> set t \<and> p r} \<union> {r \<in> set t. \<not> p r}"
  by (auto simp: update_rows_def)

lemma in_update_rowsE:
  assumes "x \<in> set (update_rows p f t)"
  obtains (changed) r where "r \<in> set t" "p r" "x = f r" | (same) "x \<in> set t" "\<not> p x"
  using assms by (auto simp: set_update_rows)

lemma update_rows_id: "(\<And>r. r \<in> set t \<Longrightarrow> \<not> p r) \<Longrightarrow> update_rows p f t = t"
  by (induction t) (auto simp: update_rows_def)

lemma map_update_rows:
  "(\<And>r. r \<in> set t \<Longrightarrow> p r \<Longrightarrow> k (f r) = k r) \<Longrightarrow> map k (update_rows p f t) = map k t"
  by (simp add: update_rows_def)

lemma filter_update_rows:
  "(\<And>r. r \<in> set t \<Longrightarrow> p r \<Longrightarrow> q (f r) = q r) \<Longrightarrow>
     filter q (update_rows p f t) = update_rows p f (filter q t)"
  by (induction t) (auto simp: update_rows_def)

lemma update_rows_Cons:
  "update_rows p f (a # t) = (if p a then f a else a) # update_rows p f t"
  by (simp add: update_rows_def)

text \<open>A column stays free of duplicates when one row, found by its key, gets a value that no
  other row has.\<close>

lemma distinct_map_update_one:
  assumes "distinct (map k t)" "distinct (map key t)"
    and "\<And>r. r \<in> set t \<Longrightarrow> key r = i \<Longrightarrow> k (f r) = v"
    and "\<And>r. r \<in> set t \<Longrightarrow> key r \<noteq> i \<Longrightarrow> k r \<noteq> v"
  shows "distinct (map k (update_rows (\<lambda>r. key r = i) f t))"
  using assms
proof (induction t)
  case (Cons a t)
  have IH: "distinct (map k (update_rows (\<lambda>r. key r = i) f t))"
    using Cons.prems by (intro Cons.IH) auto
  show ?case
  proof (cases "key a = i")
    case True
    with Cons.prems(2) have "\<forall>r \<in> set t. key r \<noteq> i" by (simp add: image_iff) metis
    then have "update_rows (\<lambda>r. key r = i) f t = t" by (intro update_rows_id) auto
    moreover have "k (f a) = v" "\<forall>r \<in> set t. k r \<noteq> v"
      using True Cons.prems(3,4) \<open>\<forall>r \<in> set t. key r \<noteq> i\<close> by auto
    ultimately show ?thesis using True Cons.prems(1) by (auto simp: update_rows_Cons)
  next
    case False
    have "k a \<noteq> k x" if "x \<in> set (update_rows (\<lambda>r. key r = i) f t)" for x
      using that
    proof (cases rule: in_update_rowsE)
      case (changed r)
      with False Cons.prems(3,4) show ?thesis by auto
    next
      case same
      with Cons.prems(1) show ?thesis by auto
    qed
    then have "k a \<notin> k ` set (update_rows (\<lambda>r. key r = i) f t)" by blast
    with IH False show ?thesis by (simp add: update_rows_Cons)
  qed
qed simp

lemma set_delete_rows [simp]: "set (delete_rows p t) = {r \<in> set t. \<not> p r}"
  by (auto simp: delete_rows_def)

lemma image_survives:
  "x \<in> k ` set t \<Longrightarrow> (\<And>r. r \<in> set t \<Longrightarrow> p r \<Longrightarrow> k r \<noteq> x) \<Longrightarrow> x \<in> k ` {r \<in> set t. \<not> p r}"
  by blast

lemma delete_rows_append [simp]: "delete_rows p (t @ u) = delete_rows p t @ delete_rows p u"
  by (simp add: delete_rows_def)

lemma delete_rows_id: "(\<And>r. r \<in> set t \<Longrightarrow> \<not> p r) \<Longrightarrow> delete_rows p t = t"
  by (simp add: delete_rows_def)

lemma distinct_map_delete_rows: "distinct (map k t) \<Longrightarrow> distinct (map k (delete_rows p t))"
  by (simp add: delete_rows_def distinct_map_filter)

lemma count_rows_append [simp]: "count_rows p (t @ u) = count_rows p t + count_rows p u"
  by (simp add: count_rows_def)

lemma count_rows_single [simp]: "count_rows p [x] = (if p x then 1 else 0)"
  by (simp add: count_rows_def)

lemma count_rows_Nil [simp]: "count_rows p [] = 0"
  by (simp add: count_rows_def)

lemma count_rows_0_iff: "count_rows p t = 0 \<longleftrightarrow> (\<forall>r \<in> set t. \<not> p r)"
  by (simp add: count_rows_def filter_empty_conv)

lemma count_rows_le: "count_rows p t \<le> length t"
  by (simp add: count_rows_def)

lemma count_rows_mono:
  "(\<And>r. r \<in> set t \<Longrightarrow> p r \<Longrightarrow> q r) \<Longrightarrow> count_rows p t \<le> count_rows q t"
  by (induction t) (auto simp: count_rows_def)

lemma count_rows_delete:
  "(\<And>r. r \<in> set t \<Longrightarrow> p r \<Longrightarrow> \<not> q r) \<Longrightarrow> count_rows q (delete_rows p t) = count_rows q t"
  by (induction t) (auto simp: count_rows_def delete_rows_def)

lemma count_rows_update:
  "(\<And>r. r \<in> set t \<Longrightarrow> p r \<Longrightarrow> q (f r) = q r) \<Longrightarrow> count_rows q (update_rows p f t) = count_rows q t"
  by (induction t) (auto simp: count_rows_def update_rows_def)

lemma find_SomeD: "find p xs = Some x \<Longrightarrow> x \<in> set xs \<and> p x"
  by (auto simp: find_Some_iff)

lemma find_unique:
  assumes "x \<in> set xs" "p x" "\<And>y. y \<in> set xs \<Longrightarrow> p y \<Longrightarrow> y = x"
  shows "find p xs = Some x"
proof (cases "find p xs")
  case None
  with assms(1,2) have False unfolding find_None_iff by blast
  then show ?thesis ..
next
  case (Some y)
  then have "y = x" using find_SomeD [OF Some] by (intro assms(3)) simp_all
  with Some show ?thesis by simp
qed

text \<open>\<^verbatim>\<open>SELECT .. WHERE id = $1\<close>: the first row with the key.\<close>

definition find_key :: "('r \<Rightarrow> 'k) \<Rightarrow> 'k \<Rightarrow> 'r list \<Rightarrow> 'r option" where
  "find_key key k t = find (\<lambda>r. key r = k) t"

locale keyed_rows =
  fixes key :: "'r \<Rightarrow> 'k"
begin

lemma find_key_Some: "find_key key k t = Some r \<Longrightarrow> r \<in> set t \<and> key r = k"
  by (auto simp: find_key_def find_Some_iff)

lemma find_key_None: "find_key key k t = None \<longleftrightarrow> k \<notin> key ` set t"
  by (auto simp: find_key_def find_None_iff)

lemma find_key_eq:
  "distinct (map key t) \<Longrightarrow> find_key key k t = Some r \<longleftrightarrow> r \<in> set t \<and> key r = k"
proof (induction t)
  case (Cons a t)
  then show ?case by (auto simp: find_key_def dest: find_key_Some)
qed (simp add: find_key_def)

lemma find_key_append:
  "find_key key k (t @ [r]) =
     (case find_key key k t of Some s \<Rightarrow> Some s | None \<Rightarrow> if key r = k then Some r else None)"
  by (induction t) (auto simp: find_key_def)

lemma find_key_insert: "key r \<notin> key ` set t \<Longrightarrow> find_key key (key r) (t @ [r]) = Some r"
  by (induction t) (auto simp: find_key_def)

lemma find_key_insert_other: "key r \<noteq> k \<Longrightarrow> find_key key k (t @ [r]) = find_key key k t"
  by (induction t) (auto simp: find_key_def)

lemma find_key_update:
  "(\<And>r. key (f r) = key r) \<Longrightarrow>
     find_key key k (update_rows (\<lambda>r. key r = j) f t) =
       (if k = j then map_option f (find_key key k t) else find_key key k t)"
  by (induction t) (auto simp: find_key_def update_rows_def)

lemma find_key_update_where:
  "(\<And>r. key (f r) = key r) \<Longrightarrow>
     find_key key k (update_rows p f t) =
       map_option (\<lambda>r. if p r then f r else r) (find_key key k t)"
  by (induction t) (auto simp: find_key_def update_rows_def)

lemma find_key_delete:
  "find_key key k (delete_rows (\<lambda>r. key r = j) t) = (if k = j then None else find_key key k t)"
  by (induction t) (auto simp: find_key_def delete_rows_def)

lemma count_key:
  "distinct (map key t) \<Longrightarrow>
     count_rows (\<lambda>r. key r = k) t = (case find_key key k t of None \<Rightarrow> 0 | Some _ \<Rightarrow> 1)"
proof (induction t)
  case (Cons a t)
  have "\<forall>r \<in> set t. key r \<noteq> key a" using Cons.prems by (simp add: image_iff) metis
  then have z: "count_rows (\<lambda>r. key r = key a) t = 0" by (auto simp: count_rows_0_iff)
  show ?case
  proof (cases "key a = k")
    case True
    with z show ?thesis by (simp add: find_key_def count_rows_def)
  next
    case False
    with Cons show ?thesis by (simp add: find_key_def count_rows_def)
  qed
qed (simp add: find_key_def)

lemma distinct_insert:
  "distinct (map key (t @ [r])) \<longleftrightarrow> distinct (map key t) \<and> key r \<notin> key ` set t"
  by auto

end

section \<open>Pages of a result: \<^verbatim>\<open>LIMIT n OFFSET k\<close>\<close>

definition page :: "nat \<Rightarrow> nat \<Rightarrow> 'a list \<Rightarrow> 'a list" where
  "page limit offset xs = take limit (drop offset xs)"

lemma length_page: "length (page n k xs) = min n (length xs - k)"
  by (simp add: page_def)

lemma set_page_subset: "set (page n k xs) \<subseteq> set xs"
  unfolding page_def by (meson order_trans set_drop_subset set_take_subset)

lemma page_append: "page n k xs @ page m (k + n) xs = page (n + m) k xs"
  by (simp add: page_def take_add) (simp add: add.commute)

lemma page_all: "length xs \<le> n \<Longrightarrow> page n 0 xs = xs"
  by (simp add: page_def)

text \<open>Reading the pages \<open>0, n, 2n, ..\<close> one after the other reads the whole list once.\<close>

lemma pages_cover:
  "length xs \<le> n * c \<Longrightarrow> concat (map (\<lambda>i. page n (n * i) xs) [0..<c]) = xs"
proof -
  have "concat (map (\<lambda>i. page n (n * i) xs) [0..<c]) = page (n * c) 0 xs" for c
  proof (induction c)
    case (Suc c)
    have "page (n * c) 0 xs @ page n (0 + n * c) xs = page (n * c + n) 0 xs"
      by (rule page_append)
    with Suc show ?case by (simp add: add.commute)
  qed (simp add: page_def)
  moreover assume "length xs \<le> n * c"
  ultimately show ?thesis by (simp add: page_all)
qed

lemma sorted_wrt_page: "sorted_wrt R xs \<Longrightarrow> sorted_wrt R (page n k xs)"
  by (simp add: page_def sorted_wrt_take sorted_wrt_drop)

section \<open>Sorting with ties broken from outside\<close>

text \<open>
  \<^verbatim>\<open>ORDER BY k\<close> fixes the order of a result only up to rows with equal keys. The order of
  ties is the environment's: rows are first arranged by a rank the environment chooses,
  then sorted by the key (\<open>sort_key\<close> is stable).
\<close>

definition order_by :: "('r \<Rightarrow> 'a::linorder) \<Rightarrow> ('r \<Rightarrow> nat) \<Rightarrow> 'r list \<Rightarrow> 'r list" where
  "order_by k rank t = sort_key k (sort_key rank t)"

lemma set_order_by [simp]: "set (order_by k rank t) = set t"
  by (simp add: order_by_def)

lemma mset_order_by [simp]: "mset (order_by k rank t) = mset t"
  by (simp add: order_by_def)

lemma length_order_by [simp]: "length (order_by k rank t) = length t"
  by (simp add: order_by_def)

lemma sorted_order_by: "sorted (map k (order_by k rank t))"
  by (simp add: order_by_def)

lemma distinct_order_by [simp]: "distinct (order_by k rank t) \<longleftrightarrow> distinct t"
  by (simp add: order_by_def)

lemma sorted_map_page: "sorted (map k t) \<Longrightarrow> sorted (map k (page n j t))"
  by (simp add: page_def take_map [symmetric] drop_map [symmetric] sorted_wrt_take sorted_wrt_drop)

end
