(* ===== verification/Go_Strings.thy ===== *)
theory Go_Strings
  imports Prelude
begin

text \<open>
  The parts of Go's standard library on strings that the program uses: \<^verbatim>\<open>unicode/utf8\<close>,
  \<^verbatim>\<open>strings\<close>, \<^verbatim>\<open>path\<close>, \<^verbatim>\<open>strconv\<close> and \<^verbatim>\<open>net.SplitHostPort\<close>. A Go string is a
  sequence of bytes, and so is an Isabelle \<open>string\<close> (a character is one byte); \<open>length\<close>
  is Go's \<^verbatim>\<open>len\<close>, and the runes of a string are obtained by decoding UTF-8.
\<close>

section \<open>UTF-8\<close>

abbreviation byte_of :: "char \<Rightarrow> nat" where
  "byte_of c \<equiv> of_char c"

abbreviation RuneError :: nat where
  "RuneError \<equiv> 65533"

definition is_cont :: "nat \<Rightarrow> bool" where
  "is_cont b \<longleftrightarrow> 128 \<le> b \<and> b \<le> 191"

text \<open>The accepted range of the second byte, which excludes overlong forms, surrogates and
  values beyond the last code point.\<close>

definition second_ok :: "nat \<Rightarrow> nat \<Rightarrow> bool" where
  "second_ok b0 b1 \<longleftrightarrow>
     (if b0 = 224 then 160 \<le> b1 \<and> b1 \<le> 191
      else if b0 = 237 then 128 \<le> b1 \<and> b1 \<le> 159
      else if b0 = 240 then 144 \<le> b1 \<and> b1 \<le> 191
      else if b0 = 244 then 128 \<le> b1 \<and> b1 \<le> 143
      else is_cont b1)"

definition decode_bytes :: "nat list \<Rightarrow> nat \<times> nat" where
  "decode_bytes bs =
     (case bs of [] \<Rightarrow> (RuneError, 0)
      | b0 # r \<Rightarrow>
         if b0 < 128 then (b0, 1)
         else if 194 \<le> b0 \<and> b0 \<le> 223 then
           (case r of b1 # _ \<Rightarrow>
              if is_cont b1 then ((b0 - 192) * 64 + (b1 - 128), 2) else (RuneError, 1)
            | _ \<Rightarrow> (RuneError, 1))
         else if 224 \<le> b0 \<and> b0 \<le> 239 then
           (case r of b1 # b2 # _ \<Rightarrow>
              if second_ok b0 b1 \<and> is_cont b2
              then ((b0 - 224) * 4096 + (b1 - 128) * 64 + (b2 - 128), 3) else (RuneError, 1)
            | _ \<Rightarrow> (RuneError, 1))
         else if 240 \<le> b0 \<and> b0 \<le> 244 then
           (case r of b1 # b2 # b3 # _ \<Rightarrow>
              if second_ok b0 b1 \<and> is_cont b2 \<and> is_cont b3
              then ((b0 - 240) * 262144 + (b1 - 128) * 4096 + (b2 - 128) * 64 + (b3 - 128), 4)
              else (RuneError, 1)
            | _ \<Rightarrow> (RuneError, 1))
         else (RuneError, 1))"

definition DecodeRuneInString :: "string \<Rightarrow> nat \<times> nat" where
  "DecodeRuneInString s = decode_bytes (map byte_of (take 4 s))"

lemma decode_bytes_width:
  "bs \<noteq> [] \<Longrightarrow> 1 \<le> snd (decode_bytes bs) \<and> snd (decode_bytes bs) \<le> length bs"
  by (auto simp: decode_bytes_def split: list.splits)

lemma decode_width:
  assumes "s \<noteq> []"
  shows "1 \<le> snd (DecodeRuneInString s) \<and> snd (DecodeRuneInString s) \<le> length s"
proof -
  have "map byte_of (take 4 s) \<noteq> []" using assms by simp
  from decode_bytes_width [OF this] show ?thesis by (simp add: DecodeRuneInString_def)
qed

lemma decode_ascii: "byte_of c < 128 \<Longrightarrow> DecodeRuneInString (c # cs) = (byte_of c, 1)"
  by (simp add: DecodeRuneInString_def decode_bytes_def)

text \<open>The runes of a string, as \<^verbatim>\<open>for _, r := range s\<close> visits them.\<close>

function runes :: "string \<Rightarrow> nat list" where
  "runes [] = []"
| "runes (c # cs) =
     (let d = DecodeRuneInString (c # cs) in fst d # runes (drop (snd d - 1) cs))"
  by pat_completeness auto
termination
  by (relation "measure length") auto

definition RuneCountInString :: "string \<Rightarrow> nat" where
  "RuneCountInString s = length (runes s)"

text \<open>\<^verbatim>\<open>utf8.ValidString\<close>.\<close>

function valid_utf8 :: "string \<Rightarrow> bool" where
  "valid_utf8 [] = True"
| "valid_utf8 (c # cs) =
     (let d = DecodeRuneInString (c # cs)
      in d \<noteq> (RuneError, 1) \<and> valid_utf8 (drop (snd d - 1) cs))"
  by pat_completeness auto
termination
  by (relation "measure length") auto

definition ascii :: "string \<Rightarrow> bool" where
  "ascii s \<longleftrightarrow> list_all (\<lambda>c. byte_of c < 128) s"

lemma ascii_simps [simp]:
  "ascii []" "ascii (c # s) \<longleftrightarrow> byte_of c < 128 \<and> ascii s" "ascii (s @ t) \<longleftrightarrow> ascii s \<and> ascii t"
  by (auto simp: ascii_def)

lemma runes_ascii: "ascii s \<Longrightarrow> runes s = map byte_of s"
  by (induction s) (auto simp: decode_ascii)

lemma valid_utf8_ascii: "ascii s \<Longrightarrow> valid_utf8 s"
  by (induction s) (auto simp: decode_ascii)

lemma runes_length_le: "length (runes s) \<le> length s"
proof (induction s rule: runes.induct)
  case (2 c cs)
  then have "length (runes (drop (snd (DecodeRuneInString (c # cs)) - 1) cs)) \<le> length cs"
    by (metis diff_le_self le_trans length_drop)
  then show ?case by (simp add: Let_def)
qed simp

corollary RuneCount_le_len: "RuneCountInString s \<le> length s"
  by (simp add: RuneCountInString_def runes_length_le)

lemma RuneCount_ascii: "ascii s \<Longrightarrow> RuneCountInString s = length s"
  by (simp add: RuneCountInString_def runes_ascii)

lemma runes_eq_Nil_iff [simp]: "runes s = [] \<longleftrightarrow> s = []"
  by (cases s) (auto simp: Let_def)

text \<open>A multi-byte rune is at least 128, so a rune below 128 is a single byte.\<close>

lemma decode_bytes_small:
  "decode_bytes (b0 # r) = (x, n) \<Longrightarrow> x < 128 \<Longrightarrow> x = b0 \<and> n = 1"
  by (auto simp: decode_bytes_def second_ok_def is_cont_def split: if_splits list.splits)

lemma decode_small:
  "DecodeRuneInString (c # cs) = (x, n) \<Longrightarrow> x < 128 \<Longrightarrow> x = byte_of c \<and> n = 1"
  by (auto simp: DecodeRuneInString_def dest: decode_bytes_small)

text \<open>A string all of whose runes are ASCII is made of ASCII bytes.\<close>

lemma runes_small_ascii: "list_all (\<lambda>r. r < 128) (runes s) \<Longrightarrow> ascii s"
proof (induction s rule: runes.induct)
  case (2 c cs)
  obtain x n where d: "DecodeRuneInString (c # cs) = (x, n)" by (cases "DecodeRuneInString (c # cs)")
  with "2.prems" have "x < 128" by (simp add: Let_def)
  with d have "x = byte_of c" "n = 1" by (auto dest: decode_small)
  with 2 d \<open>x < 128\<close> show ?case by (simp add: Let_def)
qed simp

section \<open>White space\<close>

text \<open>\<^verbatim>\<open>unicode.IsSpace\<close>.\<close>

definition IsSpace :: "nat \<Rightarrow> bool" where
  "IsSpace r \<longleftrightarrow> r \<in> {9, 10, 11, 12, 13, 32, 133, 160, 5760, 8232, 8233, 8239, 8287, 12288}
                 \<or> (8192 \<le> r \<and> r \<le> 8202)"

function TrimLeftSpace :: "string \<Rightarrow> string" where
  "TrimLeftSpace [] = []"
| "TrimLeftSpace (c # cs) =
     (let d = DecodeRuneInString (c # cs)
      in if IsSpace (fst d) then TrimLeftSpace (drop (snd d - 1) cs) else c # cs)"
  by pat_completeness auto
termination
  by (relation "measure length") auto

text \<open>\<^verbatim>\<open>utf8.DecodeLastRuneInString\<close>: the rune that ends the string and its width.\<close>

definition DecodeLastRuneInString :: "string \<Rightarrow> nat \<times> nat" where
  "DecodeLastRuneInString s =
     (let e = length s in
      if e = 0 then (RuneError, 0)
      else if byte_of (last s) < 128 then (byte_of (last s), 1)
      else if 2 \<le> e \<and> snd (DecodeRuneInString (drop (e - 2) s)) = 2
        then DecodeRuneInString (drop (e - 2) s)
      else if 3 \<le> e \<and> snd (DecodeRuneInString (drop (e - 3) s)) = 3
        then DecodeRuneInString (drop (e - 3) s)
      else if 4 \<le> e \<and> snd (DecodeRuneInString (drop (e - 4) s)) = 4
        then DecodeRuneInString (drop (e - 4) s)
      else (RuneError, 1))"

lemma decode_last_width: "s \<noteq> [] \<Longrightarrow> 1 \<le> snd (DecodeLastRuneInString s)"
  by (auto simp: DecodeLastRuneInString_def Let_def)

function TrimRightSpace :: "string \<Rightarrow> string" where
  "TrimRightSpace s =
     (if s = [] then []
      else let d = DecodeLastRuneInString s
           in if IsSpace (fst d) then TrimRightSpace (take (length s - snd d) s) else s)"
  by pat_completeness auto
termination
proof (relation "measure length", simp)
  fix s :: string and d
  assume "s \<noteq> []" "d = DecodeLastRuneInString s"
  with decode_last_width [of s] have "0 < snd d" "0 < length s" by auto
  then have "length s - snd d < length s" by (rule diff_less)
  then show "(take (length s - snd d) s, s) \<in> measure length" by simp
qed

declare TrimRightSpace.simps [simp del]

definition TrimSpace :: "string \<Rightarrow> string" where
  "TrimSpace s = TrimRightSpace (TrimLeftSpace s)"

lemma TrimSpace_Nil [simp]: "TrimSpace [] = []"
  by (simp add: TrimSpace_def TrimRightSpace.simps)

lemma IsSpace_RuneError [simp]: "\<not> IsSpace RuneError"
  by (simp add: IsSpace_def)

text \<open>A string whose first and last bytes are ASCII and not spaces is already trimmed.\<close>

lemma TrimSpace_id:
  assumes "s \<noteq> []" "byte_of (hd s) < 128" "\<not> IsSpace (byte_of (hd s))"
    and "byte_of (last s) < 128" "\<not> IsSpace (byte_of (last s))"
  shows "TrimSpace s = s"
proof -
  obtain c cs where s: "s = c # cs" using assms(1) by (cases s) auto
  with assms(2,3) have "TrimLeftSpace s = s" by (simp add: decode_ascii)
  moreover from assms(1,4,5) have "TrimRightSpace s = s"
    by (subst TrimRightSpace.simps) (simp add: DecodeLastRuneInString_def Let_def)
  ultimately show ?thesis by (simp add: TrimSpace_def)
qed

lemma TrimSpace_ascii_nospace:
  assumes "list_all (\<lambda>c. byte_of c < 128 \<and> \<not> IsSpace (byte_of c)) s"
  shows "TrimSpace s = s"
proof (cases "s = []")
  case False
  with assms have "byte_of (hd s) < 128 \<and> \<not> IsSpace (byte_of (hd s))"
      "byte_of (last s) < 128 \<and> \<not> IsSpace (byte_of (last s))"
    by (auto simp: list_all_iff)
  with False show ?thesis by (intro TrimSpace_id) auto
qed simp

text \<open>One leading or trailing ASCII space is removed.\<close>

lemma TrimSpace_leading_ascii:
  "byte_of c < 128 \<Longrightarrow> IsSpace (byte_of c) \<Longrightarrow> TrimSpace (c # s) = TrimSpace s"
  by (simp add: TrimSpace_def decode_ascii)

section \<open>Lower case\<close>

definition lower_byte :: "nat \<Rightarrow> nat" where
  "lower_byte b = (if 65 \<le> b \<and> b \<le> 90 then b + 32 else b)"

definition ascii_lower :: "string \<Rightarrow> string" where
  "ascii_lower s = map (\<lambda>c. char_of (lower_byte (byte_of c))) s"

text \<open>\<^verbatim>\<open>utf8.AppendRune\<close>.\<close>

definition EncodeRune :: "nat \<Rightarrow> string" where
  "EncodeRune r =
     map char_of
      (if r < 128 then [r]
       else if r < 2048 then [192 + r div 64, 128 + r mod 64]
       else if r > 1114111 \<or> (55296 \<le> r \<and> r \<le> 57343) then [239, 191, 189]
       else if r < 65536 then [224 + r div 4096, 128 + r div 64 mod 64, 128 + r mod 64]
       else [240 + r div 262144, 128 + r div 4096 mod 64, 128 + r div 64 mod 64, 128 + r mod 64])"

lemma encode_two:
  assumes "2 \<le> x" "x < 32" "y < 64"
  shows "EncodeRune (x * 64 + y) = map char_of [192 + x, 128 + y]"
proof -
  have "(x * 64 + y) div 64 = x" "(x * 64 + y) mod 64 = y" using assms by simp_all
  moreover have "128 \<le> x * 64 + y" "x * 64 + y < 2048" using assms by linarith+
  ultimately show ?thesis by (simp add: EncodeRune_def)
qed

lemma encode_three:
  assumes "x < 16" "y < 64" "z < 64" "x = 0 \<longrightarrow> 32 \<le> y" "x = 13 \<longrightarrow> y < 32"
  shows "EncodeRune (x * 4096 + y * 64 + z) = map char_of [224 + x, 128 + y, 128 + z]"
proof -
  let ?r = "x * 4096 + y * 64 + z"
  have r: "?r = (x * 64 + y) * 64 + z" by simp
  have "?r div 64 = x * 64 + y" "?r mod 64 = z" using assms(3) unfolding r by (simp, subst mod_mult_self3, simp)
  moreover have "?r div 4096 = x" using assms(2,3) by simp
  moreover have "(x * 64 + y) mod 64 = y" using assms(2) by simp
  moreover have "2048 \<le> ?r" "?r < 65536" using assms by (cases "x = 0"; linarith)+
  moreover have "\<not> (55296 \<le> ?r \<and> ?r \<le> 57343)"
    using assms by (cases "x \<le> 12"; cases "x = 13"; linarith)
  ultimately show ?thesis by (simp add: EncodeRune_def del: One_nat_def)
qed

lemma encode_four:
  assumes "x < 5" "y < 64" "z < 64" "v < 64" "x = 0 \<longrightarrow> 16 \<le> y" "x = 4 \<longrightarrow> y < 16"
  shows "EncodeRune (x * 262144 + y * 4096 + z * 64 + v) = map char_of [240 + x, 128 + y, 128 + z, 128 + v]"
proof -
  let ?r = "x * 262144 + y * 4096 + z * 64 + v"
  have r: "?r = (x * 4096 + y * 64 + z) * 64 + v" by simp
  have "?r div 64 = x * 4096 + y * 64 + z" "?r mod 64 = v" using assms(4) unfolding r by (simp, subst mod_mult_self3, simp)
  moreover have "?r = (x * 64 + y) * 4096 + (z * 64 + v)" "z * 64 + v < 4096" using assms(3,4) by simp_all
  then have "?r div 4096 = x * 64 + y" by simp
  moreover have "?r div 262144 = x" using assms(2-4) by simp
  moreover have "(x * 64 + y) mod 64 = y" using assms(2) by simp
  moreover have "(x * 4096 + y * 64 + z) mod 64 = z"
    using mod_mult_self3 [of "x * 64 + y" 64 z] assms(3) by (simp add: algebra_simps)
  moreover have "65536 \<le> ?r" "?r \<le> 1114111" using assms by (cases "x = 0"; cases "x = 4"; linarith)+
  ultimately show ?thesis by (simp add: EncodeRune_def del: One_nat_def)
qed

text \<open>A rune decoded without an error is encoded by the bytes it was read from.\<close>

lemma encode_decoded:
  assumes "decode_bytes bs = (r, n)" "(r, n) \<noteq> (RuneError, 1)" "bs \<noteq> []"
  shows "EncodeRune r = map char_of (take n bs)"
proof -
  obtain b0 t where bs: "bs = b0 # t" using assms(3) by (cases bs) auto
  have one: ?thesis if "b0 < 128" using that assms(1) by (auto simp: bs decode_bytes_def EncodeRune_def)
  have "EncodeRune ((b0 - 192) * 64 + (b1 - 128)) = map char_of [b0, b1]"
    if "194 \<le> b0" "b0 \<le> 223" "is_cont b1" for b1
    using encode_two [of "b0 - 192" "b1 - 128"] that by (auto simp: is_cont_def)
  then have two: ?thesis if "194 \<le> b0" "b0 \<le> 223"
    using that assms(1,2) by (auto simp: bs decode_bytes_def split: list.splits if_splits)
  have "EncodeRune ((b0 - 224) * 4096 + (b1 - 128) * 64 + (b2 - 128)) = map char_of [b0, b1, b2]"
    if "224 \<le> b0" "b0 \<le> 239" "second_ok b0 b1" "is_cont b2" for b1 b2
    using encode_three [of "b0 - 224" "b1 - 128" "b2 - 128"] that
    by (auto simp: is_cont_def second_ok_def split: if_splits)
  then have three: ?thesis if "224 \<le> b0" "b0 \<le> 239"
    using that assms(1,2) by (auto simp: bs decode_bytes_def split: list.splits if_splits)
  have "EncodeRune ((b0 - 240) * 262144 + (b1 - 128) * 4096 + (b2 - 128) * 64 + (b3 - 128)) = map char_of [b0, b1, b2, b3]"
    if "240 \<le> b0" "b0 \<le> 244" "second_ok b0 b1" "is_cont b2" "is_cont b3" for b1 b2 b3
    using encode_four [of "b0 - 240" "b1 - 128" "b2 - 128" "b3 - 128"] that
    by (auto simp: is_cont_def second_ok_def split: if_splits)
  then have four: ?thesis if "240 \<le> b0" "b0 \<le> 244"
    using that assms(1,2) by (auto simp: bs decode_bytes_def split: list.splits if_splits)
  show ?thesis
  proof (cases "b0 < 128 \<or> 194 \<le> b0 \<and> b0 \<le> 244")
    case True
    with one two three four show ?thesis by linarith
  next
    case False
    then show ?thesis using assms(1,2) by (auto simp: bs decode_bytes_def)
  qed
qed

lemma encode_runes:
  "valid_utf8 s \<Longrightarrow> concat (map EncodeRune (runes s)) = s"
proof (induction s rule: runes.induct)
  case (2 c cs)
  obtain r n where d: "DecodeRuneInString (c # cs) = (r, n)" by fastforce
  have w: "1 \<le> n" "n \<le> length (take 4 (c # cs))"
    using decode_bytes_width [of "map byte_of (take 4 (c # cs))"] d by (auto simp: DecodeRuneInString_def)
  have "EncodeRune r = map char_of (take n (map byte_of (take 4 (c # cs))))"
    using d 2(2) by (intro encode_decoded) (auto simp: DecodeRuneInString_def Let_def)
  also have "\<dots> = take n (c # cs)" using w
    by (simp only: take_map map_map comp_def of_char_of char_of_char map_ident take_take) (simp add: min_absorb1)
  finally have "EncodeRune r = take n (c # cs)" .
  moreover have "concat (map EncodeRune (runes (drop (n - 1) cs))) = drop (n - 1) cs"
    using 2 d by (simp add: Let_def)
  moreover have "drop (n - 1) cs = drop n (c # cs)" using w by (cases n) auto
  ultimately show ?case using d by (simp add: Let_def del: take_Suc_Cons drop_Suc_Cons)
qed simp

text \<open>
  \<^verbatim>\<open>strings.ToLower\<close>. The case table of the runes beyond ASCII is Unicode data, given as
  the parameter \<open>uni\<close>.
\<close>

definition ToLower :: "(nat \<Rightarrow> nat) \<Rightarrow> string \<Rightarrow> string" where
  "ToLower uni s =
     (if ascii s then ascii_lower s
      else concat (map (\<lambda>r. EncodeRune (if r < 128 then lower_byte r else uni r)) (runes s)))"

lemma ToLower_ascii: "ascii s \<Longrightarrow> ToLower uni s = ascii_lower s"
  by (simp add: ToLower_def)

section \<open>Searching and splitting\<close>

text \<open>\<^verbatim>\<open>strings.Split\<close> with a separator of one byte.\<close>

fun split_on :: "'a \<Rightarrow> 'a list \<Rightarrow> 'a list list" where
  "split_on sep [] = [[]]"
| "split_on sep (c # cs) =
     (if c = sep then [] # split_on sep cs
      else (case split_on sep cs of [] \<Rightarrow> [[c]] | p # ps \<Rightarrow> (c # p) # ps))"

lemma split_on_nonempty [simp]: "split_on sep s \<noteq> []"
  by (induction s) (auto split: list.splits)

lemma split_on_no_sep: "sep \<notin> set s \<Longrightarrow> split_on sep s = [s]"
  by (induction s) auto

lemma split_on_append:
  "sep \<notin> set p \<Longrightarrow> split_on sep (p @ sep # s) = p # split_on sep s"
  by (induction p) auto

text \<open>Joining what was split gives the string back.\<close>

fun join_with :: "'a \<Rightarrow> 'a list list \<Rightarrow> 'a list" where
  "join_with sep [] = []"
| "join_with sep [p] = p"
| "join_with sep (p # q # ps) = p @ sep # join_with sep (q # ps)"

lemma join_split: "join_with sep (split_on sep s) = s"
proof (induction s)
  case (Cons c cs)
  obtain p ps where "split_on sep cs = p # ps" by (cases "split_on sep cs") auto
  with Cons show ?case by (cases ps) auto
qed simp

lemma split_join: "ps \<noteq> [] \<Longrightarrow> list_all (\<lambda>p. sep \<notin> set p) ps \<Longrightarrow> split_on sep (join_with sep ps) = ps"
  by (induction sep ps rule: join_with.induct) (auto simp: split_on_no_sep split_on_append)

text \<open>The part after the last occurrence of a byte.\<close>

fun after_last :: "char \<Rightarrow> string \<Rightarrow> string option" where
  "after_last c [] = None"
| "after_last c (d # ds) =
     (case after_last c ds of Some r \<Rightarrow> Some r | None \<Rightarrow> if d = c then Some ds else None)"

text \<open>\<^verbatim>\<open>path.Ext\<close>: the suffix that starts at the last dot of the last path element.\<close>

definition path_Ext :: "string \<Rightarrow> string" where
  "path_Ext p =
     (let elem = (case after_last CHR ''/'' p of Some r \<Rightarrow> r | None \<Rightarrow> p)
      in case after_last CHR ''.'' elem of Some e \<Rightarrow> CHR ''.'' # e | None \<Rightarrow> [])"

text \<open>\<^verbatim>\<open>strings.TrimRight(s, "/")\<close>.\<close>

definition TrimRightSlash :: "string \<Rightarrow> string" where
  "TrimRightSlash s = rev (dropWhile (\<lambda>c. c = CHR ''/'') (rev s))"

text \<open>\<^verbatim>\<open>path.Base\<close>.\<close>

definition path_Base :: "string \<Rightarrow> string" where
  "path_Base p =
     (if p = [] then ''.''
      else let q = TrimRightSlash p;
               b = (case after_last CHR ''/'' q of Some r \<Rightarrow> r | None \<Rightarrow> q)
           in if b = [] then ''/'' else b)"

lemma after_last_no: "after_last c s = None \<longleftrightarrow> c \<notin> set s"
  by (induction s) (auto split: option.splits)

lemma after_last_notin: "after_last c s = Some r \<Longrightarrow> c \<notin> set r"
  by (induction s) (auto split: option.splits if_splits simp: after_last_no)

lemma path_Base_no_slash:
  assumes "path_Base p \<noteq> ''/''"
  shows "CHR ''/'' \<notin> set (path_Base p)"
proof (cases "after_last CHR ''/'' (TrimRightSlash p)")
  case None
  then have "CHR ''/'' \<notin> set (TrimRightSlash p)" by (simp add: after_last_no)
  with None assms show ?thesis by (auto simp: path_Base_def Let_def split: if_splits)
next
  case (Some r)
  then have "CHR ''/'' \<notin> set r" by (rule after_last_notin)
  with Some assms show ?thesis by (auto simp: path_Base_def Let_def split: if_splits)
qed

lemma path_Base_nonempty: "path_Base p \<noteq> []"
  by (simp add: path_Base_def Let_def)

section \<open>Numbers\<close>

abbreviation is_digit :: "char \<Rightarrow> bool" where
  "is_digit c \<equiv> 48 \<le> byte_of c \<and> byte_of c \<le> 57"

definition digits_value :: "string \<Rightarrow> nat" where
  "digits_value s = foldl (\<lambda>n c. 10 * n + (byte_of c - 48)) 0 s"

text \<open>\<^verbatim>\<open>strconv.Atoi\<close> on a 64-bit platform: an optional sign, decimal digits, and a range
  check; every error is \<open>None\<close>.\<close>

definition Atoi :: "string \<Rightarrow> int option" where
  "Atoi s =
     (let neg = (s \<noteq> [] \<and> hd s = CHR ''-'');
          d = (if s \<noteq> [] \<and> (hd s = CHR ''-'' \<or> hd s = CHR ''+'') then tl s else s);
          v = (if neg then - int (digits_value d) else int (digits_value d))
      in if d = [] \<or> \<not> list_all is_digit d then None
         else if - (2 ^ 63) \<le> v \<and> v < 2 ^ 63 then Some v else None)"

text \<open>\<^verbatim>\<open>%d\<close> of an unsigned number.\<close>

function dec_digits :: "nat \<Rightarrow> string" where
  "dec_digits n =
     (if n < 10 then [char_of (48 + n)] else dec_digits (n div 10) @ [char_of (48 + n mod 10)])"
  by pat_completeness auto
termination
  by (relation "measure id") auto

declare dec_digits.simps [simp del]

lemma byte_digit: "d < 10 \<Longrightarrow> byte_of (char_of (48 + d) :: char) = (48 + d :: nat)"
  by (simp add: of_char_of)

lemma dec_digits_all: "list_all is_digit (dec_digits n)"
proof (induction n rule: dec_digits.induct)
  case (1 n)
  then show ?case
    by (subst dec_digits.simps) (auto simp: of_char_of)
qed

lemma dec_digits_nonempty [simp]: "dec_digits n \<noteq> []"
  by (subst dec_digits.simps) simp

lemma digits_value_append:
  "digits_value (s @ [c]) = 10 * digits_value s + (byte_of c - 48)"
  by (simp add: digits_value_def)

lemma digits_value_dec [simp]: "digits_value (dec_digits n) = n"
proof (induction n rule: dec_digits.induct)
  case (1 n)
  show ?case
  proof (cases "n < 10")
    case True
    then show ?thesis
      by (subst dec_digits.simps) (simp add: digits_value_def byte_digit)
  next
    case False
    with 1 show ?thesis
      by (subst dec_digits.simps) (simp add: digits_value_append byte_digit)
  qed
qed

text \<open>Printing then parsing a number in range returns it.\<close>

lemma Atoi_dec_digits: "n < 2 ^ 63 \<Longrightarrow> Atoi (dec_digits n) = Some (int n)"
proof -
  assume n: "n < 2 ^ 63"
  have d: "is_digit (hd (dec_digits n))"
    using dec_digits_all [of n] by (cases "dec_digits n") auto
  then have "hd (dec_digits n) \<noteq> CHR ''-''" "hd (dec_digits n) \<noteq> CHR ''+''" by auto
  moreover have "int n < 2 ^ 63" using n by (simp flip: of_nat_power) 
  ultimately show ?thesis
    using dec_digits_all [of n] by (simp add: Atoi_def Let_def)
qed

section \<open>Host and port\<close>

text \<open>\<^verbatim>\<open>net.SplitHostPort\<close>: \<open>None\<close> for each of its address errors.\<close>

fun before_last :: "char \<Rightarrow> string \<Rightarrow> string option" where
  "before_last c [] = None"
| "before_last c (d # ds) =
     (case before_last c ds of Some r \<Rightarrow> Some (d # r) | None \<Rightarrow> if d = c then Some [] else None)"

definition SplitHostPort :: "string \<Rightarrow> (string \<times> string) option" where
  "SplitHostPort hp =
     (case (before_last CHR '':'' hp, after_last CHR '':'' hp) of
        (Some pre, Some port) \<Rightarrow>
          if hd hp = CHR ''['' then
            (let inner = takeWhile (\<lambda>c. c \<noteq> CHR '']'') hp;
                 host = tl inner;
                 rest = drop (length inner + 1) hp
             in if CHR '']'' \<notin> set hp then None
                else if length pre \<noteq> length inner + 1 then None
                else if CHR ''['' \<in> set (tl hp) then None
                else if CHR '']'' \<in> set rest then None
                else Some (host, port))
          else if CHR '':'' \<in> set pre then None
          else if CHR ''['' \<in> set hp then None
          else if CHR '']'' \<in> set hp then None
          else Some (pre, port)
      | _ \<Rightarrow> None)"

lemma before_last_no: "before_last c s = None \<longleftrightarrow> c \<notin> set s"
  by (induction s) (auto split: option.splits)

lemma SplitHostPort_no_colon: "CHR '':'' \<notin> set hp \<Longrightarrow> SplitHostPort hp = None"
  using before_last_no [of "CHR '':''" hp] by (auto simp: SplitHostPort_def split: option.splits)

end
