(* ===== verification/Domain.thy ===== *)
theory Domain
  imports Go_Strings
begin

text \<open>
  The data of the program: the structs of \<^verbatim>\<open>internal/models\<close>, the sentinel errors of
  \<^verbatim>\<open>internal/store\<close> and \<^verbatim>\<open>internal/services\<close>, the tables of \<^verbatim>\<open>migrations/\<close>, and the
  functions of code outside the repository that the program calls.

  A UUID is the number its 128 bits denote (\<^verbatim>\<open>uuid.Nil\<close> is 0, and PostgreSQL compares
  UUIDs as these numbers). A time is a number of nanoseconds; PostgreSQL keeps
  microseconds. A nullable column or a Go pointer is an option.
\<close>

type_synonym uuid = nat
type_synonym time = int

abbreviation (input) uuid_Nil :: uuid where
  "uuid_Nil \<equiv> 0"

section \<open>Structs of \<^verbatim>\<open>internal/models\<close>\<close>

record User =
  user_ID :: uuid
  user_Username :: string
  user_Email :: string
  user_PasswordHash :: string
  user_DisplayName :: string
  user_AvatarURL :: string
  user_Status :: string
  user_CreatedAt :: time
  user_UpdatedAt :: time
  user_LastSeenAt :: "time option"

record UserWithRoles =
  uwr_User :: User
  uwr_Roles :: "string list"

record NewUser =
  newuser_Username :: string
  newuser_Email :: string
  newuser_PasswordHash :: string
  newuser_DisplayName :: string

record Role =
  role_ID :: uuid
  role_Key :: string
  role_Name :: string
  role_Description :: string

definition UserStatusActive :: string where "UserStatusActive = ''active''"
definition UserStatusBanned :: string where "UserStatusBanned = ''banned''"
definition UserStatusPending :: string where "UserStatusPending = ''pending''"
definition RoleAdmin :: string where "RoleAdmin = ''admin''"
definition RoleModerator :: string where "RoleModerator = ''moderator''"
definition RoleMember :: string where "RoleMember = ''member''"

lemmas role_names = RoleAdmin_def RoleModerator_def RoleMember_def
lemmas status_names = UserStatusActive_def UserStatusBanned_def UserStatusPending_def

record Session =
  session_ID :: uuid
  session_UserID :: uuid
  session_TokenHash :: string
  session_UserAgent :: string
  session_IP :: "string option"
  session_CreatedAt :: time
  session_ExpiresAt :: time
  session_RevokedAt :: "time option"

record NewSession =
  newsession_UserID :: uuid
  newsession_TokenHash :: string
  newsession_UserAgent :: string
  newsession_IP :: string
  newsession_ExpiresAt :: time

record Group =
  group_ID :: uuid
  group_Name :: string
  group_Slug :: string
  group_Description :: string
  group_ParentID :: "uuid option"
  group_SortOrder :: int
  group_CreatedAt :: time
  group_UpdatedAt :: time

record NewGroup =
  newgroup_Name :: string
  newgroup_Slug :: string
  newgroup_Description :: string
  newgroup_ParentID :: "uuid option"
  newgroup_SortOrder :: int

record Thread =
  thread_ID :: uuid
  thread_GroupID :: uuid
  thread_AuthorID :: uuid
  thread_Title :: string
  thread_Pinned :: bool
  thread_Locked :: bool
  thread_Views :: int
  thread_PostCount :: int
  thread_LastPostAt :: "time option"
  thread_CreatedAt :: time
  thread_UpdatedAt :: time

record ThreadSummary =
  ts_Thread :: Thread
  ts_AuthorUsername :: string
  ts_AuthorDisplay :: string

record NewThread =
  newthread_GroupID :: uuid
  newthread_AuthorID :: uuid
  newthread_Title :: string

record Post =
  post_ID :: uuid
  post_ThreadID :: uuid
  post_AuthorID :: uuid
  post_Body :: string
  post_EditedByID :: "uuid option"
  post_EditedAt :: "time option"
  post_CreatedAt :: time
  post_UpdatedAt :: time

record PostSummary =
  ps_Post :: Post
  ps_AuthorUsername :: string
  ps_AuthorDisplay :: string

record NewPost =
  newpost_ThreadID :: uuid
  newpost_AuthorID :: uuid
  newpost_Body :: string

record Attachment =
  att_ID :: uuid
  att_OwnerID :: uuid
  att_PostID :: "uuid option"
  att_Filename :: string
  att_ContentType :: string
  att_SizeBytes :: int
  att_StorageKey :: string
  att_PublicURL :: string
  att_CreatedAt :: time
  att_UpdatedAt :: time

record AttachmentWithOwner =
  awo_Attachment :: Attachment
  awo_OwnerUsername :: string

record NewAttachment =
  newatt_OwnerID :: uuid
  newatt_PostID :: "uuid option"
  newatt_Filename :: string
  newatt_ContentType :: string
  newatt_SizeBytes :: int
  newatt_StorageKey :: string
  newatt_PublicURL :: string

record PrivateMessage =
  pm_ID :: uuid
  pm_SenderID :: uuid
  pm_RecipientID :: uuid
  pm_Body :: string
  pm_ReadAt :: "time option"
  pm_CreatedAt :: time

record NewPrivateMessage =
  newpm_SenderID :: uuid
  newpm_RecipientID :: uuid
  newpm_Body :: string

record PMConversation =
  pmc_Message :: PrivateMessage
  pmc_SenderUsername :: string
  pmc_SenderDisplay :: string

text \<open>JSON values: request bodies, and what \<^verbatim>\<open>settings.value\<close> and \<^verbatim>\<open>notifications.payload\<close> hold. A
  number is an integer, or the literal of a number with a fraction or an exponent; the members of
  an object are in the order of the text.\<close>

datatype json =
    JNull
  | JBool bool
  | JNumber int
  | JDecimal string
  | JString string
  | JArray "json list"
  | JObject "(string \<times> json) list"

record Notification =
  notif_ID :: uuid
  notif_UserID :: uuid
  notif_Type :: string
  notif_Payload :: json
  notif_ReadAt :: "time option"
  notif_CreatedAt :: time

record NewNotification =
  newnotif_UserID :: uuid
  newnotif_Type :: string
  newnotif_Payload :: "json option"

section \<open>Errors\<close>

text \<open>The SQLSTATE classes that the statements of the program can raise, and the failure of
  the connection.\<close>

datatype pg_error =
    UniqueViolation
  | ForeignKeyViolation
  | NumericOutOfRange
  | InvalidTextRepresentation
  | UndefinedTable
  | CharacterNotInRepertoire
  | UntranslatableCharacter
  | ConnectionFailure

text \<open>
  \<^verbatim>\<open>errors.Is\<close> compares sentinels by identity: \<open>StoreErrNotFound\<close> (of the store) and
  \<open>ErrNotFound\<close> (of the services) are different values although their texts agree. A
  wrapping \<^verbatim>\<open>fmt.Errorf("...: %w", err)\<close> is the wrapped error; the text is kept where a
  handler sends it to the client.
\<close>

datatype error =
    StoreErrNotFound
  | StoreErrConflict
  | PgErr pg_error
  | RoleKeysNotFound nat nat
  | ErrNotFound
  | ErrGroupNotFound
  | ErrThreadNotFound
  | ErrPostNotFound
  | ErrAttachmentNotFound
  | ErrForbidden
  | ErrInvalidInput
  | ErrConflict
  | ErrThreadLocked
  | ErrNotEmpty
  | ErrFileTooLarge
  | ErrUnsupportedType
  | ErrInvalidCredentials
  | ErrInvalidRefresh
  | ErrUserNotActive
  | ErrUserNotFound
  | ErrValidation string
  | ErrUsernameTaken
  | ErrEmailTaken
  | ErrAlreadyInstalled
  | ErrVerify string
  | ErrRandom
  | ErrSign
  | ErrStorage
  | ErrJson
  | Panic

definition is_ErrValidation :: "error \<Rightarrow> bool" where
  "is_ErrValidation e = (case e of ErrValidation _ \<Rightarrow> True | _ \<Rightarrow> False)"

section \<open>Tables\<close>

record db =
  users :: "User list"
  roles :: "Role list"
  user_roles :: "(uuid \<times> uuid) list"
  user_sessions :: "Session list"
  settings :: "(string \<times> json) list"
  groups :: "Group list"
  threads :: "Thread list"
  posts :: "Post list"
  attachments :: "Attachment list"
  private_messages :: "PrivateMessage list"
  notifications :: "Notification list"

text \<open>The keys of the tables: lookups by primary key are the locale's.\<close>

interpretation userT: keyed_rows user_ID .
interpretation roleT: keyed_rows role_ID .
interpretation sessionT: keyed_rows session_ID .
interpretation settingT: keyed_rows "fst :: string \<times> json \<Rightarrow> string" .
interpretation groupT: keyed_rows group_ID .
interpretation threadT: keyed_rows thread_ID .
interpretation postT: keyed_rows post_ID .
interpretation attT: keyed_rows att_ID .
interpretation pmT: keyed_rows pm_ID .
interpretation notifT: keyed_rows notif_ID .

abbreviation user_ids :: "db \<Rightarrow> uuid set" where "user_ids d \<equiv> user_ID ` set (users d)"
abbreviation role_ids :: "db \<Rightarrow> uuid set" where "role_ids d \<equiv> role_ID ` set (roles d)"
abbreviation group_ids :: "db \<Rightarrow> uuid set" where "group_ids d \<equiv> group_ID ` set (groups d)"
abbreviation thread_ids :: "db \<Rightarrow> uuid set" where "thread_ids d \<equiv> thread_ID ` set (threads d)"
abbreviation post_ids :: "db \<Rightarrow> uuid set" where "post_ids d \<equiv> post_ID ` set (posts d)"

section \<open>Code outside the repository\<close>

text \<open>JWT claims (\<^verbatim>\<open>auth.Claims\<close> with its embedded \<^verbatim>\<open>jwt.RegisteredClaims\<close>); the
  numeric dates are whole seconds.\<close>

record Claims =
  claims_Username :: string
  claims_Roles :: "string list"
  claims_Subject :: string
  claims_Issuer :: string
  claims_IssuedAt :: int
  claims_NotBefore :: int
  claims_ExpiresAt :: int

datatype signing_method = SigningMethodHMAC string | OtherSigningMethod string

text \<open>
  What the program calls but does not contain: the case folding, collation and \<^verbatim>\<open>inet\<close>
  parser of PostgreSQL, the Unicode case table, \<^verbatim>\<open>argon2.IDKey\<close> (none where it panics),
  \<^verbatim>\<open>sha256.Sum256\<close>, the
  JWT library (signing with HS256, and parsing under a key function, an issuer, the valid
  methods and the current time, which returns the claims and \<^verbatim>\<open>token.Valid\<close>) and the
  text form of a UUID. Every definition that uses one of them takes the record as an
  argument; what a property relies on is stated as its hypothesis.
\<close>

record ext =
  pg_lower :: "string \<Rightarrow> string"
  pg_collate :: "string \<Rightarrow> nat list"
  pg_inet :: "string \<Rightarrow> string option"
  uni_lower :: "nat \<Rightarrow> nat"
  argon2_IDKey :: "string \<Rightarrow> string \<Rightarrow> nat \<Rightarrow> nat \<Rightarrow> nat \<Rightarrow> nat \<Rightarrow> string option"
  sha256_Sum256 :: "string \<Rightarrow> string"
  jwt_SignedString :: "string \<Rightarrow> Claims \<Rightarrow> string option"
  jwt_ParseWithClaims ::
    "(signing_method \<Rightarrow> string option) \<Rightarrow> string \<Rightarrow> string list \<Rightarrow> time \<Rightarrow> string \<Rightarrow> (Claims \<times> bool) option"
  uuid_String :: "uuid \<Rightarrow> string"
  uuid_Parse :: "string \<Rightarrow> uuid option"

end
