(* ===== verification/Database.thy ===== *)
theory Database
  imports Domain
begin

text \<open>
  The world the services run in, and the execution of SQL.

  The SQL text of \<^verbatim>\<open>internal/store\<close> is program text and is translated statement by
  statement, over the tables and constraints of \<^verbatim>\<open>migrations/\<close>. What PostgreSQL decides by
  itself is an \<^emph>\<open>answer\<close> of the environment, one per external call: whether the call fails
  (before it runs, or after it ran but before the reply arrives), the clock, the value of
  \<^verbatim>\<open>gen_random_uuid()\<close>, the order of rows that \<^verbatim>\<open>ORDER BY\<close> leaves open, random bytes, and
  whether the deadline of the request has passed by then.
  The answers are a sequence \<open>w_env\<close> with a position \<open>w_tick\<close>; properties hold for every
  sequence unless they say otherwise.

  The model runs one request at a time; a transaction (\<^verbatim>\<open>Begin .. Commit\<close>) is \<open>with_tx\<close>,
  which restores the tables when the body or the commit fails.
\<close>

section \<open>The world\<close>

datatype fault = NoFault | NotExecuted | AckLost

record answer =
  ans_fault :: fault
  ans_now :: time
  ans_uuid :: uuid
  ans_rank :: "uuid \<Rightarrow> nat"
  ans_rand :: "nat \<Rightarrow> char"
  ans_late :: bool

datatype event_data =
    DataMessage PrivateMessage
  | DataNotification Notification
  | DataPresence uuid bool

record Event =
  event_Type :: string
  event_Data :: event_data

record notify =
  notify_userID :: uuid
  notify_event :: Event

text \<open>Calls to the object store, in the order they are made.\<close>

datatype s3_call =
    PutObject string int string
  | RemoveObject string
  | GetObject string

record world =
  w_db :: db
  w_env :: "nat \<Rightarrow> answer"
  w_tick :: nat
  w_tx :: "time option"
  w_s3 :: "s3_call list"
  w_notify :: "notify list"

type_synonym 'a dbop = "(world, error, 'a) op"

definition pg_time :: "time \<Rightarrow> time" where
  "pg_time t = t div 1000 * 1000"

lemma pg_time_idem [simp]: "pg_time (pg_time t) = pg_time t"
  by (simp add: pg_time_def)

lemma pg_time_mono: "s \<le> t \<Longrightarrow> pg_time s \<le> pg_time t"
  by (simp add: pg_time_def zdiv_mono1)

lemma pg_time_le: "pg_time t \<le> t"
  by (simp add: pg_time_def minus_mod_eq_div_mult [symmetric])

definition tick :: "world \<Rightarrow> world" where
  "tick w = w\<lparr>w_tick := Suc (w_tick w)\<rparr>"

lemma tick_simps [simp]:
  "w_db (tick w) = w_db w" "w_env (tick w) = w_env w" "w_tick (tick w) = Suc (w_tick w)"
  "w_tx (tick w) = w_tx w" "w_s3 (tick w) = w_s3 w" "w_notify (tick w) = w_notify w"
  by (simp_all add: tick_def)

text \<open>The answer a statement sees: inside a transaction \<^verbatim>\<open>now()\<close> is its start time.\<close>

definition stmt_answer :: "world \<Rightarrow> answer" where
  "stmt_answer w =
     (let a = w_env w (w_tick w)
      in a\<lparr>ans_now := pg_time (case w_tx w of Some t \<Rightarrow> t | None \<Rightarrow> ans_now a)\<rparr>)"

lemma tick_db [simp]:
  "tick (w\<lparr>w_db := d\<rparr>) = (tick w)\<lparr>w_db := d\<rparr>" "stmt_answer (w\<lparr>w_db := d\<rparr>) = stmt_answer w"
  by (simp_all add: tick_def stmt_answer_def)

section \<open>Statements\<close>

text \<open>Text sent to PostgreSQL must be UTF-8 without the byte zero.\<close>

definition pg_text :: "string \<Rightarrow> bool" where
  "pg_text s \<longleftrightarrow> valid_utf8 s \<and> CHR 0x00 \<notin> set s"

lemma pg_text_ascii: "ascii s \<Longrightarrow> CHR 0x00 \<notin> set s \<Longrightarrow> pg_text s"
  by (simp add: pg_text_def valid_utf8_ascii)

type_synonym 'a stmt = "answer \<Rightarrow> db \<Rightarrow> pg_error + 'a \<times> db"

definition sql :: "string list \<Rightarrow> 'a stmt \<Rightarrow> 'a dbop" where
  "sql args f w =
     (let fl = ans_fault (w_env w (w_tick w)) in
      if fl = NotExecuted then (Inl (PgErr ConnectionFailure), tick w)
      else if \<not> list_all pg_text args then (Inl (PgErr CharacterNotInRepertoire), tick w)
      else (case f (stmt_answer w) (w_db w) of
              Inl e \<Rightarrow> (Inl (PgErr e), tick w)
            | Inr (x, d) \<Rightarrow>
                (if fl = AckLost then (Inl (PgErr ConnectionFailure), (tick w)\<lparr>w_db := d\<rparr>)
                 else (Inr x, (tick w)\<lparr>w_db := d\<rparr>))))"

definition query :: "string list \<Rightarrow> (answer \<Rightarrow> db \<Rightarrow> 'a) \<Rightarrow> 'a dbop" where
  "query args f = sql args (\<lambda>a d. Inr (f a d, d))"

text \<open>\<^verbatim>\<open>QueryRow(..).Scan\<close> of a statement with at most one row: no row is
  \<^verbatim>\<open>pgx.ErrNoRows\<close>, which the stores turn into their \<^verbatim>\<open>ErrNotFound\<close>.\<close>

definition scan_row :: "'a option dbop \<Rightarrow> 'a dbop" where
  "scan_row m = bindE m (\<lambda>r. case r of None \<Rightarrow> throwE StoreErrNotFound | Some x \<Rightarrow> returnE x)"

text \<open>\<^verbatim>\<open>if tag.RowsAffected() == 0 { return ErrNotFound }\<close>.\<close>

definition need_rows :: "nat dbop \<Rightarrow> unit dbop" where
  "need_rows m = bindE m (\<lambda>n. if n = 0 then throwE StoreErrNotFound else returnE ())"

definition with_tx :: "'a dbop \<Rightarrow> 'a dbop" where
  "with_tx body w =
     (let b = w_env w (w_tick w) in
      if ans_fault b \<noteq> NoFault then (Inl (PgErr ConnectionFailure), tick w)
      else (case body ((tick w)\<lparr>w_tx := Some (ans_now b)\<rparr>) of
              (Inl e, w2) \<Rightarrow> (Inl e, w2\<lparr>w_db := w_db w, w_tx := None\<rparr>)
            | (Inr x, w2) \<Rightarrow>
                (case ans_fault (w_env w2 (w_tick w2)) of
                   NoFault \<Rightarrow> (Inr x, (tick w2)\<lparr>w_tx := None\<rparr>)
                 | NotExecuted \<Rightarrow>
                     (Inl (PgErr ConnectionFailure), (tick w2)\<lparr>w_db := w_db w, w_tx := None\<rparr>)
                 | AckLost \<Rightarrow> (Inl (PgErr ConnectionFailure), (tick w2)\<lparr>w_tx := None\<rparr>))))"

section \<open>JSON values\<close>

text \<open>\<^verbatim>\<open>json.Marshal\<close> of a string replaces invalid UTF-8 by the replacement character; a
  \<^verbatim>\<open>jsonb\<close> value cannot hold the byte zero.\<close>

definition to_valid_utf8 :: "string \<Rightarrow> string" where
  "to_valid_utf8 s = concat (map EncodeRune (runes s))"

lemma to_valid_utf8_id: "valid_utf8 s \<Longrightarrow> to_valid_utf8 s = s"
  by (simp add: to_valid_utf8_def encode_runes)

definition json_string :: "string \<Rightarrow> json" where
  "json_string s = JString (to_valid_utf8 s)"

fun jsonb_ok :: "json \<Rightarrow> bool" where
  "jsonb_ok (JString s) = (CHR 0x00 \<notin> set s)"
| "jsonb_ok (JArray js) = list_all jsonb_ok js"
| "jsonb_ok (JObject kvs) = list_all (\<lambda>(k, v). CHR 0x00 \<notin> set k \<and> jsonb_ok v) kvs"
| "jsonb_ok _ = True"

definition Unmarshal_bool :: "json \<Rightarrow> bool option" where
  "Unmarshal_bool j = (case j of JBool b \<Rightarrow> Some b | JNull \<Rightarrow> Some False | _ \<Rightarrow> None)"

definition Unmarshal_string :: "json \<Rightarrow> string option" where
  "Unmarshal_string j = (case j of JString s \<Rightarrow> Some s | JNull \<Rightarrow> Some [] | _ \<Rightarrow> None)"

section \<open>Other calls to the environment\<close>

text \<open>\<^verbatim>\<open>time.Now()\<close>, \<^verbatim>\<open>crypto/rand.Read\<close> on a buffer of \<open>n\<close> bytes, \<^verbatim>\<open>uuid.New\<close>.\<close>

definition time_Now :: "time dbop" where
  "time_Now w = (Inr (ans_now (w_env w (w_tick w))), tick w)"

definition rand_Read :: "nat \<Rightarrow> string dbop" where
  "rand_Read n w =
     (let a = w_env w (w_tick w)
      in if ans_fault a \<noteq> NoFault then (Inl ErrRandom, tick w)
         else (Inr (map (ans_rand a) [0..<n]), tick w))"

definition uuid_New :: "uuid dbop" where
  "uuid_New w = (Inr (ans_uuid (w_env w (w_tick w))), tick w)"

definition s3_do :: "s3_call \<Rightarrow> unit dbop" where
  "s3_do c w =
     (let fl = ans_fault (w_env w (w_tick w))
      in if fl = NotExecuted then (Inl ErrStorage, tick w)
         else if fl = AckLost then (Inl ErrStorage, (tick w)\<lparr>w_s3 := w_s3 w @ [c]\<rparr>)
         else (Inr (), (tick w)\<lparr>w_s3 := w_s3 w @ [c]\<rparr>))"

section \<open>Frame and progress\<close>

text \<open>No call fails from here on.\<close>

definition calm :: "world \<Rightarrow> bool" where
  "calm w \<longleftrightarrow> (\<forall>i \<ge> w_tick w. ans_fault (w_env w i) = NoFault)"

lemma calm_now: "calm w \<Longrightarrow> ans_fault (w_env w (w_tick w)) = NoFault"
  by (simp add: calm_def)

lemma calm_tick [simp]: "calm w \<Longrightarrow> calm (tick w)"
  by (simp add: calm_def)

lemma calm_update [simp]:
  "calm (w\<lparr>w_db := d\<rparr>) = calm w" "calm (w\<lparr>w_tx := t\<rparr>) = calm w"
  "calm (w\<lparr>w_s3 := s\<rparr>) = calm w" "calm (w\<lparr>w_notify := q\<rparr>) = calm w"
  by (simp_all add: calm_def)

lemma keeps_calm_sql [keeps_intros]: "keeps calm (sql args f)"
  by (auto simp: keeps_def sql_def Let_def split: sum.splits prod.splits)

lemma keeps_calm_with_tx [keeps_intros]:
  assumes "keeps calm body"
  shows "keeps calm (with_tx body)"
proof (rule keepsI)
  fix w assume "calm w"
  then have "calm ((tick w)\<lparr>w_tx := Some (ans_now (w_env w (w_tick w)))\<rparr>)" by simp
  with assms have "calm (snd (body ((tick w)\<lparr>w_tx := Some (ans_now (w_env w (w_tick w)))\<rparr>)))"
    by (rule keepsD)
  with \<open>calm w\<close> show "calm (snd (with_tx body w))"
    by (auto simp: with_tx_def Let_def split: prod.splits sum.splits fault.splits)
qed

lemma keeps_calm_env [keeps_intros]:
  "keeps calm time_Now" "keeps calm (rand_Read n)" "keeps calm uuid_New" "keeps calm (s3_do c)"
  by (auto simp: keeps_def time_Now_def rand_Read_def uuid_New_def s3_do_def Let_def)

lemma keeps_query [keeps_intros]: "keeps I (sql args (\<lambda>a d. Inr (f a d, d))) \<Longrightarrow> keeps I (query args f)"
  by (simp add: query_def)

lemma keeps_scan_row [keeps_intros]: "keeps I m \<Longrightarrow> keeps I (scan_row m)"
  unfolding scan_row_def by (intro keeps_intros)

lemma keeps_need_rows [keeps_intros]: "keeps I m \<Longrightarrow> keeps I (need_rows m)"
  unfolding need_rows_def by (intro keeps_intros)

text \<open>When nothing fails a statement is its relational meaning.\<close>

lemma sql_calm:
  assumes "calm w" "list_all pg_text args"
  shows "sql args f w =
    (case f (stmt_answer w) (w_db w) of
       Inl e \<Rightarrow> (Inl (PgErr e), tick w) | Inr (x, d) \<Rightarrow> (Inr x, (tick w)\<lparr>w_db := d\<rparr>))"
  using assms by (simp add: sql_def calm_now Let_def split: sum.split)

text \<open>A read advances the position in the answers and changes nothing else, whether or not it
  fails.\<close>

lemma query_result:
  "query args f w = (r, w1) \<Longrightarrow> w1 = tick w \<and> (\<forall>x. r = Inr x \<longrightarrow> x = f (stmt_answer w) (w_db w))"
  by (auto simp: query_def sql_def tick_def Let_def split: if_splits)

lemma scan_query_result:
  "scan_row (query args f) w = (r, w1) \<Longrightarrow>
     w1 = tick w \<and> (\<forall>x. r = Inr x \<longrightarrow> f (stmt_answer w) (w_db w) = Some x)"
  by (auto simp: scan_row_def bindE_def dest!: query_result split: prod.splits sum.splits option.splits)

lemma query_calm:
  "calm w \<Longrightarrow> list_all pg_text args \<Longrightarrow>
     query args f w = (Inr (f (stmt_answer w) (w_db w)), tick w)"
  by (simp add: query_def sql_calm tick_def)

lemma scan_query_calm:
  "calm w \<Longrightarrow> list_all pg_text args \<Longrightarrow>
     scan_row (query args f) w =
       ((case f (stmt_answer w) (w_db w) of None \<Rightarrow> Inl StoreErrNotFound | Some x \<Rightarrow> Inr x), tick w)"
  by (simp add: scan_row_def bindE_def query_calm op_defs split: option.split)

text \<open>The ways a statement can end, whatever the environment does.\<close>

lemma sql_cases:
  assumes "sql args f w = (r, w1)"
  obtains (failed) e where "r = Inl (PgErr e)" "w1 = tick w"
  | (ran) x d where "f (stmt_answer w) (w_db w) = Inr (x, d)" "list_all pg_text args" "w1 = (tick w)\<lparr>w_db := d\<rparr>"
      "r = Inr x \<or> r = Inl (PgErr ConnectionFailure)"
  using assms by (auto simp: sql_def Let_def split: if_splits sum.splits prod.splits)

lemma read_cases:
  assumes "scan_row (query args f) w = (r, w1)"
  obtains (failed) e where "r = Inl (PgErr e)" "w1 = tick w"
  | (none) "f (stmt_answer w) (w_db w) = None" "r = Inl StoreErrNotFound" "w1 = tick w"
  | (found) x where "f (stmt_answer w) (w_db w) = Some x" "r = Inr x" "w1 = tick w"
  using assms unfolding scan_row_def query_def
  by (auto simp: bindE_def tick_def dest: sym split: prod.splits sum.splits option.splits elim!: sql_cases)

text \<open>A request that starts by reading a row and goes on only if it is there.\<close>

lemma bind_read_cases:
  assumes "bindE (mapErrE g (scan_row (query args f))) k w = (r, w1)"
  obtains (failed) e where "r = Inl (g (PgErr e))" "w1 = tick w"
  | (none) "f (stmt_answer w) (w_db w) = None" "r = Inl (g StoreErrNotFound)" "w1 = tick w"
  | (found) x where "f (stmt_answer w) (w_db w) = Some x" "k x (tick w) = (r, w1)"
proof -
  obtain r0 w0 where m: "scan_row (query args f) w = (r0, w0)" by fastforce
  then show thesis
    by (cases rule: read_cases)
       (use assms m failed none found in \<open>auto simp: op_defs\<close>)
qed

lemma need_rows_cases:
  assumes "need_rows (sql args f) w = (r, w1)"
  obtains (failed) e where "r = Inl e" "w1 = tick w"
  | (ran) n d where "f (stmt_answer w) (w_db w) = Inr (n, d)" "w1 = (tick w)\<lparr>w_db := d\<rparr>"
      "r = Inr () \<longrightarrow> n \<noteq> 0"
  using assms unfolding need_rows_def
  by (auto simp: bindE_def split: prod.splits sum.splits if_splits elim!: sql_cases)

lemma scan_sql_cases:
  assumes "scan_row (sql args f) w = (r, w1)"
  obtains (failed) e where "r = Inl e" "w1 = tick w"
  | (ran) x d where "f (stmt_answer w) (w_db w) = Inr (x, d)" "list_all pg_text args" "w1 = (tick w)\<lparr>w_db := d\<rparr>"
      "\<forall>y. r = Inr y \<longrightarrow> x = Some y"
  using assms unfolding scan_row_def
  by (auto simp: bindE_def split: prod.splits sum.splits option.splits elim!: sql_cases)

lemma with_tx_cases:
  assumes "with_tx body w = (r, w1)"
  obtains (unchanged) e where "r = Inl e" "w_db w1 = w_db w"
  | (committed) x w2 where
      "body ((tick w)\<lparr>w_tx := Some (ans_now (w_env w (w_tick w)))\<rparr>) = (Inr x, w2)"
      "w_db w1 = w_db w2" "r = Inr x \<or> r = Inl (PgErr ConnectionFailure)"
  using assms by (auto simp: with_tx_def Let_def split: if_splits prod.splits sum.splits fault.splits)

lemma sql_Inr:
  "sql args f w = (Inr x, w1) \<Longrightarrow>
     \<exists>d. f (stmt_answer w) (w_db w) = Inr (x, d) \<and> list_all pg_text args \<and> w1 = (tick w)\<lparr>w_db := d\<rparr>"
  by (erule sql_cases) auto

lemma stmt_answer_tx: "w_tx w = Some t \<Longrightarrow> ans_now (stmt_answer w) = pg_time t"
  by (simp add: stmt_answer_def Let_def)

lemma with_tx_calm:
  assumes "calm w" "body ((tick w)\<lparr>w_tx := Some (ans_now (w_env w (w_tick w)))\<rparr>) = (Inr x, w2)"
    and "calm w2"
  shows "with_tx body w = (Inr x, (tick w2)\<lparr>w_tx := None\<rparr>)"
  using assms by (simp add: with_tx_def calm_now Let_def)

section \<open>Invariants of the tables\<close>

text \<open>A statement preserves a property of the tables, and so does every operation built from
  such statements, whatever fails.\<close>

definition stmt_keeps :: "(db \<Rightarrow> bool) \<Rightarrow> 'a stmt \<Rightarrow> bool" where
  "stmt_keeps I f \<longleftrightarrow> (\<forall>a d x d'. I d \<longrightarrow> f a d = Inr (x, d') \<longrightarrow> I d')"

definition on_db :: "(db \<Rightarrow> bool) \<Rightarrow> world \<Rightarrow> bool" where
  "on_db I w \<longleftrightarrow> I (w_db w)"

lemma stmt_keepsI: "(\<And>a d x d'. I d \<Longrightarrow> f a d = Inr (x, d') \<Longrightarrow> I d') \<Longrightarrow> stmt_keeps I f"
  by (auto simp: stmt_keeps_def)

lemma stmt_keeps_read [simp]: "stmt_keeps I (\<lambda>a d. Inr (f a d, d))"
  by (simp add: stmt_keeps_def)

lemma keeps_sql [keeps_intros]: "stmt_keeps I f \<Longrightarrow> keeps (on_db I) (sql args f)"
  by (auto simp: keeps_def on_db_def stmt_keeps_def sql_def Let_def split: sum.splits prod.splits)

lemma keeps_dbD: "keeps (on_db I) m \<Longrightarrow> I (w_db w) \<Longrightarrow> m w = (r, w1) \<Longrightarrow> I (w_db w1)"
  using keeps_resultD [of "on_db I" m w r w1] by (simp add: on_db_def)

lemma keeps_db_query [keeps_intros]: "keeps (on_db I) (query args f)"
  by (simp add: query_def keeps_sql)

lemma keeps_db_with_tx [keeps_intros]:
  assumes "keeps (on_db I) body"
  shows "keeps (on_db I) (with_tx body)"
proof (rule keepsI)
  fix w assume I: "on_db I w"
  let ?w1 = "(tick w)\<lparr>w_tx := Some (ans_now (w_env w (w_tick w)))\<rparr>"
  from I have "on_db I ?w1" by (simp add: on_db_def)
  with assms have "on_db I (snd (body ?w1))" by (rule keepsD)
  with I show "on_db I (snd (with_tx body w))"
    by (auto simp: with_tx_def on_db_def Let_def split: prod.splits sum.splits fault.splits)
qed

lemma keeps_db_env [keeps_intros]:
  "keeps (on_db I) time_Now" "keeps (on_db I) (rand_Read n)" "keeps (on_db I) uuid_New"
  "keeps (on_db I) (s3_do c)"
  by (auto simp: keeps_def on_db_def time_Now_def rand_Read_def uuid_New_def s3_do_def Let_def)

section \<open>The schema\<close>

text \<open>
  The constraints that the migrations declare: primary keys, unique columns and indexes,
  foreign keys, and the range of \<^verbatim>\<open>integer\<close> columns.
\<close>

definition int4 :: "int \<Rightarrow> bool" where
  "int4 n \<longleftrightarrow> - 2147483648 \<le> n \<and> n \<le> 2147483647"

definition int8 :: "int \<Rightarrow> bool" where
  "int8 n \<longleftrightarrow> - 9223372036854775808 \<le> n \<and> n \<le> 9223372036854775807"

definition users_ok :: "ext \<Rightarrow> db \<Rightarrow> bool" where
  "users_ok X d \<longleftrightarrow>
     distinct (map user_ID (users d)) \<and> distinct (map user_Email (users d)) \<and>
     distinct (map (\<lambda>u. pg_lower X (user_Username u)) (users d))"

definition roles_ok :: "db \<Rightarrow> bool" where
  "roles_ok d \<longleftrightarrow>
     distinct (map role_ID (roles d)) \<and> distinct (map role_Key (roles d)) \<and>
     distinct (user_roles d) \<and> set (user_roles d) \<subseteq> user_ids d \<times> role_ids d"

definition sessions_ok :: "db \<Rightarrow> bool" where
  "sessions_ok d \<longleftrightarrow>
     distinct (map session_ID (user_sessions d)) \<and> distinct (map session_TokenHash (user_sessions d)) \<and>
     session_UserID ` set (user_sessions d) \<subseteq> user_ids d"

definition settings_ok :: "db \<Rightarrow> bool" where
  "settings_ok d \<longleftrightarrow> distinct (map fst (settings d))"

definition groups_ok :: "db \<Rightarrow> bool" where
  "groups_ok d \<longleftrightarrow>
     distinct (map group_ID (groups d)) \<and> distinct (map group_Name (groups d)) \<and>
     distinct (map group_Slug (groups d)) \<and>
     (\<forall>g \<in> set (groups d). set_option (group_ParentID g) \<subseteq> group_ids d \<and> int4 (group_SortOrder g))"

definition threads_ok :: "db \<Rightarrow> bool" where
  "threads_ok d \<longleftrightarrow>
     distinct (map thread_ID (threads d)) \<and>
     (\<forall>t \<in> set (threads d). thread_GroupID t \<in> group_ids d \<and> thread_AuthorID t \<in> user_ids d \<and>
        int4 (thread_Views t) \<and> int4 (thread_PostCount t))"

definition posts_ok :: "db \<Rightarrow> bool" where
  "posts_ok d \<longleftrightarrow>
     distinct (map post_ID (posts d)) \<and>
     (\<forall>p \<in> set (posts d). post_ThreadID p \<in> thread_ids d \<and> post_AuthorID p \<in> user_ids d \<and>
        set_option (post_EditedByID p) \<subseteq> user_ids d)"

definition attachments_ok :: "db \<Rightarrow> bool" where
  "attachments_ok d \<longleftrightarrow>
     distinct (map att_ID (attachments d)) \<and> distinct (map att_StorageKey (attachments d)) \<and>
     (\<forall>a \<in> set (attachments d). att_OwnerID a \<in> user_ids d \<and> set_option (att_PostID a) \<subseteq> post_ids d \<and>
        int8 (att_SizeBytes a))"

definition messages_ok :: "db \<Rightarrow> bool" where
  "messages_ok d \<longleftrightarrow>
     distinct (map pm_ID (private_messages d)) \<and>
     (\<forall>m \<in> set (private_messages d). pm_SenderID m \<in> user_ids d \<and> pm_RecipientID m \<in> user_ids d)"

definition notifications_ok :: "db \<Rightarrow> bool" where
  "notifications_ok d \<longleftrightarrow>
     distinct (map notif_ID (notifications d)) \<and>
     notif_UserID ` set (notifications d) \<subseteq> user_ids d"

definition db_ok :: "ext \<Rightarrow> db \<Rightarrow> bool" where
  "db_ok X d \<longleftrightarrow>
     users_ok X d \<and> roles_ok d \<and> sessions_ok d \<and> settings_ok d \<and> groups_ok d \<and> threads_ok d \<and>
     posts_ok d \<and> attachments_ok d \<and> messages_ok d \<and> notifications_ok d"

lemmas schema_defs =
  users_ok_def roles_ok_def sessions_ok_def settings_ok_def groups_ok_def threads_ok_def
  posts_ok_def attachments_ok_def messages_ok_def notifications_ok_def

text \<open>Each constraint depends on a few tables only.\<close>

lemma schema_frame [simp]:
  "settings_ok (d\<lparr>users := v0\<rparr>) = settings_ok d"
  "groups_ok (d\<lparr>users := v0\<rparr>) = groups_ok d"
  "users_ok X (d\<lparr>roles := v1\<rparr>) = users_ok X d"
  "sessions_ok (d\<lparr>roles := v1\<rparr>) = sessions_ok d"
  "settings_ok (d\<lparr>roles := v1\<rparr>) = settings_ok d"
  "groups_ok (d\<lparr>roles := v1\<rparr>) = groups_ok d"
  "threads_ok (d\<lparr>roles := v1\<rparr>) = threads_ok d"
  "posts_ok (d\<lparr>roles := v1\<rparr>) = posts_ok d"
  "attachments_ok (d\<lparr>roles := v1\<rparr>) = attachments_ok d"
  "messages_ok (d\<lparr>roles := v1\<rparr>) = messages_ok d"
  "notifications_ok (d\<lparr>roles := v1\<rparr>) = notifications_ok d"
  "users_ok X (d\<lparr>user_roles := v2\<rparr>) = users_ok X d"
  "sessions_ok (d\<lparr>user_roles := v2\<rparr>) = sessions_ok d"
  "settings_ok (d\<lparr>user_roles := v2\<rparr>) = settings_ok d"
  "groups_ok (d\<lparr>user_roles := v2\<rparr>) = groups_ok d"
  "threads_ok (d\<lparr>user_roles := v2\<rparr>) = threads_ok d"
  "posts_ok (d\<lparr>user_roles := v2\<rparr>) = posts_ok d"
  "attachments_ok (d\<lparr>user_roles := v2\<rparr>) = attachments_ok d"
  "messages_ok (d\<lparr>user_roles := v2\<rparr>) = messages_ok d"
  "notifications_ok (d\<lparr>user_roles := v2\<rparr>) = notifications_ok d"
  "users_ok X (d\<lparr>user_sessions := v3\<rparr>) = users_ok X d"
  "roles_ok (d\<lparr>user_sessions := v3\<rparr>) = roles_ok d"
  "settings_ok (d\<lparr>user_sessions := v3\<rparr>) = settings_ok d"
  "groups_ok (d\<lparr>user_sessions := v3\<rparr>) = groups_ok d"
  "threads_ok (d\<lparr>user_sessions := v3\<rparr>) = threads_ok d"
  "posts_ok (d\<lparr>user_sessions := v3\<rparr>) = posts_ok d"
  "attachments_ok (d\<lparr>user_sessions := v3\<rparr>) = attachments_ok d"
  "messages_ok (d\<lparr>user_sessions := v3\<rparr>) = messages_ok d"
  "notifications_ok (d\<lparr>user_sessions := v3\<rparr>) = notifications_ok d"
  "users_ok X (d\<lparr>settings := v4\<rparr>) = users_ok X d"
  "roles_ok (d\<lparr>settings := v4\<rparr>) = roles_ok d"
  "sessions_ok (d\<lparr>settings := v4\<rparr>) = sessions_ok d"
  "groups_ok (d\<lparr>settings := v4\<rparr>) = groups_ok d"
  "threads_ok (d\<lparr>settings := v4\<rparr>) = threads_ok d"
  "posts_ok (d\<lparr>settings := v4\<rparr>) = posts_ok d"
  "attachments_ok (d\<lparr>settings := v4\<rparr>) = attachments_ok d"
  "messages_ok (d\<lparr>settings := v4\<rparr>) = messages_ok d"
  "notifications_ok (d\<lparr>settings := v4\<rparr>) = notifications_ok d"
  "users_ok X (d\<lparr>groups := v5\<rparr>) = users_ok X d"
  "roles_ok (d\<lparr>groups := v5\<rparr>) = roles_ok d"
  "sessions_ok (d\<lparr>groups := v5\<rparr>) = sessions_ok d"
  "settings_ok (d\<lparr>groups := v5\<rparr>) = settings_ok d"
  "posts_ok (d\<lparr>groups := v5\<rparr>) = posts_ok d"
  "attachments_ok (d\<lparr>groups := v5\<rparr>) = attachments_ok d"
  "messages_ok (d\<lparr>groups := v5\<rparr>) = messages_ok d"
  "notifications_ok (d\<lparr>groups := v5\<rparr>) = notifications_ok d"
  "users_ok X (d\<lparr>threads := v6\<rparr>) = users_ok X d"
  "roles_ok (d\<lparr>threads := v6\<rparr>) = roles_ok d"
  "sessions_ok (d\<lparr>threads := v6\<rparr>) = sessions_ok d"
  "settings_ok (d\<lparr>threads := v6\<rparr>) = settings_ok d"
  "groups_ok (d\<lparr>threads := v6\<rparr>) = groups_ok d"
  "attachments_ok (d\<lparr>threads := v6\<rparr>) = attachments_ok d"
  "messages_ok (d\<lparr>threads := v6\<rparr>) = messages_ok d"
  "notifications_ok (d\<lparr>threads := v6\<rparr>) = notifications_ok d"
  "users_ok X (d\<lparr>posts := v7\<rparr>) = users_ok X d"
  "roles_ok (d\<lparr>posts := v7\<rparr>) = roles_ok d"
  "sessions_ok (d\<lparr>posts := v7\<rparr>) = sessions_ok d"
  "settings_ok (d\<lparr>posts := v7\<rparr>) = settings_ok d"
  "groups_ok (d\<lparr>posts := v7\<rparr>) = groups_ok d"
  "threads_ok (d\<lparr>posts := v7\<rparr>) = threads_ok d"
  "messages_ok (d\<lparr>posts := v7\<rparr>) = messages_ok d"
  "notifications_ok (d\<lparr>posts := v7\<rparr>) = notifications_ok d"
  "users_ok X (d\<lparr>attachments := v8\<rparr>) = users_ok X d"
  "roles_ok (d\<lparr>attachments := v8\<rparr>) = roles_ok d"
  "sessions_ok (d\<lparr>attachments := v8\<rparr>) = sessions_ok d"
  "settings_ok (d\<lparr>attachments := v8\<rparr>) = settings_ok d"
  "groups_ok (d\<lparr>attachments := v8\<rparr>) = groups_ok d"
  "threads_ok (d\<lparr>attachments := v8\<rparr>) = threads_ok d"
  "posts_ok (d\<lparr>attachments := v8\<rparr>) = posts_ok d"
  "messages_ok (d\<lparr>attachments := v8\<rparr>) = messages_ok d"
  "notifications_ok (d\<lparr>attachments := v8\<rparr>) = notifications_ok d"
  "users_ok X (d\<lparr>private_messages := v9\<rparr>) = users_ok X d"
  "roles_ok (d\<lparr>private_messages := v9\<rparr>) = roles_ok d"
  "sessions_ok (d\<lparr>private_messages := v9\<rparr>) = sessions_ok d"
  "settings_ok (d\<lparr>private_messages := v9\<rparr>) = settings_ok d"
  "groups_ok (d\<lparr>private_messages := v9\<rparr>) = groups_ok d"
  "threads_ok (d\<lparr>private_messages := v9\<rparr>) = threads_ok d"
  "posts_ok (d\<lparr>private_messages := v9\<rparr>) = posts_ok d"
  "attachments_ok (d\<lparr>private_messages := v9\<rparr>) = attachments_ok d"
  "notifications_ok (d\<lparr>private_messages := v9\<rparr>) = notifications_ok d"
  "users_ok X (d\<lparr>notifications := v10\<rparr>) = users_ok X d"
  "roles_ok (d\<lparr>notifications := v10\<rparr>) = roles_ok d"
  "sessions_ok (d\<lparr>notifications := v10\<rparr>) = sessions_ok d"
  "settings_ok (d\<lparr>notifications := v10\<rparr>) = settings_ok d"
  "groups_ok (d\<lparr>notifications := v10\<rparr>) = groups_ok d"
  "threads_ok (d\<lparr>notifications := v10\<rparr>) = threads_ok d"
  "posts_ok (d\<lparr>notifications := v10\<rparr>) = posts_ok d"
  "attachments_ok (d\<lparr>notifications := v10\<rparr>) = attachments_ok d"
  "messages_ok (d\<lparr>notifications := v10\<rparr>) = messages_ok d"
  by (simp_all add: schema_defs)

text \<open>A row added to \<^verbatim>\<open>users\<close>, or an update that keeps the ids, breaks no reference.\<close>

lemma users_refs_mono:
  assumes "user_ids d \<subseteq> user_ID ` set us"
  shows "roles_ok d \<Longrightarrow> roles_ok (d\<lparr>users := us\<rparr>)"
    and "sessions_ok d \<Longrightarrow> sessions_ok (d\<lparr>users := us\<rparr>)"
    and "threads_ok d \<Longrightarrow> threads_ok (d\<lparr>users := us\<rparr>)"
    and "posts_ok d \<Longrightarrow> posts_ok (d\<lparr>users := us\<rparr>)"
    and "attachments_ok d \<Longrightarrow> attachments_ok (d\<lparr>users := us\<rparr>)"
    and "messages_ok d \<Longrightarrow> messages_ok (d\<lparr>users := us\<rparr>)"
    and "notifications_ok d \<Longrightarrow> notifications_ok (d\<lparr>users := us\<rparr>)"
  subgoal using assms by (simp add: roles_ok_def) blast
  subgoal using assms by (simp add: sessions_ok_def) blast
  subgoal using assms by (simp add: threads_ok_def) blast
  subgoal using assms by (simp add: posts_ok_def) blast
  subgoal using assms by (simp add: attachments_ok_def) blast
  subgoal using assms by (simp add: messages_ok_def) blast
  subgoal using assms by (simp add: notifications_ok_def) blast
  done

lemma db_ok_users:
  "db_ok X d \<Longrightarrow> user_ids d \<subseteq> user_ID ` set us \<Longrightarrow> users_ok X (d\<lparr>users := us\<rparr>) \<Longrightarrow>
     db_ok X (d\<lparr>users := us\<rparr>)"
  by (simp add: db_ok_def users_refs_mono)

text \<open>The tables after the migrations: the three seeded roles, with the ids the database drew
  for them.\<close>

definition migrated :: "uuid \<Rightarrow> uuid \<Rightarrow> uuid \<Rightarrow> db" where
  "migrated r1 r2 r3 =
     \<lparr>users = [],
      roles =
        [\<lparr>role_ID = r1, role_Key = ''admin'', role_Name = ''Administrator'',
          role_Description = ''Full access to administration and moderation''\<rparr>,
         \<lparr>role_ID = r2, role_Key = ''moderator'', role_Name = ''Moderator'',
          role_Description = ''Content moderation, no system settings''\<rparr>,
         \<lparr>role_ID = r3, role_Key = ''member'', role_Name = ''Member'',
          role_Description = ''Regular registered user''\<rparr>],
      user_roles = [], user_sessions = [], settings = [], groups = [], threads = [], posts = [],
      attachments = [], private_messages = [], notifications = []\<rparr>"

lemma migrated_ok: "distinct [r1, r2, r3] \<Longrightarrow> db_ok X (migrated r1 r2 r3)"
  by (simp add: db_ok_def schema_defs migrated_def)

end
