(* ===== verification/User_Store.thy ===== *)
theory User_Store
  imports Database
begin

text \<open>
  \<^verbatim>\<open>internal/store/user.go\<close>, \<^verbatim>\<open>session.go\<close> and \<^verbatim>\<open>settings.go\<close>: accounts and their roles,
  refresh sessions, and the key/value settings. For every statement: what it does to the
  tables, that it keeps the schema's constraints, and what it returns when nothing fails.
\<close>

section \<open>Users\<close>

definition sql_users_insert :: "ext \<Rightarrow> NewUser \<Rightarrow> User stmt" where
  "sql_users_insert X nu a d =
     (if ans_uuid a \<in> user_ids d
         \<or> newuser_Email nu \<in> user_Email ` set (users d)
         \<or> pg_lower X (newuser_Username nu) \<in> (\<lambda>u. pg_lower X (user_Username u)) ` set (users d)
      then Inl UniqueViolation
      else let u = \<lparr>user_ID = ans_uuid a, user_Username = newuser_Username nu,
                    user_Email = newuser_Email nu, user_PasswordHash = newuser_PasswordHash nu,
                    user_DisplayName = newuser_DisplayName nu, user_AvatarURL = [],
                    user_Status = ''active'', user_CreatedAt = ans_now a,
                    user_UpdatedAt = ans_now a, user_LastSeenAt = None\<rparr>
           in Inr (u, d\<lparr>users := users d @ [u]\<rparr>))"

definition isUniqueViolation :: "error \<Rightarrow> bool" where
  "isUniqueViolation e \<longleftrightarrow> e = PgErr UniqueViolation"

definition UserStore_Create :: "ext \<Rightarrow> NewUser \<Rightarrow> User dbop" where
  "UserStore_Create X nu =
     mapErrE (\<lambda>e. if isUniqueViolation e then StoreErrConflict else e)
       (sql [newuser_Username nu, newuser_Email nu, newuser_PasswordHash nu, newuser_DisplayName nu]
            (sql_users_insert X nu))"

definition UserStore_GetByUsername :: "ext \<Rightarrow> string \<Rightarrow> User dbop" where
  "UserStore_GetByUsername X name =
     scan_row (query [name] (\<lambda>a d. find (\<lambda>u. pg_lower X (user_Username u) = pg_lower X name) (users d)))"

text \<open>Nothing makes \<^verbatim>\<open>lower(email)\<close> unique: the first of several rows is the environment's
  choice.\<close>

definition UserStore_GetByEmail :: "ext \<Rightarrow> string \<Rightarrow> User dbop" where
  "UserStore_GetByEmail X email =
     scan_row (query [email] (\<lambda>a d.
       find (\<lambda>u. pg_lower X (user_Email u) = pg_lower X email)
            (sort_key (\<lambda>u. ans_rank a (user_ID u)) (users d))))"

definition UserStore_GetByID :: "uuid \<Rightarrow> User dbop" where
  "UserStore_GetByID ident = scan_row (query [] (\<lambda>a d. find_key user_ID ident (users d)))"

definition roles_of :: "ext \<Rightarrow> uuid \<Rightarrow> db \<Rightarrow> string list" where
  "roles_of X uid d =
     sort_key (pg_collate X)
       (map role_Key (filter (\<lambda>r. (uid, role_ID r) \<in> set (user_roles d)) (roles d)))"

definition UserStore_RolesForUser :: "ext \<Rightarrow> uuid \<Rightarrow> string list dbop" where
  "UserStore_RolesForUser X userID = query [] (\<lambda>a d. roles_of X userID d)"

text \<open>\<^verbatim>\<open>INSERT INTO user_roles SELECT $1, id FROM roles WHERE ..\<close>; the result is the number of
  rows inserted.\<close>

definition sql_user_roles_insert :: "uuid \<Rightarrow> (Role \<Rightarrow> bool) \<Rightarrow> nat stmt" where
  "sql_user_roles_insert userID p a d =
     (let rows = map (\<lambda>r. (userID, role_ID r)) (filter p (roles d)) in
      if set rows \<inter> set (user_roles d) \<noteq> {} then Inl UniqueViolation
      else if rows \<noteq> [] \<and> userID \<notin> user_ids d then Inl ForeignKeyViolation
      else Inr (length rows, d\<lparr>user_roles := user_roles d @ rows\<rparr>))"

definition UserStore_AssignRole :: "uuid \<Rightarrow> string \<Rightarrow> unit dbop" where
  "UserStore_AssignRole userID roleKey =
     bindE (sql [roleKey] (sql_user_roles_insert userID (\<lambda>r. role_Key r = roleKey))) (\<lambda>_. returnE ())"

definition UserStore_AddMemberRole :: "uuid \<Rightarrow> unit dbop" where
  "UserStore_AddMemberRole userID = UserStore_AssignRole userID RoleMember"

definition sql_users_update :: "uuid \<Rightarrow> (answer \<Rightarrow> User \<Rightarrow> User) \<Rightarrow> User option stmt" where
  "sql_users_update ident f a d =
     (let us = update_rows (\<lambda>u. user_ID u = ident) (f a) (users d)
      in Inr (find_key user_ID ident us, d\<lparr>users := us\<rparr>))"

definition UserStore_UpdateAvatar :: "uuid \<Rightarrow> string \<Rightarrow> User dbop" where
  "UserStore_UpdateAvatar userID avatarURL =
     scan_row (sql [avatarURL] (sql_users_update userID
       (\<lambda>a u. u\<lparr>user_AvatarURL := avatarURL, user_UpdatedAt := ans_now a\<rparr>)))"

definition UserStore_UpdateStatus :: "uuid \<Rightarrow> string \<Rightarrow> User dbop" where
  "UserStore_UpdateStatus userID status =
     scan_row (sql [status] (sql_users_update userID
       (\<lambda>a u. u\<lparr>user_Status := status, user_UpdatedAt := ans_now a\<rparr>)))"

definition UserStore_List :: "ext \<Rightarrow> nat \<Rightarrow> nat \<Rightarrow> (UserWithRoles list \<times> nat) dbop" where
  "UserStore_List X limit offset =
     bindE (query [] (\<lambda>a d. length (users d))) (\<lambda>total.
     bindE (query [] (\<lambda>a d.
       page limit offset
         (map (\<lambda>u. \<lparr>uwr_User = u, uwr_Roles = roles_of X (user_ID u) d\<rparr>)
              (sort_key (\<lambda>u. (- user_CreatedAt u, user_ID u)) (users d))))) (\<lambda>items.
     returnE (items, total)))"

definition sql_user_roles_clear :: "uuid \<Rightarrow> unit stmt" where
  "sql_user_roles_clear userID a d =
     Inr ((), d\<lparr>user_roles := delete_rows (\<lambda>ur. fst ur = userID) (user_roles d)\<rparr>)"

definition UserStore_UpdateRoles :: "uuid \<Rightarrow> string list \<Rightarrow> unit dbop" where
  "UserStore_UpdateRoles userID roleKeys =
     with_tx
      (bindE (sql [] (sql_user_roles_clear userID)) (\<lambda>_.
       if 0 < length roleKeys then
         bindE (sql roleKeys (sql_user_roles_insert userID (\<lambda>r. role_Key r \<in> set roleKeys))) (\<lambda>n.
         if n \<noteq> length roleKeys then throwE (RoleKeysNotFound (length roleKeys) n)
         else returnE ())
       else returnE ()))"

section \<open>Refresh sessions\<close>

definition sql_sessions_insert :: "ext \<Rightarrow> NewSession \<Rightarrow> Session stmt" where
  "sql_sessions_insert X ns a d =
     (case (if newsession_IP ns = [] then Some None else map_option Some (pg_inet X (newsession_IP ns))) of
        None \<Rightarrow> Inl InvalidTextRepresentation
      | Some ip \<Rightarrow>
          if ans_uuid a \<in> session_ID ` set (user_sessions d)
             \<or> newsession_TokenHash ns \<in> session_TokenHash ` set (user_sessions d)
          then Inl UniqueViolation
          else if newsession_UserID ns \<notin> user_ids d then Inl ForeignKeyViolation
          else let s = \<lparr>session_ID = ans_uuid a, session_UserID = newsession_UserID ns,
                        session_TokenHash = newsession_TokenHash ns,
                        session_UserAgent = newsession_UserAgent ns, session_IP = ip,
                        session_CreatedAt = ans_now a,
                        session_ExpiresAt = pg_time (newsession_ExpiresAt ns),
                        session_RevokedAt = None\<rparr>
               in Inr (s, d\<lparr>user_sessions := user_sessions d @ [s]\<rparr>))"

definition SessionStore_Create :: "ext \<Rightarrow> NewSession \<Rightarrow> Session dbop" where
  "SessionStore_Create X ns =
     sql [newsession_TokenHash ns, newsession_UserAgent ns, newsession_IP ns] (sql_sessions_insert X ns)"

definition session_active :: "time \<Rightarrow> Session \<Rightarrow> bool" where
  "session_active now s \<longleftrightarrow> session_RevokedAt s = None \<and> session_ExpiresAt s > now"

definition SessionStore_GetByTokenHash :: "string \<Rightarrow> Session dbop" where
  "SessionStore_GetByTokenHash hash =
     scan_row (query [hash] (\<lambda>a d.
       find (\<lambda>s. session_TokenHash s = hash \<and> session_active (ans_now a) s) (user_sessions d)))"

definition sql_sessions_update :: "(Session \<Rightarrow> bool) \<Rightarrow> (Session \<Rightarrow> Session) \<Rightarrow> nat stmt" where
  "sql_sessions_update p f a d =
     Inr (count_rows p (user_sessions d), d\<lparr>user_sessions := update_rows p f (user_sessions d)\<rparr>)"

definition SessionStore_Revoke :: "uuid \<Rightarrow> time \<Rightarrow> unit dbop" where
  "SessionStore_Revoke ident at =
     need_rows (sql [] (sql_sessions_update
       (\<lambda>s. session_ID s = ident \<and> session_RevokedAt s = None)
       (\<lambda>s. s\<lparr>session_RevokedAt := Some (pg_time at)\<rparr>)))"

definition SessionStore_DeleteExpired :: "nat dbop" where
  "SessionStore_DeleteExpired =
     sql [] (\<lambda>a d.
       let p = (\<lambda>s. session_ExpiresAt s < ans_now a \<or> session_RevokedAt s \<noteq> None)
       in Inr (count_rows p (user_sessions d), d\<lparr>user_sessions := delete_rows p (user_sessions d)\<rparr>))"

definition SessionStore_Touch :: "uuid \<Rightarrow> time \<Rightarrow> unit dbop" where
  "SessionStore_Touch ident expiresAt =
     need_rows (sql [] (sql_sessions_update
       (\<lambda>s. session_ID s = ident \<and> session_RevokedAt s = None)
       (\<lambda>s. s\<lparr>session_ExpiresAt := pg_time expiresAt\<rparr>)))"

section \<open>Settings\<close>

definition SettingsStore_Get :: "string \<Rightarrow> json dbop" where
  "SettingsStore_Get key =
     scan_row (query [key] (\<lambda>a d. map_option snd (find_key fst key (settings d))))"

definition sql_settings_upsert :: "string \<Rightarrow> json \<Rightarrow> unit stmt" where
  "sql_settings_upsert key value a d =
     (if \<not> jsonb_ok value then Inl UntranslatableCharacter
      else if key \<in> fst ` set (settings d)
      then Inr ((), d\<lparr>settings := update_rows (\<lambda>kv. fst kv = key) (\<lambda>kv. (fst kv, value)) (settings d)\<rparr>)
      else Inr ((), d\<lparr>settings := settings d @ [(key, value)]\<rparr>))"

definition SettingsStore_Set :: "string \<Rightarrow> json \<Rightarrow> unit dbop" where
  "SettingsStore_Set key value = sql [key] (sql_settings_upsert key value)"

lemmas user_store_defs =
  UserStore_Create_def UserStore_GetByUsername_def UserStore_GetByEmail_def UserStore_GetByID_def
  UserStore_RolesForUser_def UserStore_AssignRole_def UserStore_AddMemberRole_def
  UserStore_UpdateAvatar_def UserStore_UpdateStatus_def UserStore_List_def UserStore_UpdateRoles_def
  SessionStore_Create_def SessionStore_GetByTokenHash_def SessionStore_Revoke_def
  SessionStore_DeleteExpired_def SessionStore_Touch_def SettingsStore_Get_def SettingsStore_Set_def

section \<open>The statements keep the schema\<close>

lemma sql_users_insert_ok: "stmt_keeps (db_ok X) (sql_users_insert X nu)"
proof (rule stmt_keepsI)
  fix a d x d' assume ok: "db_ok X d" and r: "sql_users_insert X nu a d = Inr (x, d')"
  from r have d': "d' = d\<lparr>users := users d @ [x]\<rparr>"
    by (auto simp: sql_users_insert_def Let_def split: if_splits)
  from r ok have "users_ok X d'"
    by (auto simp: db_ok_def users_ok_def sql_users_insert_def Let_def split: if_splits)
  with ok show "db_ok X d'" unfolding d' by (intro db_ok_users) auto
qed

text \<open>An update that leaves id, username and email alone keeps every constraint.\<close>

lemma sql_users_update_ok:
  assumes "\<And>a u. user_ID (f a u) = user_ID u" "\<And>a u. user_Email (f a u) = user_Email u"
    and "\<And>a u. user_Username (f a u) = user_Username u"
  shows "stmt_keeps (db_ok X) (sql_users_update ident f)"
proof (rule stmt_keepsI)
  fix a d x d' assume ok: "db_ok X d" and r: "sql_users_update ident f a d = Inr (x, d')"
  let ?us = "update_rows (\<lambda>u. user_ID u = ident) (f a) (users d)"
  from r have d': "d' = d\<lparr>users := ?us\<rparr>" by (auto simp: sql_users_update_def Let_def)
  have m: "map user_ID ?us = map user_ID (users d)" "map user_Email ?us = map user_Email (users d)"
    "map (\<lambda>u. pg_lower X (user_Username u)) ?us = map (\<lambda>u. pg_lower X (user_Username u)) (users d)"
    by (simp_all add: map_update_rows assms)
  have "user_ID ` set ?us = user_ids d" using m(1) by (metis set_map)
  moreover have "users_ok X d'" using ok m by (simp add: d' db_ok_def users_ok_def)
  ultimately show "db_ok X d'" using ok unfolding d' by (intro db_ok_users) auto
qed

lemma sql_user_roles_insert_ok: "stmt_keeps (db_ok X) (sql_user_roles_insert userID p)"
proof (rule stmt_keepsI)
  fix a d x d' assume ok: "db_ok X d" and r: "sql_user_roles_insert userID p a d = Inr (x, d')"
  let ?rows = "map (\<lambda>r. (userID, role_ID r)) (filter p (roles d))"
  from r have d': "d' = d\<lparr>user_roles := user_roles d @ ?rows\<rparr>"
    and fresh: "set ?rows \<inter> set (user_roles d) = {}" and fk: "?rows = [] \<or> userID \<in> user_ids d"
    by (auto simp: sql_user_roles_insert_def Let_def split: if_splits)
  have "distinct (map role_ID (roles d))" using ok by (simp add: db_ok_def roles_ok_def)
  then have "distinct ?rows" by (auto simp: distinct_map inj_on_def)
  moreover have "set ?rows \<subseteq> user_ids d \<times> role_ids d" using fk by (auto simp: filter_empty_conv)
  ultimately have "roles_ok d'"
    using ok fresh by (simp add: d' db_ok_def roles_ok_def Int_commute del: set_map)
  with ok show "db_ok X d'" by (simp add: d' db_ok_def)
qed

lemma sql_user_roles_clear_ok: "stmt_keeps (db_ok X) (sql_user_roles_clear userID)"
proof (rule stmt_keepsI)
  fix a d x d' assume ok: "db_ok X d" and r: "sql_user_roles_clear userID a d = Inr (x, d')"
  let ?ur = "delete_rows (\<lambda>ur. fst ur = userID) (user_roles d)"
  have "distinct ?ur" "set ?ur \<subseteq> set (user_roles d)"
    using ok by (auto simp: db_ok_def roles_ok_def delete_rows_def)
  with ok r show "db_ok X d'"
    by (auto simp: sql_user_roles_clear_def db_ok_def roles_ok_def)
qed

lemma sql_sessions_insert_ok: "stmt_keeps (db_ok X) (sql_sessions_insert X ns)"
proof (rule stmt_keepsI)
  fix a d x d' assume ok: "db_ok X d" and r: "sql_sessions_insert X ns a d = Inr (x, d')"
  from r have d': "d' = d\<lparr>user_sessions := user_sessions d @ [x]\<rparr>"
    and "session_ID x \<notin> session_ID ` set (user_sessions d)"
    and "session_TokenHash x \<notin> session_TokenHash ` set (user_sessions d)"
    and "session_UserID x \<in> user_ids d"
    by (auto simp: sql_sessions_insert_def Let_def split: if_splits option.splits)
  with ok show "db_ok X d'" by (simp add: db_ok_def sessions_ok_def)
qed

lemma sql_sessions_update_ok:
  assumes "\<And>s. session_ID (f s) = session_ID s" "\<And>s. session_TokenHash (f s) = session_TokenHash s"
    and "\<And>s. session_UserID (f s) = session_UserID s"
  shows "stmt_keeps (db_ok X) (sql_sessions_update p f)"
proof (rule stmt_keepsI)
  fix a d x d' assume ok: "db_ok X d" and r: "sql_sessions_update p f a d = Inr (x, d')"
  let ?ss = "update_rows p f (user_sessions d)"
  have m: "map session_ID ?ss = map session_ID (user_sessions d)"
    "map session_TokenHash ?ss = map session_TokenHash (user_sessions d)"
    by (simp_all add: map_update_rows assms)
  have "map session_UserID ?ss = map session_UserID (user_sessions d)"
    by (simp add: map_update_rows assms)
  then have "session_UserID ` set ?ss = session_UserID ` set (user_sessions d)"
    by (metis set_map)
  moreover from r have "d' = d\<lparr>user_sessions := ?ss\<rparr>" by (simp add: sql_sessions_update_def)
  ultimately show "db_ok X d'" using ok m by (simp add: db_ok_def sessions_ok_def)
qed

lemma sql_settings_upsert_ok: "stmt_keeps (db_ok X) (sql_settings_upsert key v)"
proof (rule stmt_keepsI)
  fix a d x d' assume ok: "db_ok X d" and r: "sql_settings_upsert key v a d = Inr (x, d')"
  then have "settings_ok d'"
    by (auto simp: sql_settings_upsert_def db_ok_def settings_ok_def map_update_rows split: if_splits)
  with ok r show "db_ok X d'"
    by (auto simp: sql_settings_upsert_def db_ok_def split: if_splits)
qed

lemma user_store_keeps_schema [keeps_intros]:
  "keeps (on_db (db_ok X)) (UserStore_Create X nu)"
  "keeps (on_db (db_ok X)) (UserStore_GetByUsername X n)"
  "keeps (on_db (db_ok X)) (UserStore_GetByEmail X n)"
  "keeps (on_db (db_ok X)) (UserStore_GetByID i)"
  "keeps (on_db (db_ok X)) (UserStore_RolesForUser X i)"
  "keeps (on_db (db_ok X)) (UserStore_AssignRole i k)"
  "keeps (on_db (db_ok X)) (UserStore_AddMemberRole i)"
  "keeps (on_db (db_ok X)) (UserStore_UpdateAvatar i av)"
  "keeps (on_db (db_ok X)) (UserStore_UpdateStatus i st)"
  "keeps (on_db (db_ok X)) (UserStore_List X l k')"
  "keeps (on_db (db_ok X)) (UserStore_UpdateRoles i ks)"
  unfolding user_store_defs
  by (intro keeps_intros sql_users_insert_ok sql_user_roles_insert_ok sql_user_roles_clear_ok sql_users_update_ok;
      simp)+

lemma session_store_keeps_schema [keeps_intros]:
  "keeps (on_db (db_ok X)) (SessionStore_Create X ns)"
  "keeps (on_db (db_ok X)) (SessionStore_GetByTokenHash h)"
  "keeps (on_db (db_ok X)) (SessionStore_Revoke i t)"
  "keeps (on_db (db_ok X)) (SessionStore_Touch i t)"
  unfolding user_store_defs
  by (intro keeps_intros sql_sessions_insert_ok sql_sessions_update_ok; simp)+

lemma delete_expired_keeps_schema [keeps_intros]: "keeps (on_db (db_ok X)) SessionStore_DeleteExpired"
  unfolding user_store_defs
  by (intro keeps_intros)
     (auto simp: stmt_keeps_def db_ok_def sessions_ok_def Let_def distinct_map_delete_rows)

lemma settings_store_keeps_schema [keeps_intros]:
  "keeps (on_db (db_ok X)) (SettingsStore_Get k)"
  "keeps (on_db (db_ok X)) (SettingsStore_Set k v)"
  unfolding user_store_defs by (intro keeps_intros sql_settings_upsert_ok)+

lemma user_store_keeps_calm [keeps_intros]:
  "keeps calm (UserStore_Create X nu)" "keeps calm (UserStore_GetByUsername X n)"
  "keeps calm (UserStore_GetByEmail X n)" "keeps calm (UserStore_GetByID i)"
  "keeps calm (UserStore_RolesForUser X i)" "keeps calm (UserStore_AssignRole i k)"
  "keeps calm (UserStore_AddMemberRole i)" "keeps calm (UserStore_UpdateAvatar i av)"
  "keeps calm (UserStore_UpdateStatus i st)" "keeps calm (UserStore_List X l k')"
  "keeps calm (UserStore_UpdateRoles i ks)" "keeps calm (SessionStore_Create X ns)"
  "keeps calm (SessionStore_GetByTokenHash h)" "keeps calm (SessionStore_Revoke i t)"
  "keeps calm (SessionStore_Touch i t)" "keeps calm SessionStore_DeleteExpired"
  "keeps calm (SettingsStore_Get key)" "keeps calm (SettingsStore_Set key v)"
  unfolding user_store_defs by (intro keeps_intros)+

end
