(* ===== verification/Samples.thy ===== *)
theory Samples
  imports Database "HOL-Library.Countable"
begin

text \<open>
  Concrete instances that the witnesses of the development evaluate: functions in the place of
  the code outside the repository, an environment in which nothing fails, and tables with a
  little content.
\<close>

section \<open>Instances of the outside functions\<close>

definition string_code :: "string \<Rightarrow> nat" where
  "string_code s = list_encode (map byte_of s)"

definition string_decode :: "nat \<Rightarrow> string" where
  "string_decode n = map char_of (list_decode n)"

lemma string_decode_code [simp]: "string_decode (string_code s) = s"
  by (simp add: string_decode_def string_code_def comp_def)

text \<open>A token that carries its key and claims as one number.\<close>

definition claims_code :: "string \<Rightarrow> Claims \<Rightarrow> nat" where
  "claims_code secret c =
     list_encode [string_code secret, string_code (claims_Username c),
       list_encode (map string_code (claims_Roles c)), string_code (claims_Subject c),
       string_code (claims_Issuer c), int_encode (claims_IssuedAt c), int_encode (claims_NotBefore c),
       int_encode (claims_ExpiresAt c)]"

definition claims_decode :: "nat \<Rightarrow> (string \<times> Claims) option" where
  "claims_decode n =
     (case list_decode n of
        [k, u, rs, s, i, a, b, e] \<Rightarrow>
          Some (string_decode k,
            \<lparr>claims_Username = string_decode u, claims_Roles = map string_decode (list_decode rs),
             claims_Subject = string_decode s, claims_Issuer = string_decode i,
             claims_IssuedAt = int_decode a, claims_NotBefore = int_decode b,
             claims_ExpiresAt = int_decode e\<rparr>)
      | _ \<Rightarrow> None)"

lemma claims_decode_code [simp]: "claims_decode (claims_code k c) = Some (k, c)"
  by (simp add: claims_decode_def claims_code_def comp_def)

definition sample_parse ::
    "(signing_method \<Rightarrow> string option) \<Rightarrow> string \<Rightarrow> string list \<Rightarrow> time \<Rightarrow> string \<Rightarrow> (Claims \<times> bool) option" where
  "sample_parse kf iss methods now raw =
     (case claims_decode (digits_value raw) of
        None \<Rightarrow> None
      | Some (k, c) \<Rightarrow>
          if kf (SigningMethodHMAC ''HS256'') = Some k \<and> ''HS256'' \<in> set methods \<and> iss = claims_Issuer c
             \<and> claims_NotBefore c * 1000000000 \<le> now \<and> now < claims_ExpiresAt c * 1000000000
          then Some (c, True) else None)"

definition sample_ext :: ext where
  "sample_ext =
     \<lparr>pg_lower = ascii_lower, pg_collate = map byte_of, pg_inet = Some,
      uni_lower = (\<lambda>r. if 65 \<le> r \<and> r \<le> 90 then r + 32 else r),
      argon2_IDKey = (\<lambda>p s t m th k. if 1 \<le> t \<and> 1 \<le> th \<and> 1 \<le> k
         then Some (take k (p @ s @ replicate k CHR ''.'')) else None),
      sha256_Sum256 = (\<lambda>s. take 32 (s @ replicate 32 CHR ''.'')),
      jwt_SignedString = (\<lambda>secret c. Some (dec_digits (claims_code secret c))),
      jwt_ParseWithClaims = sample_parse,
      uuid_String = dec_digits,
      uuid_Parse = (\<lambda>s. if s \<noteq> [] \<and> list_all is_digit s then Some (digits_value s) else None)\<rparr>"

section \<open>An environment in which nothing fails\<close>

definition sample_answer :: "nat \<Rightarrow> answer" where
  "sample_answer n =
     \<lparr>ans_fault = NoFault, ans_now = (int n + 1) * 1000000, ans_uuid = 1000 + n, ans_rank = (\<lambda>_. 0),
      ans_rand = (\<lambda>i. char_of (65 + i mod 26)), ans_late = False\<rparr>"

definition sample_world :: "db \<Rightarrow> world" where
  "sample_world d = \<lparr>w_db = d, w_env = sample_answer, w_tick = 0, w_tx = None, w_s3 = [], w_notify = []\<rparr>"

lemma calm_sample [simp]: "calm (sample_world d)"
  by (simp add: calm_def sample_world_def sample_answer_def)

lemma sample_world_simps [simp]:
  "w_db (sample_world d) = d" "w_env (sample_world d) = sample_answer" "w_tick (sample_world d) = 0"
  "w_tx (sample_world d) = None" "w_s3 (sample_world d) = []" "w_notify (sample_world d) = []"
  by (simp_all add: sample_world_def)

section \<open>Tables with content\<close>

definition alice :: User where
  "alice = \<lparr>user_ID = 1, user_Username = ''alice'', user_Email = ''alice@example.org'', user_PasswordHash = ''-'',
     user_DisplayName = ''alice'', user_AvatarURL = [], user_Status = ''active'', user_CreatedAt = 0,
     user_UpdatedAt = 0, user_LastSeenAt = None\<rparr>"

definition bob :: User where
  "bob = \<lparr>user_ID = 2, user_Username = ''bob'', user_Email = ''bob@example.org'', user_PasswordHash = ''-'',
     user_DisplayName = ''bob'', user_AvatarURL = [], user_Status = ''active'', user_CreatedAt = 0,
     user_UpdatedAt = 0, user_LastSeenAt = None\<rparr>"

definition sample_group :: Group where
  "sample_group = \<lparr>group_ID = 21, group_Name = ''General'', group_Slug = ''general'', group_Description = [],
     group_ParentID = None, group_SortOrder = 0, group_CreatedAt = 0, group_UpdatedAt = 0\<rparr>"

definition sample_thread :: Thread where
  "sample_thread = \<lparr>thread_ID = 31, thread_GroupID = 21, thread_AuthorID = 1, thread_Title = ''Hello'',
     thread_Pinned = False, thread_Locked = False, thread_Views = 0, thread_PostCount = 1,
     thread_LastPostAt = Some 1000, thread_CreatedAt = 1000, thread_UpdatedAt = 1000\<rparr>"

definition sample_post :: Post where
  "sample_post = \<lparr>post_ID = 41, post_ThreadID = 31, post_AuthorID = 1, post_Body = ''Welcome'',
     post_EditedByID = None, post_EditedAt = None, post_CreatedAt = 1000, post_UpdatedAt = 1000\<rparr>"

definition sample_attachment :: Attachment where
  "sample_attachment = \<lparr>att_ID = 61, att_OwnerID = 2, att_PostID = Some 41, att_Filename = ''a.txt'',
     att_ContentType = ''text/plain'', att_SizeBytes = 3, att_StorageKey = ''attachments/k'',
     att_PublicURL = ''/media/attachments/k'', att_CreatedAt = 0, att_UpdatedAt = 0\<rparr>"

definition sample_message :: PrivateMessage where
  "sample_message = \<lparr>pm_ID = 71, pm_SenderID = 1, pm_RecipientID = 2, pm_Body = ''hi'', pm_ReadAt = None,
     pm_CreatedAt = 1000\<rparr>"

definition sample_notification :: Notification where
  "sample_notification = \<lparr>notif_ID = 81, notif_UserID = 2, notif_Type = ''pm'',
     notif_Payload = JObject [], notif_ReadAt = None, notif_CreatedAt = 1000\<rparr>"

definition sample_db :: db where
  "sample_db = (migrated 11 12 13)\<lparr>users := [alice, bob], user_roles := [(1, 11), (1, 13), (2, 13)],
     groups := [sample_group], threads := [sample_thread], posts := [sample_post],
     attachments := [sample_attachment], private_messages := [sample_message],
     notifications := [sample_notification]\<rparr>"

lemmas sample_rows =
  alice_def bob_def sample_group_def sample_thread_def sample_post_def sample_attachment_def
  sample_message_def sample_notification_def

lemma sample_db_ok: "db_ok sample_ext sample_db"
  unfolding db_ok_def
proof (intro conjI)
  show "users_ok sample_ext sample_db"
    by (simp add: users_ok_def sample_db_def sample_rows sample_ext_def ascii_lower_def lower_byte_def)
qed (simp_all add: schema_defs sample_db_def sample_rows migrated_def int4_def int8_def)

end
