(* ===== verification/Auth_Crypto.thy ===== *)
theory Auth_Crypto
  imports Samples
begin

text \<open>
  \<^verbatim>\<open>internal/auth\<close>: the argon2id password hasher (\<^verbatim>\<open>password.go\<close>), access tokens and refresh
  tokens (\<^verbatim>\<open>jwt.go\<close>), with the parts of \<^verbatim>\<open>encoding/base64\<close>, \<^verbatim>\<open>encoding/hex\<close> and
  \<^verbatim>\<open>fmt.Sscanf\<close> they use. The theory shows that what \<^verbatim>\<open>Hash\<close> writes \<^verbatim>\<open>Verify\<close> reads back, and
  that the text forms of digests are injective.
\<close>

section \<open>Base64 without padding\<close>

definition b64_std :: "nat \<Rightarrow> char" where
  "b64_std n = char_of (if n < 26 then 65 + n else if n < 52 then 71 + n
     else if n < 62 then n - 4 else if n = 62 then 43 else 47)"

definition b64_url :: "nat \<Rightarrow> char" where
  "b64_url n = (if n = 62 then CHR ''-'' else if n = 63 then CHR ''_'' else b64_std n)"

definition std_value :: "char \<Rightarrow> nat option" where
  "std_value c =
     (let b = byte_of c in
      if 65 \<le> b \<and> b \<le> 90 then Some (b - 65) else if 97 \<le> b \<and> b \<le> 122 then Some (b - 71)
      else if 48 \<le> b \<and> b \<le> 57 then Some (b + 4) else if b = 43 then Some 62
      else if b = 47 then Some 63 else None)"

fun sextets :: "nat list \<Rightarrow> nat list" where
  "sextets [] = []"
| "sextets [a] = [a div 4, a mod 4 * 16]"
| "sextets [a, b] = [a div 4, a mod 4 * 16 + b div 16, b mod 16 * 4]"
| "sextets (a # b # c # r) =
     a div 4 # (a mod 4 * 16 + b div 16) # (b mod 16 * 4 + c div 64) # c mod 64 # sextets r"

fun octets :: "nat list \<Rightarrow> nat list option" where
  "octets [] = Some []"
| "octets [a] = None"
| "octets [a, b] = Some [a * 4 + b div 16]"
| "octets [a, b, c] = Some [a * 4 + b div 16, b mod 16 * 16 + c div 4]"
| "octets (a # b # c # d # r) =
     map_option (\<lambda>bs. (a * 4 + b div 16) # (b mod 16 * 16 + c div 4) # (c mod 4 * 64 + d) # bs) (octets r)"

definition EncodeToString :: "(nat \<Rightarrow> char) \<Rightarrow> string \<Rightarrow> string" where
  "EncodeToString alph bs = map alph (sextets (map byte_of bs))"

text \<open>The decoder skips line breaks, and does not look at the unused bits of the last digit.\<close>

definition DecodeString :: "(char \<Rightarrow> nat option) \<Rightarrow> string \<Rightarrow> string option" where
  "DecodeString val s =
     (case those (map val (filter (\<lambda>c. byte_of c \<noteq> 10 \<and> byte_of c \<noteq> 13) s)) of
        None \<Rightarrow> None
      | Some ds \<Rightarrow> map_option (map char_of) (octets ds))"

lemma octets_sextets: "list_all (\<lambda>b. b < 256) bs \<Longrightarrow> octets (sextets bs) = Some bs"
  by (induction bs rule: sextets.induct) auto

lemma sextets_small: "list_all (\<lambda>b. b < 256) bs \<Longrightarrow> list_all (\<lambda>n. n < 64) (sextets bs)"
  by (induction bs rule: sextets.induct) auto

lemma length_sextets: "length (sextets bs) = (length bs * 4 + 2) div 3"
  by (induction bs rule: sextets.induct) auto

lemma byte_b64: "n < 64 \<Longrightarrow> byte_of (b64_std n) =
    (if n < 26 then 65 + n else if n < 52 then 71 + n else if n < 62 then n - 4 else if n = 62 then 43 else 47)"
  by (simp add: b64_std_def)

lemma std_value_b64: "n < 64 \<Longrightarrow> std_value (b64_std n) = Some n"
  by (auto simp: std_value_def byte_b64 Let_def)

lemma those_map_Some: "(\<And>x. x \<in> set xs \<Longrightarrow> f x = Some (g x)) \<Longrightarrow> those (map f xs) = Some (map g xs)"
  by (induction xs) auto

lemma base64_roundtrip: "DecodeString std_value (EncodeToString b64_std bs) = Some bs"
proof -
  let ?ss = "sextets (map byte_of bs)"
  have small: "\<forall>n \<in> set ?ss. n < 64"
    using sextets_small [of "map byte_of bs"] by (simp add: list_all_iff)
  then have "\<forall>c \<in> set (map b64_std ?ss). byte_of c \<noteq> 10 \<and> byte_of c \<noteq> 13" by (auto simp: byte_b64)
  then have "filter (\<lambda>c. byte_of c \<noteq> 10 \<and> byte_of c \<noteq> 13) (map b64_std ?ss) = map b64_std ?ss"
    by (simp add: filter_id_conv)
  moreover have "those (map std_value (map b64_std ?ss)) = Some ?ss"
    using small those_map_Some [of ?ss "\<lambda>n. std_value (b64_std n)" "\<lambda>n. n"]
    by (simp add: comp_def std_value_b64)
  ultimately show ?thesis
    by (simp add: DecodeString_def EncodeToString_def octets_sextets list_all_iff comp_def)
qed

lemma base64_chars: "c \<in> set (EncodeToString b64_std bs) \<Longrightarrow> byte_of c = 43 \<or> 47 \<le> byte_of c \<and> byte_of c < 128"
proof -
  assume "c \<in> set (EncodeToString b64_std bs)"
  then obtain n where "n \<in> set (sextets (map byte_of bs))" "c = b64_std n"
    by (auto simp: EncodeToString_def)
  moreover from this have "n < 64" using sextets_small [of "map byte_of bs"] by (auto simp: list_all_iff)
  ultimately show ?thesis by (auto simp: byte_b64)
qed

lemma b64_url_chars:
  "n < 64 \<Longrightarrow> byte_of (b64_url n) = (if n = 62 then 45 else if n = 63 then 95 else byte_of (b64_std n))"
  by (simp add: b64_url_def)

lemma b64_url_inj: "n < 64 \<Longrightarrow> m < 64 \<Longrightarrow> b64_url n = b64_url m \<Longrightarrow> n = m"
proof -
  assume a: "n < 64" "m < 64" "b64_url n = b64_url m"
  then have "byte_of (b64_url n) = byte_of (b64_url m)" by simp
  with a(1,2) show ?thesis by (auto simp: b64_url_chars byte_b64 split: if_splits)
qed

text \<open>Tokens of different random bytes are different.\<close>

lemma url_encode_inj: "EncodeToString b64_url bs = EncodeToString b64_url cs \<Longrightarrow> bs = cs"
proof -
  assume e: "EncodeToString b64_url bs = EncodeToString b64_url cs"
  let ?b = "sextets (map byte_of bs)" and ?c = "sextets (map byte_of cs)"
  have "list_all (\<lambda>n. n < 64) ?b" "list_all (\<lambda>n. n < 64) ?c" by (rule sextets_small, simp add: list_all_iff)+
  then have "inj_on b64_url (set ?b \<union> set ?c)" by (auto simp: inj_on_def list_all_iff b64_url_inj)
  with e have "?b = ?c" by (simp add: EncodeToString_def inj_on_map_eq_map)
  then have "octets ?b = octets ?c" by simp
  then have "map byte_of bs = map byte_of cs" by (simp add: octets_sextets list_all_iff)
  then show ?thesis by (simp add: inj_map_eq_map inj_on_def)
qed

section \<open>Hexadecimal\<close>

definition hex_digit :: "nat \<Rightarrow> char" where
  "hex_digit n = char_of (if n < 10 then 48 + n else 87 + n)"

definition hex_EncodeToString :: "string \<Rightarrow> string" where
  "hex_EncodeToString bs = concat (map (\<lambda>c. [hex_digit (byte_of c div 16), hex_digit (byte_of c mod 16)]) bs)"

lemma byte_hex: "n < 16 \<Longrightarrow> byte_of (hex_digit n) = (if n < 10 then 48 + n else 87 + n)"
  by (simp add: hex_digit_def)

lemma nibble: "byte_of c div 16 < 16"
  by (rule less_mult_imp_div_less) simp

lemma hex_digit_inj: "n < 16 \<Longrightarrow> m < 16 \<Longrightarrow> hex_digit n = hex_digit m \<Longrightarrow> n = m"
proof -
  assume a: "n < 16" "m < 16" "hex_digit n = hex_digit m"
  then have "byte_of (hex_digit n) = byte_of (hex_digit m)" by simp
  with a(1,2) show ?thesis by (auto simp: byte_hex split: if_splits)
qed

lemma hex_inj: "hex_EncodeToString a = hex_EncodeToString b \<longleftrightarrow> a = b"
proof (induction a arbitrary: b)
  case Nil
  then show ?case by (cases b) (simp_all add: hex_EncodeToString_def)
next
  case (Cons x a)
  show ?case
  proof (cases b)
    case (Cons y b')
    have "x = y" if "hex_digit (byte_of x div 16) = hex_digit (byte_of y div 16)"
        "hex_digit (byte_of x mod 16) = hex_digit (byte_of y mod 16)"
    proof -
      have "byte_of x div 16 = byte_of y div 16" "byte_of x mod 16 = byte_of y mod 16"
        using that by (auto intro!: hex_digit_inj nibble)
      then have "byte_of x = byte_of y" by (metis div_mult_mod_eq)
      then show ?thesis by simp
    qed
    with Cons.IH [of b'] Cons show ?thesis by (auto simp: hex_EncodeToString_def)
  qed (simp add: hex_EncodeToString_def)
qed

lemma hex_text: "pg_text (hex_EncodeToString bs)"
proof (rule pg_text_ascii)
  have h: "48 \<le> byte_of (hex_digit n) \<and> byte_of (hex_digit n) < 128" if "n < 16" for n
    using that by (simp add: byte_hex)
  have m: "byte_of c mod 16 < 16" for c :: char by simp
  have r: "48 \<le> byte_of c \<and> byte_of c < 128" if "c \<in> set (hex_EncodeToString bs)" for c
    using that h [OF nibble] h [OF m] by (auto simp: hex_EncodeToString_def)
  then show "ascii (hex_EncodeToString bs)" by (simp add: ascii_def list_all_iff)
  show "CHR 0x00 \<notin> set (hex_EncodeToString bs)" using r [of "CHR 0x00"] by auto
qed

section \<open>\<^verbatim>\<open>fmt.Sscanf\<close>\<close>

text \<open>A literal of the format must be next in the input. \<^verbatim>\<open>%d\<close> skips spaces (a line break is an
  error), reads decimal digits and rejects a value that does not fit the variable; what follows
  the last verb is not looked at.\<close>

definition scan_lit :: "char \<Rightarrow> string \<Rightarrow> string option" where
  "scan_lit c s = (case s of [] \<Rightarrow> None | x # r \<Rightarrow> if x = c then Some r else None)"

definition scan_skip :: "string \<Rightarrow> string option" where
  "scan_skip s =
     (let r = TrimLeftSpace s
      in if list_ex (\<lambda>c. byte_of c = 10) (take (length s - length r) s) then None else Some r)"

definition scan_digits :: "string \<Rightarrow> (nat \<times> string) option" where
  "scan_digits s =
     (let ds = takeWhile is_digit s
      in if ds = [] then None else Some (digits_value ds, dropWhile is_digit s))"

definition scan_uint :: "nat \<Rightarrow> string \<Rightarrow> (nat \<times> string) option" where
  "scan_uint bits s =
     Option.bind (scan_skip s) (\<lambda>s1.
     Option.bind (scan_digits s1) (\<lambda>(v, r).
     if v < 2 ^ bits then Some (v, r) else None))"

definition scan_int :: "string \<Rightarrow> (int \<times> string) option" where
  "scan_int s =
     Option.bind (scan_skip s) (\<lambda>s1.
     let neg = (s1 \<noteq> [] \<and> hd s1 = CHR ''-'');
         s2 = (if s1 \<noteq> [] \<and> (hd s1 = CHR ''-'' \<or> hd s1 = CHR ''+'') then tl s1 else s1)
     in Option.bind (scan_digits s2) (\<lambda>(v, r).
        if neg then (if v \<le> 2 ^ 63 then Some (- int v, r) else None)
        else (if v < 2 ^ 63 then Some (int v, r) else None)))"

definition scan_version :: "string \<Rightarrow> int option" where
  "scan_version s =
     Option.bind (scan_lit CHR ''v'' s) (\<lambda>s1.
     Option.bind (scan_lit CHR ''='' s1) (\<lambda>s2.
     map_option fst (scan_int s2)))"

definition scan_params :: "string \<Rightarrow> (nat \<times> nat \<times> nat) option" where
  "scan_params s =
     Option.bind (scan_lit CHR ''m'' s) (\<lambda>s. Option.bind (scan_lit CHR ''='' s) (\<lambda>s.
     Option.bind (scan_uint 32 s) (\<lambda>(m, s).
     Option.bind (scan_lit CHR '','' s) (\<lambda>s. Option.bind (scan_lit CHR ''t'' s) (\<lambda>s.
     Option.bind (scan_lit CHR ''='' s) (\<lambda>s.
     Option.bind (scan_uint 32 s) (\<lambda>(t, s).
     Option.bind (scan_lit CHR '','' s) (\<lambda>s. Option.bind (scan_lit CHR ''p'' s) (\<lambda>s.
     Option.bind (scan_lit CHR ''='' s) (\<lambda>s.
     map_option (\<lambda>(p, _). (m, t, p)) (scan_uint 8 s)))))))))))"

lemma takeWhile_digits: "list_all is_digit ds \<Longrightarrow> rest = [] \<or> \<not> is_digit (hd rest) \<Longrightarrow>
    takeWhile is_digit (ds @ rest) = ds \<and> dropWhile is_digit (ds @ rest) = rest"
proof (induction ds)
  case Nil
  then show ?case by (cases rest) auto
next
  case (Cons d ds)
  then show ?case by simp
qed

lemma scan_skip_digit: "s \<noteq> [] \<Longrightarrow> is_digit (hd s) \<Longrightarrow> scan_skip s = Some s"
proof -
  assume s: "s \<noteq> []" "is_digit (hd s)"
  then obtain c cs where c: "s = c # cs" "is_digit c" by (cases s) auto
  then have "DecodeRuneInString (c # cs) = (byte_of c, 1)" "\<not> IsSpace (byte_of c)"
    by (auto simp: decode_ascii IsSpace_def)
  then have "TrimLeftSpace s = s" by (simp add: c)
  then show ?thesis by (simp add: scan_skip_def)
qed

section \<open>Passwords\<close>

record Params =
  prm_Memory :: nat
  prm_Iterations :: nat
  prm_Parallelism :: nat
  prm_SaltLength :: nat
  prm_KeyLength :: nat

definition DefaultParams :: Params where
  "DefaultParams =
     \<lparr>prm_Memory = 64 * 1024, prm_Iterations = 3, prm_Parallelism = 2, prm_SaltLength = 16, prm_KeyLength = 32\<rparr>"

text \<open>The fields are a \<^verbatim>\<open>uint32\<close> twice and a \<^verbatim>\<open>uint8\<close>.\<close>

definition params_ok :: "Params \<Rightarrow> bool" where
  "params_ok P \<longleftrightarrow> prm_Memory P < 2 ^ 32 \<and> prm_Iterations P < 2 ^ 32 \<and> prm_Parallelism P < 2 ^ 8"

definition argon2_Version :: nat where "argon2_Version = 19"

definition encode_hash :: "Params \<Rightarrow> string \<Rightarrow> string \<Rightarrow> string" where
  "encode_hash P salt key =
     ''$argon2id$v='' @ dec_digits argon2_Version @ ''$m='' @ dec_digits (prm_Memory P)
     @ '',t='' @ dec_digits (prm_Iterations P) @ '',p='' @ dec_digits (prm_Parallelism P)
     @ ''$'' @ EncodeToString b64_std salt @ ''$'' @ EncodeToString b64_std key"

definition PasswordHasher_Hash :: "ext \<Rightarrow> Params \<Rightarrow> string \<Rightarrow> string dbop" where
  "PasswordHasher_Hash X P password =
     bindE (rand_Read (prm_SaltLength P)) (\<lambda>salt.
     case argon2_IDKey X password salt (prm_Iterations P) (prm_Memory P) (prm_Parallelism P) (prm_KeyLength P) of
       None \<Rightarrow> throwE Panic
     | Some key \<Rightarrow> returnE (encode_hash P salt key))"

definition PasswordHasher_Verify :: "ext \<Rightarrow> string \<Rightarrow> string \<Rightarrow> error + bool" where
  "PasswordHasher_Verify X password encoded =
     (let parts = split_on CHR ''$'' encoded in
      if length parts \<noteq> 6 \<or> parts ! 1 \<noteq> ''argon2id'' then Inr False
      else (case scan_version (parts ! 2) of
        None \<Rightarrow> Inl (ErrVerify ''parse version'')
      | Some version \<Rightarrow>
      if version \<noteq> int argon2_Version then Inl (ErrVerify ''unsupported argon2 version'')
      else (case scan_params (parts ! 3) of
        None \<Rightarrow> Inl (ErrVerify ''parse parameters'')
      | Some (memory, iterations, parallelism) \<Rightarrow>
      (case DecodeString std_value (parts ! 4) of
        None \<Rightarrow> Inl (ErrVerify ''decode salt'')
      | Some salt \<Rightarrow>
      (case DecodeString std_value (parts ! 5) of
        None \<Rightarrow> Inl (ErrVerify ''decode hash'')
      | Some expected \<Rightarrow>
      (case argon2_IDKey X password salt iterations memory parallelism (length expected mod 2 ^ 32) of
        None \<Rightarrow> Inl Panic
      | Some key \<Rightarrow> Inr (key = expected)))))))"

text \<open>What \<^verbatim>\<open>argon2.IDKey\<close> documents: for at least one pass and one thread it returns a key of
  the requested length.\<close>

definition argon2_lawful :: "ext \<Rightarrow> bool" where
  "argon2_lawful X \<longleftrightarrow>
     (\<forall>p s t m th k. 1 \<le> t \<and> 1 \<le> th \<and> 4 \<le> k \<longrightarrow>
        (\<exists>key. argon2_IDKey X p s t m th k = Some key \<and> length key = k))"

lemma digit_not: "list_all is_digit ds \<Longrightarrow> byte_of c < 48 \<Longrightarrow> c \<notin> set ds"
  by (auto simp: list_all_iff)

lemma scan_digits_dec:
  "rest = [] \<or> \<not> is_digit (hd rest) \<Longrightarrow> scan_digits (dec_digits n @ rest) = Some (n, rest)"
  using takeWhile_digits [OF dec_digits_all, of rest n] by (simp add: scan_digits_def Let_def)

lemma dec_digits_hd: "is_digit (hd (dec_digits n @ rest))"
  using dec_digits_all [of n] dec_digits_nonempty [of n] by (cases "dec_digits n") auto

lemma scan_uint_dec:
  assumes "n < 2 ^ bits" "rest = [] \<or> \<not> is_digit (hd rest)"
  shows "scan_uint bits (dec_digits n @ rest) = Some (n, rest)"
proof -
  have "scan_skip (dec_digits n @ rest) = Some (dec_digits n @ rest)"
    by (rule scan_skip_digit) (use dec_digits_hd in auto)
  with assms show ?thesis by (simp add: scan_uint_def scan_digits_dec)
qed

lemma scan_int_dec:
  assumes "n < 2 ^ 63"
  shows "scan_int (dec_digits n) = Some (int n, [])"
proof -
  have hd: "is_digit (hd (dec_digits n))" using dec_digits_hd [of n "[]"] by simp
  then have "scan_skip (dec_digits n) = Some (dec_digits n)" by (intro scan_skip_digit) auto
  moreover have "hd (dec_digits n) \<noteq> CHR ''-''" "hd (dec_digits n) \<noteq> CHR ''+''" using hd by auto
  ultimately show ?thesis using assms scan_digits_dec [of "[]" n] by (simp add: scan_int_def Let_def)
qed

lemma scan_version_dec: "n < 2 ^ 63 \<Longrightarrow> scan_version (''v='' @ dec_digits n) = Some (int n)"
  by (simp add: scan_version_def scan_lit_def scan_int_dec)

lemma scan_params_dec:
  assumes "m < 2 ^ 32" "t < 2 ^ 32" "p < 2 ^ 8"
  shows "scan_params (''m='' @ dec_digits m @ '',t='' @ dec_digits t @ '',p='' @ dec_digits p) = Some (m, t, p)"
  using assms scan_uint_dec [of m 32 "'',t='' @ dec_digits t @ '',p='' @ dec_digits p"]
    scan_uint_dec [of t 32 "'',p='' @ dec_digits p"] scan_uint_dec [of p 8 "[]"]
  by (simp add: scan_params_def scan_lit_def)

definition hash_parts :: "Params \<Rightarrow> string \<Rightarrow> string \<Rightarrow> string list" where
  "hash_parts P salt key =
     [[], ''argon2id'', ''v='' @ dec_digits argon2_Version,
      ''m='' @ dec_digits (prm_Memory P) @ '',t='' @ dec_digits (prm_Iterations P)
        @ '',p='' @ dec_digits (prm_Parallelism P),
      EncodeToString b64_std salt, EncodeToString b64_std key]"

lemma split_hash: "split_on CHR ''$'' (encode_hash P salt key) = hash_parts P salt key"
proof -
  have d: "CHR ''$'' \<notin> set (dec_digits n)" for n by (rule digit_not [OF dec_digits_all]) simp
  have b: "CHR ''$'' \<notin> set (EncodeToString b64_std bs)" for bs
    using base64_chars [of "CHR ''$''" bs] by auto
  have "encode_hash P salt key = join_with CHR ''$'' (hash_parts P salt key)"
    by (simp add: encode_hash_def hash_parts_def)
  moreover have "list_all (\<lambda>p. CHR ''$'' \<notin> set p) (hash_parts P salt key)"
    using d b by (simp add: hash_parts_def)
  moreover have "hash_parts P salt key \<noteq> []" by (simp add: hash_parts_def)
  ultimately show ?thesis by (simp add: split_join)
qed

text \<open>\<^verbatim>\<open>Verify\<close> on a hash that \<^verbatim>\<open>Hash\<close> wrote recomputes the key from the stored salt and
  parameters.\<close>

lemma Verify_encode_hash:
  assumes "params_ok P"
  shows "PasswordHasher_Verify X password (encode_hash P salt key) =
    (case argon2_IDKey X password salt (prm_Iterations P) (prm_Memory P) (prm_Parallelism P) (length key mod 2 ^ 32) of
       None \<Rightarrow> Inl Panic | Some k \<Rightarrow> Inr (k = key))"
proof -
  have "scan_version (''v='' @ dec_digits argon2_Version) = Some (int argon2_Version)"
    by (rule scan_version_dec) (simp add: argon2_Version_def)
  then show ?thesis
    using assms by (simp add: PasswordHasher_Verify_def Let_def split_hash hash_parts_def scan_params_dec base64_roundtrip
        params_ok_def del: append.simps)
qed

section \<open>Access tokens\<close>

record UserInfo =
  ui_ID :: uuid
  ui_Username :: string
  ui_Roles :: "string list"

record Manager =
  mgr_secret :: string
  mgr_issuer :: string
  mgr_ttl :: int

definition NewManager :: "string \<Rightarrow> string \<Rightarrow> int \<Rightarrow> Manager" where
  "NewManager secret issuer ttl = \<lparr>mgr_secret = secret, mgr_issuer = issuer, mgr_ttl = ttl\<rparr>"

text \<open>\<^verbatim>\<open>jwt.NewNumericDate\<close> keeps whole seconds.\<close>

definition NewNumericDate :: "time \<Rightarrow> int" where
  "NewNumericDate t = t div 1000000000"

definition new_claims :: "ext \<Rightarrow> Manager \<Rightarrow> uuid \<Rightarrow> string \<Rightarrow> string list \<Rightarrow> int \<Rightarrow> time \<Rightarrow> Claims" where
  "new_claims X m userID username rs ttl now =
     \<lparr>claims_Username = username, claims_Roles = rs, claims_Subject = uuid_String X userID,
      claims_Issuer = mgr_issuer m, claims_IssuedAt = NewNumericDate now,
      claims_NotBefore = NewNumericDate now, claims_ExpiresAt = NewNumericDate (now + ttl)\<rparr>"

definition Manager_issue :: "ext \<Rightarrow> Manager \<Rightarrow> uuid \<Rightarrow> string \<Rightarrow> string list \<Rightarrow> int \<Rightarrow> string dbop" where
  "Manager_issue X m userID username rs ttl =
     bindE time_Now (\<lambda>now.
     case jwt_SignedString X (mgr_secret m) (new_claims X m userID username rs ttl now) of
       None \<Rightarrow> throwE ErrSign
     | Some tok \<Rightarrow> returnE tok)"

definition NewAccessToken :: "ext \<Rightarrow> Manager \<Rightarrow> uuid \<Rightarrow> string \<Rightarrow> string list \<Rightarrow> string dbop" where
  "NewAccessToken X m userID username rs = Manager_issue X m userID username rs (mgr_ttl m)"

definition key_func :: "Manager \<Rightarrow> signing_method \<Rightarrow> string option" where
  "key_func m meth = (case meth of SigningMethodHMAC _ \<Rightarrow> Some (mgr_secret m) | OtherSigningMethod _ \<Rightarrow> None)"

definition Manager_Parse :: "ext \<Rightarrow> Manager \<Rightarrow> string \<Rightarrow> Claims option dbop" where
  "Manager_Parse X m raw =
     bindE time_Now (\<lambda>now.
     returnE (case jwt_ParseWithClaims X (key_func m) (mgr_issuer m) [''HS256''] now raw of
                None \<Rightarrow> None
              | Some (claims, valid) \<Rightarrow> if valid then Some claims else None))"

text \<open>What the JWT library documents of a token it signed with HS256: under the same key, the
  expected issuer and a list of methods that has HS256 it parses to its claims from
  \<^verbatim>\<open>nbf\<close> on and before \<^verbatim>\<open>exp\<close>, and to nothing at other times or for another issuer. Signing
  succeeds. (JSON carries text that is valid UTF-8.)\<close>

definition claims_text :: "Claims \<Rightarrow> bool" where
  "claims_text c \<longleftrightarrow> valid_utf8 (claims_Username c) \<and> list_all valid_utf8 (claims_Roles c)
     \<and> valid_utf8 (claims_Subject c) \<and> valid_utf8 (claims_Issuer c)"

definition jwt_lawful :: "ext \<Rightarrow> bool" where
  "jwt_lawful X \<longleftrightarrow>
     (\<forall>secret c kf methods iss now. claims_text c \<longrightarrow> kf (SigningMethodHMAC ''HS256'') = Some secret \<longrightarrow>
        ''HS256'' \<in> set methods \<longrightarrow>
        (\<exists>tok. jwt_SignedString X secret c = Some tok \<and>
          jwt_ParseWithClaims X kf iss methods now tok =
            (if iss = claims_Issuer c \<and> claims_NotBefore c * 1000000000 \<le> now
                \<and> now < claims_ExpiresAt c * 1000000000
             then Some (c, True) else None)))"

text \<open>The text form of a UUID reads back.\<close>

definition uuid_lawful :: "ext \<Rightarrow> bool" where
  "uuid_lawful X \<longleftrightarrow> (\<forall>u < 2 ^ 128. uuid_Parse X (uuid_String X u) = Some u \<and> ascii (uuid_String X u))"

lemma NewNumericDate_le: "NewNumericDate t * 1000000000 \<le> t"
  by (simp add: NewNumericDate_def minus_mod_eq_div_mult [symmetric])

lemma NewNumericDate_less: "t < (NewNumericDate t + 1) * 1000000000"
  by (simp add: NewNumericDate_def algebra_simps)

section \<open>Refresh tokens\<close>

definition RefreshTokenBytes :: nat where "RefreshTokenBytes = 32"

definition HashRefreshToken :: "ext \<Rightarrow> string \<Rightarrow> string" where
  "HashRefreshToken X token = hex_EncodeToString (sha256_Sum256 X token)"

definition NewRefreshToken :: "ext \<Rightarrow> (string \<times> string) dbop" where
  "NewRefreshToken X =
     bindE (rand_Read RefreshTokenBytes) (\<lambda>buf.
     let token = EncodeToString b64_url buf
     in returnE (token, hex_EncodeToString (sha256_Sum256 X token)))"

lemma NewRefreshToken_hash:
  "NewRefreshToken X w = (Inr (tok, h), w1) \<Longrightarrow> h = HashRefreshToken X tok \<and> length tok = 43"
  by (auto simp: NewRefreshToken_def bindE_Inr_iff rand_Read_def HashRefreshToken_def Let_def
      EncodeToString_def length_sextets RefreshTokenBytes_def split: if_splits)

lemmas auth_defs =
  PasswordHasher_Hash_def Manager_issue_def NewAccessToken_def Manager_Parse_def NewRefreshToken_def

lemma auth_keeps_schema [keeps_intros]:
  "keeps (on_db I) (PasswordHasher_Hash X P p)" "keeps (on_db I) (Manager_issue X m u n rs t)"
  "keeps (on_db I) (NewAccessToken X m u n rs)" "keeps (on_db I) (Manager_Parse X m raw)"
  "keeps (on_db I) (NewRefreshToken X)"
  unfolding auth_defs Let_def by (intro keeps_intros)+

lemma auth_keeps_calm [keeps_intros]:
  "keeps calm (PasswordHasher_Hash X P p)" "keeps calm (Manager_issue X m u n rs t)"
  "keeps calm (NewAccessToken X m u n rs)" "keeps calm (Manager_Parse X m raw)"
  "keeps calm (NewRefreshToken X)"
  unfolding auth_defs Let_def by (intro keeps_intros)+

lemma Hash_Inr:
  assumes "PasswordHasher_Hash X P password w = (Inr h, w1)"
  shows "\<exists>salt key. length salt = prm_SaltLength P \<and> h = encode_hash P salt key \<and>
    argon2_IDKey X password salt (prm_Iterations P) (prm_Memory P) (prm_Parallelism P) (prm_KeyLength P) = Some key"
proof -
  let ?salt = "map (ans_rand (w_env w (w_tick w))) [0..<prm_SaltLength P]"
  from assms obtain key where "h = encode_hash P ?salt key"
    "argon2_IDKey X password ?salt (prm_Iterations P) (prm_Memory P) (prm_Parallelism P) (prm_KeyLength P) = Some key"
    by (auto simp: PasswordHasher_Hash_def bindE_Inr_iff rand_Read_def Let_def split: if_splits option.splits)
  moreover have "length ?salt = prm_SaltLength P" by simp
  ultimately show ?thesis by blast
qed

lemma hash_and_verify:
  assumes "argon2_lawful X" "PasswordHasher_Hash X DefaultParams password w = (Inr h, w1)"
  shows "PasswordHasher_Verify X password h = Inr True \<and>
    (\<exists>salt. length salt = 16 \<and>
       PasswordHasher_Verify X other h =
         Inr (argon2_IDKey X other salt 3 65536 2 32 = argon2_IDKey X password salt 3 65536 2 32))"
proof -
  from assms(2) obtain salt key where salt: "length salt = 16"
    and key: "argon2_IDKey X password salt 3 65536 2 32 = Some key"
    and h: "h = encode_hash DefaultParams salt key"
    using Hash_Inr by (fastforce simp: DefaultParams_def)
  have law: "\<exists>k. argon2_IDKey X p salt 3 65536 2 32 = Some k \<and> length k = 32" for p
    using assms(1) by (simp add: argon2_lawful_def)
  have len: "length key = 32" using law [of password] key by simp
  have "params_ok DefaultParams" by (simp add: params_ok_def DefaultParams_def)
  then have ver: "PasswordHasher_Verify X p h =
      (case argon2_IDKey X p salt 3 65536 2 32 of None \<Rightarrow> Inl Panic | Some k \<Rightarrow> Inr (k = key))" for p
    unfolding h by (simp add: Verify_encode_hash len) (simp add: DefaultParams_def)
  show ?thesis using ver key salt law [of other] by auto
qed

lemma encode_hash_text: "pg_text (encode_hash P salt key)"
proof -
  have r: "0 < byte_of c \<and> byte_of c < 128" if "c \<in> set (dec_digits n) \<union> set (EncodeToString b64_std bs)" for c n bs
    using that dec_digits_all [of n] base64_chars [of c bs] by (auto simp: list_all_iff)
  then have a: "ascii (dec_digits n)" "ascii (EncodeToString b64_std bs)" for n bs
    by (auto simp: ascii_def list_all_iff)
  have z: "CHR 0x00 \<notin> set (dec_digits n)" "CHR 0x00 \<notin> set (EncodeToString b64_std bs)" for n bs
    using r [of "CHR 0x00"] by auto
  show ?thesis by (rule pg_text_ascii) (simp_all add: encode_hash_def a z)
qed

lemma Hash_calm:
  assumes "calm w" "argon2_lawful X"
  shows "\<exists>h. PasswordHasher_Hash X DefaultParams password w = (Inr h, tick w) \<and> pg_text h"
proof -
  let ?salt = "map (ans_rand (w_env w (w_tick w))) [0..<16]"
  have "\<exists>k. argon2_IDKey X password ?salt 3 65536 2 32 = Some k \<and> length k = 32"
    using assms(2) by (simp add: argon2_lawful_def)
  then obtain key where "argon2_IDKey X password ?salt 3 65536 2 32 = Some key" by blast
  with assms(1) show ?thesis
    by (simp add: PasswordHasher_Hash_def bindE_def rand_Read_def calm_now DefaultParams_def returnE_def
        encode_hash_text Let_def)
qed

lemma sample_argon2_lawful: "argon2_lawful sample_ext"
  by (auto simp: argon2_lawful_def sample_ext_def)

lemma sample_jwt_lawful: "jwt_lawful sample_ext"
  by (simp add: jwt_lawful_def sample_ext_def sample_parse_def)

lemma sample_uuid_lawful: "uuid_lawful sample_ext"
proof -
  have "ascii (dec_digits n)" for n
    using dec_digits_all [of n] by (auto simp: ascii_def list_all_iff)
  then show ?thesis using dec_digits_all by (simp add: uuid_lawful_def sample_ext_def)
qed


text \<open>C21: A password verifies against the hash that \<^verbatim>\<open>Hash\<close> made of it, for the parameters the
  program uses, and another password verifies exactly when argon2id gives it the same key for the
  same salt: what \<^verbatim>\<open>Sprintf\<close> wrote, \<^verbatim>\<open>Split\<close>, \<^verbatim>\<open>Sscanf\<close> and the base64 decoder read back.\<close>

theorem hash_verify_roundtrip:
  assumes "argon2_lawful X" "PasswordHasher_Hash X DefaultParams password w = (Inr h, w1)"
  shows "PasswordHasher_Verify X password h = Inr True \<and>
    (\<exists>salt. length salt = 16 \<and>
       PasswordHasher_Verify X other h =
         Inr (argon2_IDKey X other salt 3 65536 2 32 = argon2_IDKey X password salt 3 65536 2 32))"
  using assms by (rule hash_and_verify)

theorem hash_verify_roundtrip_witness:
  "\<exists>h w1. PasswordHasher_Hash sample_ext DefaultParams ''correct horse'' (sample_world sample_db) = (Inr h, w1) \<and>
     PasswordHasher_Verify sample_ext ''correct horse'' h = Inr True"
proof -
  have "\<exists>h w1. PasswordHasher_Hash sample_ext DefaultParams ''correct horse'' (sample_world sample_db) = (Inr h, w1)"
    by (simp add: PasswordHasher_Hash_def bindE_def rand_Read_def sample_answer_def sample_ext_def DefaultParams_def
        returnE_def)
  with hash_verify_roundtrip [OF sample_argon2_lawful, of "''correct horse''" "sample_world sample_db"]
  show ?thesis by blast
qed

end
