(* ===== verification/Config.thy ===== *)
theory Config
  imports Go_Strings
begin

text \<open>
  \<^verbatim>\<open>internal/config/config.go\<close>: reading and validating the configuration. The environment of
  the process is a function from names to values (\<^verbatim>\<open>os.Getenv\<close>: empty when unset). A
  \<^verbatim>\<open>time.Duration\<close> is a 64-bit word of nanoseconds, whose products wrap around.
\<close>

type_synonym duration = "64 word"

definition Minute :: duration where "Minute = 60000000000"
definition Hour :: duration where "Hour = 3600000000000"

record Config =
  cfg_AppEnv :: string
  cfg_HTTPAddr :: string
  cfg_DatabaseURL :: string
  cfg_JWTSecret :: string
  cfg_JWTIssuer :: string
  cfg_AccessTTL :: duration
  cfg_RefreshTTL :: duration
  cfg_RefreshCookieName :: string
  cfg_RefreshCookieSecure :: bool
  cfg_S3Endpoint :: string
  cfg_S3AccessKey :: string
  cfg_S3SecretKey :: string
  cfg_S3Bucket :: string
  cfg_S3Region :: string
  cfg_S3UseSSL :: bool
  cfg_S3ForcePathStyle :: bool
  cfg_MediaBaseURL :: string

definition getenv :: "(string \<Rightarrow> string) \<Rightarrow> string \<Rightarrow> string \<Rightarrow> string" where
  "getenv env key fallback = (if env key \<noteq> [] then env key else fallback)"

definition getInt :: "(string \<Rightarrow> string) \<Rightarrow> string \<Rightarrow> 64 word \<Rightarrow> 64 word" where
  "getInt env key fallback = (case Atoi (env key) of None \<Rightarrow> fallback | Some v \<Rightarrow> word_of_int v)"

text \<open>\<^verbatim>\<open>strconv.ParseBool\<close>.\<close>

definition ParseBool :: "string \<Rightarrow> bool option" where
  "ParseBool s =
     (if s \<in> {''1'', ''t'', ''T'', ''true'', ''TRUE'', ''True''} then Some True
      else if s \<in> {''0'', ''f'', ''F'', ''false'', ''FALSE'', ''False''} then Some False
      else None)"

definition getBool :: "(string \<Rightarrow> string) \<Rightarrow> string \<Rightarrow> bool \<Rightarrow> bool" where
  "getBool env key fallback = (case ParseBool (env key) of None \<Rightarrow> fallback | Some v \<Rightarrow> v)"

definition Load :: "(string \<Rightarrow> string) \<Rightarrow> Config" where
  "Load env =
     \<lparr>cfg_AppEnv = getenv env ''APP_ENV'' ''development'',
      cfg_HTTPAddr = getenv env ''HTTP_ADDR'' '':8080'',
      cfg_DatabaseURL = getenv env ''DATABASE_URL'' '''',
      cfg_JWTSecret = getenv env ''JWT_SECRET'' '''',
      cfg_JWTIssuer = getenv env ''JWT_ISSUER'' ''masoniccore'',
      cfg_AccessTTL = getInt env ''ACCESS_TTL_MINUTES'' 15 * Minute,
      cfg_RefreshTTL = getInt env ''REFRESH_TTL_DAYS'' 30 * 24 * Hour,
      cfg_RefreshCookieName = getenv env ''REFRESH_COOKIE_NAME'' ''masonic_refresh'',
      cfg_RefreshCookieSecure = getBool env ''REFRESH_COOKIE_SECURE'' False,
      cfg_S3Endpoint = getenv env ''S3_ENDPOINT'' '''',
      cfg_S3AccessKey = getenv env ''S3_ACCESS_KEY'' '''',
      cfg_S3SecretKey = getenv env ''S3_SECRET_KEY'' '''',
      cfg_S3Bucket = getenv env ''S3_BUCKET'' ''masonic'',
      cfg_S3Region = getenv env ''S3_REGION'' ''us-east-1'',
      cfg_S3UseSSL = getBool env ''S3_USE_SSL'' False,
      cfg_S3ForcePathStyle = getBool env ''S3_FORCE_PATH_STYLE'' True,
      cfg_MediaBaseURL = getenv env ''MEDIA_BASE_URL'' ''/media''\<rparr>"

definition Validate :: "Config \<Rightarrow> string option" where
  "Validate c =
     (if cfg_DatabaseURL c = [] then Some ''DATABASE_URL is required''
      else if length (cfg_JWTSecret c) < 32
      then Some ''JWT_SECRET is required and must be at least 32 characters''
      else if cfg_S3Endpoint c = [] \<or> cfg_S3AccessKey c = [] \<or> cfg_S3SecretKey c = []
      then Some ''S3_ENDPOINT, S3_ACCESS_KEY and S3_SECRET_KEY are required''
      else None)"

definition SecureCookies :: "Config \<Rightarrow> bool" where
  "SecureCookies c \<longleftrightarrow> cfg_RefreshCookieSecure c \<or> cfg_AppEnv c = ''production''"

section \<open>Lifetimes\<close>

text \<open>A product of a number and a unit that fits the signed range does not wrap.\<close>

lemma duration_product:
  "- (2 ^ 63) \<le> n * k \<Longrightarrow> n * k < 2 ^ 63 \<Longrightarrow> sint (word_of_int n * word_of_int k :: 64 word) = n * k"
  unfolding of_int_mult [symmetric] sint_sbintrunc'
  by (rule signed_take_bit_int_eq_self) simp_all

lemma getInt_digits:
  "env key = dec_digits n \<Longrightarrow> n < 2 ^ 63 \<Longrightarrow> getInt env key fb = word_of_int (int n)"
  by (simp add: getInt_def Atoi_dec_digits)

lemma RefreshTTL_unit: "n * 24 * Hour = n * word_of_int 86400000000000"
  by (simp add: Hour_def)

text \<open>C28: The lifetime of refresh sessions is the configured number of days exactly, for every
  number up to 106751; one day more wraps the 64-bit duration around to a negative lifetime,
  and the configuration check accepts it.\<close>

theorem refresh_ttl_range:
  assumes "env ''REFRESH_TTL_DAYS'' = dec_digits n"
  shows "(n \<le> 106751 \<longrightarrow> sint (cfg_RefreshTTL (Load env)) = int n * 86400000000000) \<and>
         (n = 106752 \<longrightarrow> sint (cfg_RefreshTTL (Load env)) < 0) \<and>
         Validate (Load env) = Validate ((Load env)\<lparr>cfg_RefreshTTL := t\<rparr>)"
proof (intro conjI impI)
  have get: "n < 2 ^ 63 \<Longrightarrow> cfg_RefreshTTL (Load env) = word_of_int (int n) * word_of_int 86400000000000"
    using getInt_digits [of env "''REFRESH_TTL_DAYS''" n 30] assms by (simp add: Load_def RefreshTTL_unit)
  assume n: "n \<le> 106751"
  then have "int n * 86400000000000 < 2 ^ 63" by simp
  then have "sint (word_of_int (int n) * word_of_int 86400000000000 :: 64 word) = int n * 86400000000000"
    by (intro duration_product) simp_all
  with n get show "sint (cfg_RefreshTTL (Load env)) = int n * 86400000000000" by simp
next
  assume n: "n = 106752"
  have "cfg_RefreshTTL (Load env) = word_of_int 106752 * word_of_int 86400000000000"
    using getInt_digits [of env "''REFRESH_TTL_DAYS''" n 30] assms n by (simp add: Load_def Hour_def)
  also have "\<dots> = (9223372800000000000 :: 64 word)" by simp
  finally show "sint (cfg_RefreshTTL (Load env)) < 0" by simp
next
  show "Validate (Load env) = Validate ((Load env)\<lparr>cfg_RefreshTTL := t\<rparr>)" by (simp add: Validate_def)
qed

theorem refresh_ttl_range_witness:
  "sint (cfg_RefreshTTL (Load (\<lambda>k. if k = ''REFRESH_TTL_DAYS'' then dec_digits 30 else []))) = 2592000000000000"
  using refresh_ttl_range [of "\<lambda>k. if k = ''REFRESH_TTL_DAYS'' then dec_digits 30 else []" 30] by simp

end
