(* ===== verification/Go_Regexp.thy ===== *)
theory Go_Regexp
  imports Go_Strings
begin

text \<open>
  The regular expressions of the services and Go's \<^verbatim>\<open>regexp.MatchString\<close> on them. An
  expression is matched against the runes of the string; every expression the program uses
  is anchored with \<^verbatim>\<open>^\<close> and \<^verbatim>\<open>$\<close>, so a match is a match of the whole string. The
  matcher is executable (it takes derivatives), is proved equivalent to the language of the
  expression, and the three languages are characterised without regular expressions.
\<close>

section \<open>Expressions, their language and a matcher\<close>

datatype re =
    Zero
  | Eps
  | Cls "nat \<Rightarrow> bool"
  | Alt re re
  | Cat re re
  | Star re

inductive re_lang :: "re \<Rightarrow> nat list \<Rightarrow> bool" where
  eps: "re_lang Eps []"
| cls: "p c \<Longrightarrow> re_lang (Cls p) [c]"
| alt1: "re_lang r s \<Longrightarrow> re_lang (Alt r q) s"
| alt2: "re_lang q s \<Longrightarrow> re_lang (Alt r q) s"
| cat: "re_lang r s \<Longrightarrow> re_lang q t \<Longrightarrow> re_lang (Cat r q) (s @ t)"
| star0: "re_lang (Star r) []"
| star1: "re_lang r s \<Longrightarrow> s \<noteq> [] \<Longrightarrow> re_lang (Star r) t \<Longrightarrow> re_lang (Star r) (s @ t)"

inductive_simps lang_Zero [simp]: "re_lang Zero s"
inductive_simps lang_Eps [simp]: "re_lang Eps s"
inductive_simps lang_Cls [simp]: "re_lang (Cls p) s"
inductive_simps lang_Alt [simp]: "re_lang (Alt r q) s"
inductive_simps lang_Cat: "re_lang (Cat r q) s"
inductive_cases lang_StarE: "re_lang (Star r) s"

fun nullable :: "re \<Rightarrow> bool" where
  "nullable Zero = False"
| "nullable Eps = True"
| "nullable (Cls p) = False"
| "nullable (Alt r q) = (nullable r \<or> nullable q)"
| "nullable (Cat r q) = (nullable r \<and> nullable q)"
| "nullable (Star r) = True"

fun deriv :: "nat \<Rightarrow> re \<Rightarrow> re" where
  "deriv c Zero = Zero"
| "deriv c Eps = Zero"
| "deriv c (Cls p) = (if p c then Eps else Zero)"
| "deriv c (Alt r q) = Alt (deriv c r) (deriv c q)"
| "deriv c (Cat r q) =
     (if nullable r then Alt (Cat (deriv c r) q) (deriv c q) else Cat (deriv c r) q)"
| "deriv c (Star r) = Cat (deriv c r) (Star r)"

fun re_match :: "re \<Rightarrow> nat list \<Rightarrow> bool" where
  "re_match r [] = nullable r"
| "re_match r (c # cs) = re_match (deriv c r) cs"

definition MatchString :: "re \<Rightarrow> string \<Rightarrow> bool" where
  "MatchString r s = re_match r (runes s)"

lemma nullable_lang: "nullable r \<longleftrightarrow> re_lang r []"
proof (induction r)
  case (Cat r q)
  then show ?case by (auto simp: lang_Cat)
qed (auto intro: re_lang.intros)

lemma star_head:
  "re_lang (Star r) (c # s) \<longleftrightarrow>
     (\<exists>u v. s = u @ v \<and> re_lang r (c # u) \<and> re_lang (Star r) v)"
proof
  assume "re_lang (Star r) (c # s)"
  then show "\<exists>u v. s = u @ v \<and> re_lang r (c # u) \<and> re_lang (Star r) v"
    by (cases rule: lang_StarE) (auto simp: Cons_eq_append_conv, blast)
next
  assume "\<exists>u v. s = u @ v \<and> re_lang r (c # u) \<and> re_lang (Star r) v"
  then obtain u v where "s = u @ v" "re_lang r (c # u)" "re_lang (Star r) v" by blast
  then show "re_lang (Star r) (c # s)"
    using re_lang.star1 [of r "c # u" v] by simp
qed

lemma deriv_lang: "re_lang (deriv c r) s \<longleftrightarrow> re_lang r (c # s)"
proof (induction r arbitrary: s)
  case (Cat r q)
  show ?case
    by (auto simp: lang_Cat Cat nullable_lang Cons_eq_append_conv)
next
  case (Star r)
  then show ?case by (auto simp: lang_Cat star_head)
qed auto

lemma re_match_lang: "re_match r s \<longleftrightarrow> re_lang r s"
  by (induction s arbitrary: r) (simp_all add: nullable_lang deriv_lang)

lemma MatchString_lang: "MatchString r s \<longleftrightarrow> re_lang r (runes s)"
  by (simp add: MatchString_def re_match_lang)

section \<open>Repetition\<close>

definition Plus :: "re \<Rightarrow> re" where
  "Plus r = Cat r (Star r)"

fun Rep :: "re \<Rightarrow> nat \<Rightarrow> nat \<Rightarrow> re" where
  "Rep r 0 0 = Eps"
| "Rep r 0 (Suc n) = Alt Eps (Cat r (Rep r 0 n))"
| "Rep r (Suc m) 0 = Zero"
| "Rep r (Suc m) (Suc n) = Cat r (Rep r m n)"

lemma Cat_Cls_lang: "re_lang (Cat (Cls p) q) s \<longleftrightarrow> (\<exists>c t. s = c # t \<and> p c \<and> re_lang q t)"
proof
  assume "\<exists>c t. s = c # t \<and> p c \<and> re_lang q t"
  then show "re_lang (Cat (Cls p) q) s"
    using re_lang.cat [OF re_lang.cls, of p _ q] by fastforce
qed (auto simp: lang_Cat)

lemma star_Cls_lang: "re_lang (Star (Cls p)) s \<longleftrightarrow> list_all p s"
  by (induction s) (auto simp: star_head intro: re_lang.star0)

lemma Plus_Cls_lang: "re_lang (Plus (Cls p)) s \<longleftrightarrow> s \<noteq> [] \<and> list_all p s"
  by (cases s) (auto simp: Plus_def Cat_Cls_lang star_Cls_lang)

lemma Rep_Cls_lang:
  "re_lang (Rep (Cls p) m n) s \<longleftrightarrow> m \<le> length s \<and> length s \<le> n \<and> list_all p s"
proof (induction "Cls p" m n arbitrary: s rule: Rep.induct)
  case (2 n)
  then show ?case by (cases s) (auto simp: Cat_Cls_lang)
next
  case (4 m n)
  then show ?case by (cases s) (auto simp: Cat_Cls_lang)
qed auto

section \<open>The expressions of the services\<close>

definition lower_r :: "nat \<Rightarrow> bool" where "lower_r r \<longleftrightarrow> 97 \<le> r \<and> r \<le> 122"
definition upper_r :: "nat \<Rightarrow> bool" where "upper_r r \<longleftrightarrow> 65 \<le> r \<and> r \<le> 90"
definition digit_r :: "nat \<Rightarrow> bool" where "digit_r r \<longleftrightarrow> 48 \<le> r \<and> r \<le> 57"

text \<open>\<^verbatim>\<open>[a-zA-Z0-9_]\<close>, \<^verbatim>\<open>[^@\s]\<close> (where \<^verbatim>\<open>\s\<close> is \<^verbatim>\<open>[\t\n\f\r ]\<close>) and
  \<^verbatim>\<open>[a-z0-9]\<close>.\<close>

definition word_r :: "nat \<Rightarrow> bool" where
  "word_r r \<longleftrightarrow> lower_r r \<or> upper_r r \<or> digit_r r \<or> r = 95"

definition mail_r :: "nat \<Rightarrow> bool" where
  "mail_r r \<longleftrightarrow> r \<noteq> 64 \<and> r \<notin> {9, 10, 12, 13, 32}"

definition slug_r :: "nat \<Rightarrow> bool" where
  "slug_r r \<longleftrightarrow> lower_r r \<or> digit_r r"

lemmas rune_class_defs = word_r_def mail_r_def slug_r_def lower_r_def upper_r_def digit_r_def

definition usernameRe :: re where
  "usernameRe = Rep (Cls word_r) 3 32"

definition emailRe :: re where
  "emailRe = Cat (Plus (Cls mail_r)) (Cat (Cls (\<lambda>r. r = 64))
              (Cat (Plus (Cls mail_r)) (Cat (Cls (\<lambda>r. r = 46)) (Plus (Cls mail_r)))))"

definition slugRe :: re where
  "slugRe = Cat (Plus (Cls slug_r)) (Star (Cat (Cls (\<lambda>r. r = 45)) (Plus (Cls slug_r))))"

section \<open>What the expressions accept\<close>

text \<open>A username is three to thirty-two ASCII letters, digits and underscores.\<close>

definition username_ok :: "string \<Rightarrow> bool" where
  "username_ok s \<longleftrightarrow>
     3 \<le> length s \<and> length s \<le> 32 \<and> list_all (\<lambda>c. word_r (byte_of c)) s"

lemma word_r_small: "word_r r \<Longrightarrow> r < 128"
  by (auto simp: rune_class_defs)

lemma word_bytes_ascii: "list_all (\<lambda>c. word_r (byte_of c)) s \<Longrightarrow> ascii s"
  by (induction s) (auto dest: word_r_small)

lemma usernameRe_iff: "MatchString usernameRe s \<longleftrightarrow> username_ok s"
proof -
  have "list_all word_r (runes s) \<longleftrightarrow> list_all (\<lambda>c. word_r (byte_of c)) s \<and> ascii s"
  proof
    assume a: "list_all word_r (runes s)"
    then have "ascii s"
      by (intro runes_small_ascii) (auto simp: list_all_iff dest: word_r_small)
    with a show "list_all (\<lambda>c. word_r (byte_of c)) s \<and> ascii s"
      by (simp add: runes_ascii list_all_iff)
  qed (simp add: runes_ascii list_all_iff)
  moreover have "ascii s \<Longrightarrow> length (runes s) = length s" by (simp add: runes_ascii)
  ultimately show ?thesis
    unfolding MatchString_lang usernameRe_def Rep_Cls_lang username_ok_def
    using word_bytes_ascii by auto
qed

lemma username_trimmed: "username_ok s \<Longrightarrow> TrimSpace s = s"
  by (rule TrimSpace_ascii_nospace)
     (auto simp: username_ok_def list_all_iff IsSpace_def rune_class_defs)

text \<open>An address has a non-empty local part, one \<^verbatim>\<open>@\<close> and a domain with an inner dot, and no
  white space.\<close>

lemma emailRe_iff:
  "MatchString emailRe s \<longleftrightarrow>
     (\<exists>l d e. runes s = l @ 64 # d @ 46 # e \<and> l \<noteq> [] \<and> d \<noteq> [] \<and> e \<noteq> [] \<and>
              list_all mail_r (l @ d @ e))"
proof -
  have "re_lang emailRe t \<longleftrightarrow>
     (\<exists>l d e. t = l @ 64 # d @ 46 # e \<and> l \<noteq> [] \<and> d \<noteq> [] \<and> e \<noteq> [] \<and> list_all mail_r (l @ d @ e))"
    for t
    unfolding emailRe_def
    by (auto simp: lang_Cat [of "Plus (Cls mail_r)"] Cat_Cls_lang Plus_Cls_lang) blast
  then show ?thesis by (simp add: MatchString_lang)
qed

text \<open>No string is both a username and an address: a username has no \<^verbatim>\<open>@\<close>.\<close>

lemma username_not_email: "username_ok s \<Longrightarrow> \<not> MatchString emailRe s"
proof
  assume u: "username_ok s" and m: "MatchString emailRe s"
  from m obtain l d e where "runes s = l @ 64 # d @ 46 # e" by (auto simp: emailRe_iff)
  moreover from u have "ascii s" by (auto simp: username_ok_def dest: word_bytes_ascii)
  ultimately have "64 \<in> byte_of ` set s" by (metis in_set_conv_decomp list.set_map runes_ascii)
  with u show False by (auto simp: username_ok_def list_all_iff rune_class_defs)
qed

text \<open>A slug is a sequence of non-empty lower-case words separated by single dashes.\<close>

definition slug_ok :: "string \<Rightarrow> bool" where
  "slug_ok s \<longleftrightarrow> list_all (\<lambda>p. p \<noteq> [] \<and> list_all slug_r p) (split_on 45 (map byte_of s))"

lemma star_slug_tail:
  "re_lang (Star (Cat (Cls (\<lambda>r. r = 45)) (Plus (Cls slug_r)))) t \<longleftrightarrow>
     t = [] \<or> (hd t = 45 \<and> list_all (\<lambda>p. p \<noteq> [] \<and> list_all slug_r p) (split_on 45 (tl t)))"
proof (induction t rule: length_induct)
  case (1 t)
  let ?ok = "\<lambda>s. list_all (\<lambda>p. p \<noteq> [] \<and> list_all slug_r p) (split_on 45 s)"
  let ?R = "Cat (Cls (\<lambda>r. r = 45)) (Plus (Cls slug_r))"
  have noD: "list_all slug_r p \<Longrightarrow> 45 \<notin> set p" for p
    by (auto simp: list_all_iff rune_class_defs)
  show ?case
  proof (cases t)
    case (Cons c u)
    have IH: "re_lang (Star ?R) v \<longleftrightarrow> v = [] \<or> (hd v = 45 \<and> ?ok (tl v))" if "length v \<le> length u" for v
      using 1 that Cons by simp
    have "re_lang (Star ?R) (c # u) \<longleftrightarrow>
        c = 45 \<and> (\<exists>p v. u = p @ v \<and> p \<noteq> [] \<and> list_all slug_r p \<and> re_lang (Star ?R) v)"
      unfolding star_head [of ?R c u] by (auto simp: Cat_Cls_lang Plus_Cls_lang)
    also have "\<dots> \<longleftrightarrow> c = 45 \<and> ?ok u"
    proof (intro conj_cong refl iffI)
      assume "\<exists>p v. u = p @ v \<and> p \<noteq> [] \<and> list_all slug_r p \<and> re_lang (Star ?R) v"
      then obtain p v where *: "u = p @ v" "p \<noteq> []" "list_all slug_r p" "re_lang (Star ?R) v" by blast
      with IH [of v] have "v = [] \<or> (hd v = 45 \<and> ?ok (tl v))" by simp
      with * show "?ok u"
        by (cases v) (auto simp: split_on_no_sep split_on_append noD)
    next
      assume ok: "?ok u"
      show "\<exists>p v. u = p @ v \<and> p \<noteq> [] \<and> list_all slug_r p \<and> re_lang (Star ?R) v"
      proof (cases "45 \<in> set u")
        case False
        with ok have "u \<noteq> [] \<and> list_all slug_r u" by (simp add: split_on_no_sep)
        then show ?thesis using re_lang.star0 by (intro exI [of _ u] exI [of _ "[]"]) auto
      next
        case True
        then obtain p v where u: "u = p @ 45 # v" "45 \<notin> set p" by (meson split_list_first)
        with ok have "p \<noteq> [] \<and> list_all slug_r p \<and> ?ok v" by (simp add: split_on_append)
        with u IH [of "45 # v"] show ?thesis by (intro exI [of _ p] exI [of _ "45 # v"]) auto
      qed
    qed
    finally show ?thesis using Cons by simp
  qed (simp add: re_lang.star0)
qed

lemma slug_dash_or: "slug_ok s \<longleftrightarrow> re_lang slugRe (map byte_of s)"
proof -
  let ?t = "map byte_of s"
  have "re_lang (Star (Cat (Cls (\<lambda>r. r = 45)) (Plus (Cls slug_r)))) (45 # ?t) \<longleftrightarrow> slug_ok s"
    by (simp add: star_slug_tail slug_ok_def)
  moreover have "re_lang (Star (Cat (Cls (\<lambda>r. r = 45)) (Plus (Cls slug_r)))) (45 # ?t)
      \<longleftrightarrow> re_lang slugRe ?t"
    unfolding star_head slugRe_def lang_Cat [of "Plus (Cls slug_r)"] by (auto simp: Cat_Cls_lang)
  ultimately show ?thesis by simp
qed

lemma slugRe_runes_small: "re_lang slugRe t \<Longrightarrow> list_all (\<lambda>r. r < 128) t"
proof -
  have star: "re_lang q u \<Longrightarrow> q = Star (Cat (Cls (\<lambda>r. r = 45)) (Plus (Cls slug_r))) \<Longrightarrow>
      list_all (\<lambda>r. r < 128) u" for q u
    by (induction rule: re_lang.induct)
       (auto simp: Cat_Cls_lang Plus_Cls_lang list_all_iff rune_class_defs,
        fastforce+)
  assume "re_lang slugRe t"
  then show ?thesis
    unfolding slugRe_def lang_Cat [of "Plus (Cls slug_r)"]
    by (auto simp: Plus_Cls_lang list_all_iff dest!: star) (auto simp: rune_class_defs)
qed

lemma slug_ok_ascii: "slug_ok s \<Longrightarrow> ascii s"
  by (auto simp: slug_dash_or ascii_def list_all_iff dest!: slugRe_runes_small)

lemma slugRe_iff: "MatchString slugRe s \<longleftrightarrow> slug_ok s"
proof
  assume m: "MatchString slugRe s"
  then have "ascii s" by (intro runes_small_ascii slugRe_runes_small) (simp add: MatchString_lang)
  with m show "slug_ok s" by (simp add: MatchString_lang runes_ascii slug_dash_or)
next
  assume s: "slug_ok s"
  then show "MatchString slugRe s"
    using slug_ok_ascii by (simp add: MatchString_lang runes_ascii slug_dash_or)
qed

end
