(* ===== verification/Auth_Service.thy ===== *)
theory Auth_Service
  imports User_Store Auth_Crypto Config Go_Regexp Samples
begin

text \<open>
  \<^verbatim>\<open>internal/services/auth.go\<close>: registration, login, rotation of refresh tokens, logout and
  profiles. The theory shows what a successful login and refresh imply about the tables, that a
  refresh token can be used once, and that an account just registered can log in.
\<close>

section \<open>The service\<close>

record AuthService =
  as_hasher :: Params
  as_jwt :: Manager
  as_cfg :: Config

definition NewAuthService :: "Config \<Rightarrow> AuthService" where
  "NewAuthService cfg =
     \<lparr>as_hasher = DefaultParams,
      as_jwt = NewManager (cfg_JWTSecret cfg) (cfg_JWTIssuer cfg) (sint (cfg_AccessTTL cfg)), as_cfg = cfg\<rparr>"

record Tokens =
  tok_AccessToken :: string
  tok_RefreshToken :: string
  tok_User :: User
  tok_Roles :: "string list"

definition normalizeIP :: "string \<Rightarrow> string" where
  "normalizeIP ip = (case SplitHostPort ip of Some (host, _) \<Rightarrow> host | None \<Rightarrow> ip)"

definition AuthService_Register :: "ext \<Rightarrow> AuthService \<Rightarrow> string \<Rightarrow> string \<Rightarrow> string \<Rightarrow> User dbop" where
  "AuthService_Register X S username0 email0 password0 =
     (let username = TrimSpace username0; email = TrimSpace email0; password = TrimSpace password0 in
      if \<not> MatchString usernameRe username
      then throwE (ErrValidation ''username must be 3-32 chars [a-zA-Z0-9_]'')
      else if \<not> MatchString emailRe email then throwE (ErrValidation ''invalid email'')
      else if length password < 8 then throwE (ErrValidation ''password must be at least 8 chars'')
      else
        bindE (PasswordHasher_Hash X (as_hasher S) password) (\<lambda>hash.
        bindE (mapErrE (\<lambda>e. if e = StoreErrConflict then ErrUsernameTaken else e)
                 (UserStore_Create X
                   \<lparr>newuser_Username = username, newuser_Email = email, newuser_PasswordHash = hash,
                    newuser_DisplayName = username\<rparr>)) (\<lambda>user.
        bindE (UserStore_AddMemberRole (user_ID user)) (\<lambda>_.
        returnE user))))"

definition AuthService_issueTokens :: "ext \<Rightarrow> AuthService \<Rightarrow> User \<Rightarrow> string \<Rightarrow> string \<Rightarrow> Tokens dbop" where
  "AuthService_issueTokens X S user userAgent ip =
     bindE (UserStore_RolesForUser X (user_ID user)) (\<lambda>rs.
     bindE (NewAccessToken X (as_jwt S) (user_ID user) (user_Username user) rs) (\<lambda>access.
     bindE (NewRefreshToken X) (\<lambda>(refresh, refreshHash).
     bindE time_Now (\<lambda>now.
     bindE (SessionStore_Create X
              \<lparr>newsession_UserID = user_ID user, newsession_TokenHash = refreshHash,
               newsession_UserAgent = userAgent, newsession_IP = normalizeIP ip,
               newsession_ExpiresAt = now + sint (cfg_RefreshTTL (as_cfg S))\<rparr>) (\<lambda>_.
     returnE \<lparr>tok_AccessToken = access, tok_RefreshToken = refresh, tok_User = user, tok_Roles = rs\<rparr>)))))"

text \<open>\<^verbatim>\<open>Login\<close> looks the account up by username and, when there is none, by e-mail; a failure of
  the second lookup, whatever its cause, is reported as wrong credentials.\<close>

definition login_lookup :: "ext \<Rightarrow> string \<Rightarrow> User dbop" where
  "login_lookup X identifier =
     handleE (UserStore_GetByUsername X identifier) (\<lambda>err.
       if err = StoreErrNotFound
       then mapErrE (\<lambda>_. ErrInvalidCredentials) (UserStore_GetByEmail X identifier)
       else throwE err)"

definition AuthService_Login ::
    "ext \<Rightarrow> AuthService \<Rightarrow> string \<Rightarrow> string \<Rightarrow> string \<Rightarrow> string \<Rightarrow> Tokens dbop" where
  "AuthService_Login X S identifier password userAgent ip =
     bindE (login_lookup X (TrimSpace identifier)) (\<lambda>user.
     if user_Status user \<noteq> UserStatusActive then throwE ErrUserNotActive
     else
       bindE (liftE (PasswordHasher_Verify X password (user_PasswordHash user))) (\<lambda>valid.
       if \<not> valid then throwE ErrInvalidCredentials
       else AuthService_issueTokens X S user userAgent ip))"

text \<open>\<^verbatim>\<open>s.sessions.Revoke(ctx, session.ID, time.Now())\<close>.\<close>

definition revoke_now :: "uuid \<Rightarrow> unit dbop" where
  "revoke_now i = bindE time_Now (SessionStore_Revoke i)"

definition AuthService_Refresh :: "ext \<Rightarrow> AuthService \<Rightarrow> string \<Rightarrow> string \<Rightarrow> string \<Rightarrow> Tokens dbop" where
  "AuthService_Refresh X S refreshToken userAgent ip =
     bindE (mapErrE (\<lambda>e. if e = StoreErrNotFound then ErrInvalidRefresh else e)
              (SessionStore_GetByTokenHash (HashRefreshToken X refreshToken))) (\<lambda>session.
     bindE (handleE (UserStore_GetByID (session_UserID session)) (\<lambda>err.
              if err = StoreErrNotFound
              then bindE (ignoreE (revoke_now (session_ID session))) (\<lambda>_. throwE ErrInvalidRefresh)
              else throwE err)) (\<lambda>user.
     if user_Status user \<noteq> UserStatusActive then throwE ErrUserNotActive
     else
       bindE (revoke_now (session_ID session)) (\<lambda>_.
       AuthService_issueTokens X S user userAgent ip)))"

definition AuthService_Logout :: "ext \<Rightarrow> string \<Rightarrow> unit dbop" where
  "AuthService_Logout X refreshToken =
     handleE
       (bindE (SessionStore_GetByTokenHash (HashRefreshToken X refreshToken)) (\<lambda>session.
        ignoreE (revoke_now (session_ID session))))
       (\<lambda>_. returnE ())"

definition AuthService_Profile :: "ext \<Rightarrow> uuid \<Rightarrow> (User \<times> string list) dbop" where
  "AuthService_Profile X i =
     bindE (mapErrE (\<lambda>e. if e = StoreErrNotFound then ErrUserNotFound else e) (UserStore_GetByID i)) (\<lambda>user.
     bindE (UserStore_RolesForUser X (user_ID user)) (\<lambda>rs.
     returnE (user, rs)))"

lemmas auth_service_defs =
  AuthService_Register_def AuthService_issueTokens_def login_lookup_def AuthService_Login_def
  revoke_now_def AuthService_Refresh_def AuthService_Logout_def AuthService_Profile_def

lemma auth_service_keeps_schema [keeps_intros]:
  "keeps (on_db (db_ok X)) (AuthService_Register X S a b c)"
  "keeps (on_db (db_ok X)) (AuthService_issueTokens X S u ua ip)"
  "keeps (on_db (db_ok X)) (AuthService_Login X S a b ua ip)"
  "keeps (on_db (db_ok X)) (revoke_now i)"
  "keeps (on_db (db_ok X)) (AuthService_Refresh X S t ua ip)"
  "keeps (on_db (db_ok X)) (AuthService_Logout X t)"
  "keeps (on_db (db_ok X)) (AuthService_Profile X i)"
  unfolding auth_service_defs Let_def by (intro keeps_intros)+

section \<open>What tokens stand for\<close>

text \<open>The session that \<^verbatim>\<open>issueTokens\<close> stored for a token pair.\<close>

definition session_for :: "ext \<Rightarrow> Tokens \<Rightarrow> Session \<Rightarrow> bool" where
  "session_for X t s \<longleftrightarrow>
     session_UserID s = user_ID (tok_User t) \<and>
     session_TokenHash s = HashRefreshToken X (tok_RefreshToken t) \<and> session_RevokedAt s = None"

lemma sql_sessions_insert_Inr:
  "sql_sessions_insert X ns a d = Inr (s, d') \<Longrightarrow>
     d' = d\<lparr>user_sessions := user_sessions d @ [s]\<rparr> \<and> session_UserID s = newsession_UserID ns \<and>
     session_TokenHash s = newsession_TokenHash ns \<and> session_RevokedAt s = None \<and>
     session_ExpiresAt s = pg_time (newsession_ExpiresAt ns) \<and>
     session_TokenHash s \<notin> session_TokenHash ` set (user_sessions d) \<and>
     session_ID s \<notin> session_ID ` set (user_sessions d)"
  by (auto simp: sql_sessions_insert_def Let_def split: if_splits option.splits)

lemma issueTokens_Inr:
  assumes "AuthService_issueTokens X S user ua ip w = (Inr t, w1)"
  shows "\<exists>s. tok_User t = user \<and> tok_Roles t = roles_of X (user_ID user) (w_db w) \<and> session_for X t s \<and>
    session_TokenHash s \<notin> session_TokenHash ` set (user_sessions (w_db w)) \<and>
    session_ID s \<notin> session_ID ` set (user_sessions (w_db w)) \<and>
    w_db w1 = (w_db w)\<lparr>user_sessions := user_sessions (w_db w) @ [s]\<rparr>"
proof -
  from assms obtain rs wa acc wb ref h wc now wd s where
      a: "query [] (\<lambda>a d. roles_of X (user_ID user) d) w = (Inr rs, wa)"
    and b: "NewAccessToken X (as_jwt S) (user_ID user) (user_Username user) rs wa = (Inr acc, wb)"
    and c: "NewRefreshToken X wb = (Inr (ref, h), wc)"
    and now: "time_Now wc = (Inr now, wd)"
    and d: "SessionStore_Create X \<lparr>newsession_UserID = user_ID user, newsession_TokenHash = h,
               newsession_UserAgent = ua, newsession_IP = normalizeIP ip,
               newsession_ExpiresAt = now + sint (cfg_RefreshTTL (as_cfg S))\<rparr> wd = (Inr s, w1)"
    and t: "t = \<lparr>tok_AccessToken = acc, tok_RefreshToken = ref, tok_User = user, tok_Roles = rs\<rparr>"
    by (auto simp: AuthService_issueTokens_def UserStore_RolesForUser_def bindE_Inr_iff split: prod.splits)
  have rs: "rs = roles_of X (user_ID user) (w_db w)" "w_db wa = w_db w" using query_result [OF a] by auto
  have "w_db wb = w_db wa" "w_db wc = w_db wb" "w_db wd = w_db wc"
    using b c now by (auto simp: auth_defs bindE_Inr_iff time_Now_def rand_Read_def Let_def
        split: option.splits if_splits)
  moreover have h: "h = HashRefreshToken X ref" using NewRefreshToken_hash [OF c] by simp
  ultimately show ?thesis
    using sql_Inr [OF d [unfolded SessionStore_Create_def]] rs
    by (intro exI [of _ s]) (auto simp: t session_for_def dest!: sql_sessions_insert_Inr)
qed

section \<open>Login\<close>

definition identified_by :: "ext \<Rightarrow> string \<Rightarrow> User \<Rightarrow> bool" where
  "identified_by X name u \<longleftrightarrow>
     pg_lower X (user_Username u) = pg_lower X name \<or> pg_lower X (user_Email u) = pg_lower X name"

lemma login_lookup_Inr:
  assumes "login_lookup X name w = (Inr u, w1)"
  shows "u \<in> set (users (w_db w)) \<and> identified_by X name u \<and> w_db w1 = w_db w"
proof -
  obtain r w2 where g: "UserStore_GetByUsername X name w = (r, w2)" by fastforce
  from g [unfolded UserStore_GetByUsername_def] show ?thesis
  proof (cases rule: read_cases)
    case (found u')
    with assms g have "u = u'" "w1 = tick w" by (auto simp: login_lookup_def handleE_def)
    with found(1) show ?thesis by (auto simp: identified_by_def dest: find_SomeD)
  next
    case none
    with assms g have "UserStore_GetByEmail X name (tick w) = (Inr u, w1)"
      by (auto simp: login_lookup_def handleE_def mapErrE_Inr_iff)
    then show ?thesis unfolding UserStore_GetByEmail_def
      by (cases rule: read_cases) (auto simp: identified_by_def dest: find_SomeD)
  qed (use assms g in \<open>auto simp: login_lookup_def handleE_def\<close>)
qed

text \<open>C17: A login that succeeds was for an active account with that username or e-mail whose
  stored hash accepts the password; it returns that account and its roles, and stores exactly
  one new session, for that account, under the hash of the refresh token it returns. This holds
  under every failure of the environment.\<close>

theorem login_sound:
  assumes "AuthService_Login X S identifier password ua ip w = (Inr t, w1)"
  shows "tok_User t \<in> set (users (w_db w)) \<and> identified_by X (TrimSpace identifier) (tok_User t) \<and>
    user_Status (tok_User t) = UserStatusActive \<and>
    PasswordHasher_Verify X password (user_PasswordHash (tok_User t)) = Inr True \<and>
    tok_Roles t = roles_of X (user_ID (tok_User t)) (w_db w) \<and>
    (\<exists>s. session_for X t s \<and> w_db w1 = (w_db w)\<lparr>user_sessions := user_sessions (w_db w) @ [s]\<rparr>)"
proof -
  from assms obtain u w2 where look: "login_lookup X (TrimSpace identifier) w = (Inr u, w2)"
    and act: "user_Status u = UserStatusActive"
    and ver: "PasswordHasher_Verify X password (user_PasswordHash u) = Inr True"
    and iss: "AuthService_issueTokens X S u ua ip w2 = (Inr t, w1)"
    by (auto simp: AuthService_Login_def bindE_Inr_iff split: if_splits)
  from login_lookup_Inr [OF look] issueTokens_Inr [OF iss] act ver show ?thesis by auto
qed

section \<open>Refresh\<close>

lemma revoke_now_Inr:
  assumes "revoke_now i w = (Inr (), w1)"
  shows "\<exists>t. w_db w1 = (w_db w)\<lparr>user_sessions :=
     update_rows (\<lambda>s. session_ID s = i \<and> session_RevokedAt s = None) (\<lambda>s. s\<lparr>session_RevokedAt := Some t\<rparr>)
       (user_sessions (w_db w))\<rparr>"
proof -
  let ?t = "ans_now (w_env w (w_tick w))"
  from assms have "SessionStore_Revoke i ?t (tick w) = (Inr (), w1)"
    by (simp add: revoke_now_def bindE_def time_Now_def)
  then show ?thesis unfolding SessionStore_Revoke_def
    by (cases rule: need_rows_cases) (auto simp: sql_sessions_update_def)
qed

definition live_session :: "ext \<Rightarrow> string \<Rightarrow> Session \<Rightarrow> bool" where
  "live_session X token s \<longleftrightarrow> session_TokenHash s = HashRefreshToken X token \<and> session_RevokedAt s = None"

lemma Refresh_Inr:
  assumes run: "AuthService_Refresh X S token ua ip w = (Inr t, w1)"
  shows "\<exists>old new at. old \<in> set (user_sessions (w_db w)) \<and> live_session X token old \<and>
    session_active (ans_now (stmt_answer w)) old \<and>
    tok_User t \<in> set (users (w_db w)) \<and> user_ID (tok_User t) = session_UserID old \<and>
    user_Status (tok_User t) = UserStatusActive \<and> session_for X t new \<and>
    session_TokenHash new \<notin> session_TokenHash ` set (user_sessions (w_db w)) \<and>
    w_db w1 = (w_db w)\<lparr>user_sessions :=
       update_rows (\<lambda>s. session_ID s = session_ID old \<and> session_RevokedAt s = None)
         (\<lambda>s. s\<lparr>session_RevokedAt := Some at\<rparr>) (user_sessions (w_db w)) @ [new]\<rparr>"
  using run [unfolded AuthService_Refresh_def SessionStore_GetByTokenHash_def]
proof (cases rule: bind_read_cases)
  case (found old)
  then have old: "old \<in> set (user_sessions (w_db w))" "session_TokenHash old = HashRefreshToken X token"
      "session_active (ans_now (stmt_answer w)) old"
    by (auto dest: find_SomeD)
  obtain ru w2 where get: "UserStore_GetByID (session_UserID old) (tick w) = (ru, w2)" by fastforce
  from get [unfolded UserStore_GetByID_def] show ?thesis
  proof (cases rule: read_cases)
    case (found u)
    with run get have act: "user_Status u = UserStatusActive"
      and rest: "bindE (revoke_now (session_ID old)) (\<lambda>_. AuthService_issueTokens X S u ua ip) (tick (tick w)) = (Inr t, w1)"
      using \<open>bindE _ _ (tick w) = _\<close> by (auto simp: bindE_def handleE_def split: if_splits)
    from rest obtain w3 where rev: "revoke_now (session_ID old) (tick (tick w)) = (Inr (), w3)"
      and iss: "AuthService_issueTokens X S u ua ip w3 = (Inr t, w1)" by (auto simp: bindE_Inr_iff)
    from revoke_now_Inr [OF rev] obtain at where w3: "w_db w3 = (w_db w)\<lparr>user_sessions :=
       update_rows (\<lambda>s. session_ID s = session_ID old \<and> session_RevokedAt s = None)
         (\<lambda>s. s\<lparr>session_RevokedAt := Some at\<rparr>) (user_sessions (w_db w))\<rparr>" by auto
    have hashes: "session_TokenHash ` set (user_sessions (w_db w3)) = session_TokenHash ` set (user_sessions (w_db w))"
      by (simp add: w3 flip: set_map) (simp add: map_update_rows)
    from issueTokens_Inr [OF iss] obtain new where "tok_User t = u" "session_for X t new"
      "session_TokenHash new \<notin> session_TokenHash ` set (user_sessions (w_db w3))"
      "w_db w1 = (w_db w3)\<lparr>user_sessions := user_sessions (w_db w3) @ [new]\<rparr>" by blast
    with found(1) old act w3 hashes show ?thesis
      by (intro exI [of _ old] exI [of _ new] exI [of _ at])
         (auto simp: live_session_def session_active_def dest: userT.find_key_Some)
  qed (use found(2) get in \<open>auto simp: op_defs split: if_splits\<close>)
qed simp_all

text \<open>C18: A refresh that succeeds presented a token with an unrevoked, unexpired session of an
  active account, revoked that session, and stored exactly one new session for the same account,
  under the hash of the new token, which no earlier session had.\<close>

theorem refresh_rotates:
  assumes "AuthService_Refresh X S token ua ip w = (Inr t, w1)"
  shows "\<exists>old new at. old \<in> set (user_sessions (w_db w)) \<and> live_session X token old \<and>
    session_active (ans_now (stmt_answer w)) old \<and>
    tok_User t \<in> set (users (w_db w)) \<and> user_ID (tok_User t) = session_UserID old \<and>
    user_Status (tok_User t) = UserStatusActive \<and> session_for X t new \<and>
    session_TokenHash new \<notin> session_TokenHash ` set (user_sessions (w_db w)) \<and>
    w_db w1 = (w_db w)\<lparr>user_sessions :=
       update_rows (\<lambda>s. session_ID s = session_ID old \<and> session_RevokedAt s = None)
         (\<lambda>s. s\<lparr>session_RevokedAt := Some at\<rparr>) (user_sessions (w_db w)) @ [new]\<rparr>"
  using assms by (rule Refresh_Inr)

subsection \<open>A refresh token works once\<close>

text \<open>A token is spent when it has a session and every session of its hash is revoked.\<close>

definition spent :: "ext \<Rightarrow> string \<Rightarrow> db \<Rightarrow> bool" where
  "spent X token d \<longleftrightarrow>
     HashRefreshToken X token \<in> session_TokenHash ` set (user_sessions d) \<and>
     (\<forall>s \<in> set (user_sessions d). session_TokenHash s = HashRefreshToken X token \<longrightarrow> session_RevokedAt s \<noteq> None)"

lemma spent_frame: "spent X token d \<Longrightarrow> user_sessions d' = user_sessions d \<Longrightarrow> spent X token d'"
  by (simp add: spent_def)

lemma spent_revoke:
  "spent X token d \<Longrightarrow> spent X token (d\<lparr>user_sessions :=
     update_rows p (\<lambda>s. s\<lparr>session_RevokedAt := Some t\<rparr>) (user_sessions d)\<rparr>)"
proof -
  assume sp: "spent X token d"
  have "session_TokenHash ` set (update_rows p (\<lambda>s. s\<lparr>session_RevokedAt := Some t\<rparr>) (user_sessions d)) =
      session_TokenHash ` set (user_sessions d)"
    by (simp flip: set_map) (simp add: map_update_rows)
  with sp show ?thesis by (auto simp: spent_def elim!: in_update_rowsE)
qed

lemma spent_after_revoke:
  assumes ok: "sessions_ok d" and old: "old \<in> set (user_sessions d)" "session_TokenHash old = HashRefreshToken X token"
  shows "spent X token (d\<lparr>user_sessions :=
     update_rows (\<lambda>s. session_ID s = session_ID old \<and> session_RevokedAt s = None)
       (\<lambda>s. s\<lparr>session_RevokedAt := Some t\<rparr>) (user_sessions d)\<rparr>)"
proof -
  let ?p = "\<lambda>s. session_ID s = session_ID old \<and> session_RevokedAt s = None"
  let ?ss = "update_rows ?p (\<lambda>s. s\<lparr>session_RevokedAt := Some t\<rparr>) (user_sessions d)"
  have "map session_TokenHash ?ss = map session_TokenHash (user_sessions d)" by (simp add: map_update_rows)
  then have "session_TokenHash ` set ?ss = session_TokenHash ` set (user_sessions d)" by (metis set_map)
  moreover have "HashRefreshToken X token \<in> session_TokenHash ` set (user_sessions d)" using old by (metis imageI)
  moreover have "session_RevokedAt s \<noteq> None"
    if s: "s \<in> set ?ss" "session_TokenHash s = HashRefreshToken X token" for s
    using s(1)
  proof (cases rule: in_update_rowsE)
    case same
    have "inj_on session_TokenHash (set (user_sessions d))" using ok by (simp add: sessions_ok_def distinct_map)
    then have "s = old" using same(1) s(2) old by (metis inj_onD)
    with same(2) show ?thesis by simp
  qed simp
  ultimately show ?thesis by (simp add: spent_def)
qed

lemma spent_append:
  "spent X token d \<Longrightarrow> session_TokenHash new \<noteq> HashRefreshToken X token \<Longrightarrow>
     spent X token (d\<lparr>user_sessions := user_sessions d @ [new]\<rparr>)"
  by (auto simp: spent_def)

lemma spent_stmts:
  "stmt_keeps (spent X token) (sql_sessions_insert X ns)"
  "stmt_keeps (spent X token) (sql_sessions_update p (\<lambda>s. s\<lparr>session_RevokedAt := Some t\<rparr>))"
  "stmt_keeps (spent X token) (sql_users_insert X nu)"
  "stmt_keeps (spent X token) (sql_user_roles_insert i q)"
proof -
  show "stmt_keeps (spent X token) (sql_sessions_insert X ns)"
    by (rule stmt_keepsI) (auto simp: spent_def dest!: sql_sessions_insert_Inr)
  show "stmt_keeps (spent X token) (sql_sessions_update p (\<lambda>s. s\<lparr>session_RevokedAt := Some t\<rparr>))"
    by (rule stmt_keepsI) (auto simp: sql_sessions_update_def spent_revoke)
  show "stmt_keeps (spent X token) (sql_users_insert X nu)"
    by (rule stmt_keepsI) (auto simp: sql_users_insert_def Let_def elim!: spent_frame split: if_splits)
  show "stmt_keeps (spent X token) (sql_user_roles_insert i q)"
    by (rule stmt_keepsI) (auto simp: sql_user_roles_insert_def Let_def elim!: spent_frame split: if_splits)
qed

lemma spent_refused:
  assumes "spent X token (w_db w)"
  shows "\<exists>e. AuthService_Refresh X S token ua ip w = (Inl e, tick w) \<and> (calm w \<longrightarrow> e = ErrInvalidRefresh)"
proof -
  obtain r w1 where run: "AuthService_Refresh X S token ua ip w = (r, w1)" by fastforce
  have none: "find (\<lambda>s. session_TokenHash s = HashRefreshToken X token \<and> session_active now s) (user_sessions (w_db w)) = None" for now
    using assms by (auto simp: spent_def session_active_def find_None_iff)
  from run [unfolded AuthService_Refresh_def SessionStore_GetByTokenHash_def]
  have "\<exists>e. r = Inl e \<and> w1 = tick w" by (cases rule: bind_read_cases) (use none in auto)
  moreover have "r = Inl ErrInvalidRefresh" if "calm w"
  proof -
    have "list_all pg_text [HashRefreshToken X token]" by (simp add: HashRefreshToken_def hex_text)
    with run that none show ?thesis
      by (simp add: AuthService_Refresh_def SessionStore_GetByTokenHash_def op_defs scan_query_calm)
  qed
  ultimately show ?thesis using run by auto
qed

text \<open>C15: A refresh token works once. After a successful refresh its token is spent; no
  registration, login, refresh or logout makes a spent token usable again, whatever fails; and
  presenting a spent token changes nothing and is refused.\<close>

theorem refresh_token_single_use:
  "(AuthService_Refresh X S token ua ip w = (Inr t, w1) \<and> sessions_ok (w_db w) \<longrightarrow> spent X token (w_db w1)) \<and>
   keeps (on_db (spent X token)) (AuthService_Register X S a b c) \<and>
   keeps (on_db (spent X token)) (AuthService_Login X S a b ua2 ip2) \<and>
   keeps (on_db (spent X token)) (AuthService_Refresh X S token2 ua2 ip2) \<and>
   keeps (on_db (spent X token)) (AuthService_Logout X token2) \<and>
   (spent X token (w_db w) \<longrightarrow>
     (\<exists>e. AuthService_Refresh X S token ua ip w = (Inl e, tick w) \<and> (calm w \<longrightarrow> e = ErrInvalidRefresh)))"
proof (intro conjI impI)
  assume a: "AuthService_Refresh X S token ua ip w = (Inr t, w1) \<and> sessions_ok (w_db w)"
  then obtain old new at where old: "old \<in> set (user_sessions (w_db w))" "live_session X token old"
    and new: "session_TokenHash new \<notin> session_TokenHash ` set (user_sessions (w_db w))"
    and db: "w_db w1 = (w_db w)\<lparr>user_sessions :=
       update_rows (\<lambda>s. session_ID s = session_ID old \<and> session_RevokedAt s = None)
         (\<lambda>s. s\<lparr>session_RevokedAt := Some at\<rparr>) (user_sessions (w_db w)) @ [new]\<rparr>"
    using Refresh_Inr by blast
  have h: "session_TokenHash old = HashRefreshToken X token" using old(2) by (simp add: live_session_def)
  then have "session_TokenHash new \<noteq> HashRefreshToken X token" using new old(1) by (metis imageI)
  from spent_append [OF spent_after_revoke [OF _ old(1) h] this] a show "spent X token (w_db w1)"
    by (simp add: db)
next
  show "keeps (on_db (spent X token)) (AuthService_Register X S a b c)"
    unfolding auth_service_defs user_store_defs Let_def by (intro keeps_intros spent_stmts)
  show "keeps (on_db (spent X token)) (AuthService_Login X S a b ua2 ip2)"
    unfolding auth_service_defs user_store_defs Let_def by (intro keeps_intros spent_stmts)
  show "keeps (on_db (spent X token)) (AuthService_Refresh X S token2 ua2 ip2)"
    unfolding auth_service_defs user_store_defs Let_def by (intro keeps_intros spent_stmts)
  show "keeps (on_db (spent X token)) (AuthService_Logout X token2)"
    unfolding auth_service_defs user_store_defs Let_def by (intro keeps_intros spent_stmts)
qed (rule spent_refused)

section \<open>Logout\<close>

text \<open>Logout never reports an error; when nothing fails, the token it was given is spent
  afterwards if it had an unrevoked and unexpired session, and nothing changes otherwise.\<close>

theorem logout_spends_token:
  "fst (AuthService_Logout X token w) = Inr () \<and>
   (calm w \<and> sessions_ok (w_db w) \<longrightarrow>
     (if \<exists>s \<in> set (user_sessions (w_db w)). session_TokenHash s = HashRefreshToken X token
           \<and> session_active (ans_now (stmt_answer w)) s
      then spent X token (w_db (snd (AuthService_Logout X token w)))
      else w_db (snd (AuthService_Logout X token w)) = w_db w))"
proof (intro conjI impI)
  show "fst (AuthService_Logout X token w) = Inr ()"
    by (auto simp: AuthService_Logout_def op_defs split: prod.splits sum.splits)
next
  assume a: "calm w \<and> sessions_ok (w_db w)"
  let ?p = "\<lambda>s. session_TokenHash s = HashRefreshToken X token \<and> session_active (ans_now (stmt_answer w)) s"
  have get: "SessionStore_GetByTokenHash (HashRefreshToken X token) w =
      ((case find ?p (user_sessions (w_db w)) of None \<Rightarrow> Inl StoreErrNotFound | Some x \<Rightarrow> Inr x), tick w)"
    using a by (simp add: SessionStore_GetByTokenHash_def scan_query_calm HashRefreshToken_def hex_text)
  show "if \<exists>s \<in> set (user_sessions (w_db w)). ?p s
      then spent X token (w_db (snd (AuthService_Logout X token w)))
      else w_db (snd (AuthService_Logout X token w)) = w_db w"
  proof (cases "find ?p (user_sessions (w_db w))")
    case None
    then have "\<not> (\<exists>s \<in> set (user_sessions (w_db w)). ?p s)" by (auto simp: find_None_iff)
    with None get show ?thesis by (auto simp: AuthService_Logout_def op_defs)
  next
    case (Some s)
    then have s: "s \<in> set (user_sessions (w_db w))" "session_TokenHash s = HashRefreshToken X token"
      "session_RevokedAt s = None" by (auto simp: session_active_def dest!: find_SomeD)
    let ?q = "\<lambda>r. session_ID r = session_ID s \<and> session_RevokedAt r = None"
    let ?f = "\<lambda>r. r\<lparr>session_RevokedAt := Some (pg_time (ans_now (w_env w (Suc (w_tick w)))))\<rparr>"
    have "w_db (snd (AuthService_Logout X token w)) = (w_db w)\<lparr>user_sessions := update_rows ?q ?f (user_sessions (w_db w))\<rparr>"
      using a get Some by (simp add: AuthService_Logout_def op_defs revoke_now_def time_Now_def
          SessionStore_Revoke_def need_rows_def sql_calm sql_sessions_update_def)
    then have sp: "spent X token (w_db (snd (AuthService_Logout X token w)))"
      using spent_after_revoke [OF _ s(1,2)] a by simp
    have ex: "\<exists>s \<in> set (user_sessions (w_db w)). ?p s" using find_SomeD [OF Some] by blast
    show ?thesis by (simp only: ex sp if_True)
  qed
qed

section \<open>Registration, then login\<close>

lemma Register_Inr:
  assumes "AuthService_Register X S username email password w = (Inr u, w1)"
  shows "username_ok (TrimSpace username) \<and> MatchString emailRe (TrimSpace email) \<and>
    8 \<le> length (TrimSpace password) \<and>
    user_Username u = TrimSpace username \<and> user_Email u = TrimSpace email \<and> user_Status u = UserStatusActive \<and>
    (\<exists>w2. PasswordHasher_Hash X (as_hasher S) (TrimSpace password) w = (Inr (user_PasswordHash u), w2)) \<and>
    users (w_db w1) = users (w_db w) @ [u] \<and> user_sessions (w_db w1) = user_sessions (w_db w) \<and>
    user_roles (w_db w1) = user_roles (w_db w) @ map (\<lambda>r. (user_ID u, role_ID r))
      (filter (\<lambda>r. role_Key r = RoleMember) (roles (w_db w)))"
proof -
  from assms obtain h w2 w3 where
      v: "MatchString usernameRe (TrimSpace username)" "MatchString emailRe (TrimSpace email)"
         "8 \<le> length (TrimSpace password)"
    and h: "PasswordHasher_Hash X (as_hasher S) (TrimSpace password) w = (Inr h, w2)"
    and c: "UserStore_Create X \<lparr>newuser_Username = TrimSpace username, newuser_Email = TrimSpace email,
              newuser_PasswordHash = h, newuser_DisplayName = TrimSpace username\<rparr> w2 = (Inr u, w3)"
    and r: "UserStore_AddMemberRole (user_ID u) w3 = (Inr (), w1)"
    by (auto simp: AuthService_Register_def Let_def bindE_Inr_iff mapErrE_Inr_iff not_less split: if_splits)
  have w2: "w_db w2 = w_db w"
    using h by (auto simp: PasswordHasher_Hash_def bindE_Inr_iff rand_Read_def Let_def split: if_splits option.splits)
  from c have u: "w_db w3 = (w_db w)\<lparr>users := users (w_db w) @ [u]\<rparr>" "user_Username u = TrimSpace username"
    "user_Email u = TrimSpace email" "user_PasswordHash u = h" "user_Status u = ''active''"
    by (auto simp: UserStore_Create_def mapErrE_Inr_iff sql_users_insert_def Let_def w2 dest!: sql_Inr split: if_splits)
  from r have "w_db w1 = (w_db w3)\<lparr>user_roles := user_roles (w_db w3) @ map (\<lambda>r. (user_ID u, role_ID r))
       (filter (\<lambda>r. role_Key r = RoleMember) (roles (w_db w3)))\<rparr>"
    by (auto simp: UserStore_AddMemberRole_def UserStore_AssignRole_def bindE_Inr_iff sql_user_roles_insert_def
        Let_def dest!: sql_Inr split: if_splits)
  with u v h show ?thesis by (auto simp: usernameRe_iff UserStatusActive_def)
qed

text \<open>The environment of a login: it answers every call, draws an unused session id and an unused
  token, and the client's address and agent are text that PostgreSQL accepts.\<close>

definition login_env :: "ext \<Rightarrow> string \<Rightarrow> string \<Rightarrow> world \<Rightarrow> bool" where
  "login_env X ua ip w \<longleftrightarrow>
     calm w \<and> pg_text ua \<and> pg_text (normalizeIP ip) \<and>
     (normalizeIP ip = [] \<or> pg_inet X (normalizeIP ip) \<noteq> None) \<and>
     ans_uuid (w_env w (w_tick w + 5)) \<notin> session_ID ` set (user_sessions (w_db w)) \<and>
     HashRefreshToken X (EncodeToString b64_url (map (ans_rand (w_env w (w_tick w + 3))) [0..<32]))
       \<notin> session_TokenHash ` set (user_sessions (w_db w))"

definition jwt_signs :: "ext \<Rightarrow> bool" where
  "jwt_signs X \<longleftrightarrow> (\<forall>secret c. jwt_SignedString X secret c \<noteq> None)"

lemma sql_sessions_insert_succeeds:
  assumes "newsession_IP ns = [] \<or> pg_inet X (newsession_IP ns) \<noteq> None" "newsession_UserID ns \<in> user_ids d"
    and "ans_uuid a \<notin> session_ID ` set (user_sessions d)"
    and "newsession_TokenHash ns \<notin> session_TokenHash ` set (user_sessions d)"
  shows "\<exists>s d'. sql_sessions_insert X ns a d = Inr (s, d')"
  using assms by (cases "newsession_IP ns = []") (auto simp: sql_sessions_insert_def Let_def)

lemma issueTokens_succeeds:
  assumes env: "login_env X ua ip w" and signs: "jwt_signs X" and u: "user_ID user \<in> user_ids (w_db w)"
  shows "\<exists>t w1. AuthService_issueTokens X S user ua ip (tick w) = (Inr t, w1)"
proof -
  have c: "calm w" using env by (simp add: login_env_def)
  define rs where "rs = roles_of X (user_ID user) (w_db w)"
  have roles: "UserStore_RolesForUser X (user_ID user) (tick w) = (Inr rs, tick (tick w))"
    using c by (simp add: UserStore_RolesForUser_def query_calm rs_def)
  obtain acc where acc: "NewAccessToken X (as_jwt S) (user_ID user) (user_Username user) rs (tick (tick w))
      = (Inr acc, tick (tick (tick w)))"
    using signs by (fastforce simp: NewAccessToken_def Manager_issue_def bindE_def time_Now_def jwt_signs_def
        returnE_def split: option.splits)
  define ref where "ref = EncodeToString b64_url (map (ans_rand (w_env w (w_tick w + 3))) [0..<32])"
  have r: "NewRefreshToken X (tick (tick (tick w))) = (Inr (ref, HashRefreshToken X ref), tick (tick (tick (tick w))))"
    using c by (simp add: NewRefreshToken_def bindE_def rand_Read_def calm_def RefreshTokenBytes_def
        HashRefreshToken_def returnE_def ref_def numeral_3_eq_3 Let_def)
  let ?w5 = "tick (tick (tick (tick (tick w))))"
  let ?ns = "\<lparr>newsession_UserID = user_ID user, newsession_TokenHash = HashRefreshToken X ref,
     newsession_UserAgent = ua, newsession_IP = normalizeIP ip,
     newsession_ExpiresAt = ans_now (w_env w (w_tick w + 4)) + sint (cfg_RefreshTTL (as_cfg S))\<rparr>"
  have "ans_uuid (stmt_answer ?w5) = ans_uuid (w_env w (w_tick w + 5))"
    by (simp add: stmt_answer_def Let_def eval_nat_numeral)
  with env u have "\<exists>s d. sql_sessions_insert X ?ns (stmt_answer ?w5) (w_db w) = Inr (s, d)"
    by (intro sql_sessions_insert_succeeds) (simp_all add: login_env_def ref_def)
  then obtain s d where "sql_sessions_insert X ?ns (stmt_answer ?w5) (w_db w) = Inr (s, d)" by blast
  then have "SessionStore_Create X ?ns ?w5 = (Inr s, (tick ?w5)\<lparr>w_db := d\<rparr>)"
    using env c by (simp add: SessionStore_Create_def sql_calm login_env_def HashRefreshToken_def hex_text)
  with roles acc r show ?thesis
    by (simp add: AuthService_issueTokens_def bindE_def time_Now_def returnE_def eval_nat_numeral)
qed

lemma username_text: "username_ok s \<Longrightarrow> pg_text s"
proof -
  assume "username_ok s"
  then have w: "list_all (\<lambda>c. word_r (byte_of c)) s" by (simp add: username_ok_def)
  then have "CHR 0x00 \<notin> set s" by (auto simp: list_all_iff rune_class_defs)
  with w show ?thesis by (simp add: pg_text_ascii word_bytes_ascii)
qed

lemma find_by_username:
  assumes "users_ok X d" "u \<in> set (users d)"
  shows "find (\<lambda>v. pg_lower X (user_Username v) = pg_lower X (user_Username u)) (users d) = Some u"
proof -
  have "inj_on (\<lambda>v. pg_lower X (user_Username v)) (set (users d))"
    using assms(1) by (simp add: users_ok_def distinct_map)
  then show ?thesis using assms(2) by (intro find_unique) (auto dest: inj_onD)
qed

lemma Register_then_Login:
  assumes reg: "AuthService_Register X S username email password w = (Inr u, w1)"
    and ok: "db_ok X (w_db w)" and par: "as_hasher S = DefaultParams"
    and laws: "argon2_lawful X" "jwt_signs X"
    and env: "login_env X ua ip w2" "w_db w2 = w_db w1"
  shows "(\<exists>t w3. AuthService_Login X S username (TrimSpace password) ua ip w2 = (Inr t, w3) \<and> tok_User t = u) \<and>
    (\<exists>salt. PasswordHasher_Verify X password (user_PasswordHash u) =
       Inr (argon2_IDKey X password salt 3 65536 2 32 = argon2_IDKey X (TrimSpace password) salt 3 65536 2 32))"
proof -
  note R = Register_Inr [OF reg]
  have users1: "users (w_db w1) = users (w_db w) @ [u]" using R by blast
  from R obtain wh where "PasswordHasher_Hash X DefaultParams (TrimSpace password) w = (Inr (user_PasswordHash u), wh)"
    by (auto simp: par)
  from hash_and_verify [OF laws(1) this] have
    ver: "PasswordHasher_Verify X (TrimSpace password) (user_PasswordHash u) = Inr True"
    and salt: "\<exists>salt. PasswordHasher_Verify X password (user_PasswordHash u) =
       Inr (argon2_IDKey X password salt 3 65536 2 32 = argon2_IDKey X (TrimSpace password) salt 3 65536 2 32)"
    by blast+
  have "db_ok X (w_db w1)"
    using keeps_resultD [OF auth_service_keeps_schema(1) _ reg] ok by (simp add: on_db_def)
  then have uo: "users_ok X (w_db w2)" and "u \<in> set (users (w_db w2))"
    using env(2) users1 by (auto simp: db_ok_def)
  from find_by_username [OF this] have
    "find (\<lambda>v. pg_lower X (user_Username v) = pg_lower X (TrimSpace username)) (users (w_db w2)) = Some u"
    using R by simp
  moreover have "pg_text (TrimSpace username)"
    using R by (intro username_text) simp
  ultimately have look: "login_lookup X (TrimSpace username) w2 = (Inr u, tick w2)"
    using env(1) by (simp add: login_lookup_def handleE_def UserStore_GetByUsername_def scan_query_calm login_env_def)
  have "user_ID u \<in> user_ids (w_db w2)" using \<open>u \<in> set (users (w_db w2))\<close> by simp
  from issueTokens_succeeds [OF env(1) laws(2) this] obtain t w3 where
    t: "AuthService_issueTokens X S u ua ip (tick w2) = (Inr t, w3)" by blast
  moreover have "tok_User t = u" using issueTokens_Inr [OF t] by blast
  ultimately show ?thesis
    using look ver salt R by (auto simp: AuthService_Login_def bindE_def liftE_def)
qed

lemma Register_succeeds:
  assumes c: "calm w" and law: "argon2_lawful X" and S: "as_hasher S = DefaultParams" and ok: "roles_ok (w_db w)"
    and valid: "username_ok (TrimSpace username)" "MatchString emailRe (TrimSpace email)"
      "pg_text (TrimSpace email)" "8 \<le> length (TrimSpace password)"
    and free: "ans_uuid (w_env w (Suc (w_tick w))) \<notin> user_ids (w_db w)"
      "TrimSpace email \<notin> user_Email ` set (users (w_db w))"
      "pg_lower X (TrimSpace username) \<notin> (\<lambda>u. pg_lower X (user_Username u)) ` set (users (w_db w))"
  shows "\<exists>u w1. AuthService_Register X S username email password w = (Inr u, w1)"
proof -
  obtain h where h: "PasswordHasher_Hash X DefaultParams (TrimSpace password) w = (Inr h, tick w)" "pg_text h"
    using Hash_calm [OF c law] by blast
  let ?nu = "\<lparr>newuser_Username = TrimSpace username, newuser_Email = TrimSpace email,
     newuser_PasswordHash = h, newuser_DisplayName = TrimSpace username\<rparr>"
  have "ans_uuid (stmt_answer (tick w)) = ans_uuid (w_env w (Suc (w_tick w)))" by (simp add: stmt_answer_def Let_def)
  with free obtain u d where u: "sql_users_insert X ?nu (stmt_answer (tick w)) (w_db w) = Inr (u, d)"
    and uid: "user_ID u = ans_uuid (w_env w (Suc (w_tick w)))" "d = (w_db w)\<lparr>users := users (w_db w) @ [u]\<rparr>"
    by (auto simp: sql_users_insert_def Let_def)
  have create: "UserStore_Create X ?nu (tick w) = (Inr u, (tick (tick w))\<lparr>w_db := d\<rparr>)"
    using c u h(2) valid username_text by (simp add: UserStore_Create_def mapErrE_def handleE_def sql_calm)
  have "user_ID u \<notin> fst ` set (user_roles d)" using ok free(1) uid by (auto simp: roles_ok_def)
  then have "set (map (\<lambda>r. (user_ID u, role_ID r)) (filter q (roles d))) \<inter> set (user_roles d) = {}" for q
    by (auto simp: image_iff)
  then obtain n d2 where "sql_user_roles_insert (user_ID u) (\<lambda>r. role_Key r = RoleMember) (stmt_answer (tick (tick w))) d
      = Inr (n, d2)"
    using uid(2) by (auto simp: sql_user_roles_insert_def Let_def)
  then have "UserStore_AddMemberRole (user_ID u) ((tick (tick w))\<lparr>w_db := d\<rparr>)
      = (Inr (), (tick (tick (tick w)))\<lparr>w_db := d2\<rparr>)"
    using c by (simp add: UserStore_AddMemberRole_def UserStore_AssignRole_def bindE_def sql_calm returnE_def
        RoleMember_def pg_text_ascii)
  with h(1) create valid show ?thesis
    by (simp add: AuthService_Register_def S bindE_def mapErrE_def handleE_def usernameRe_iff returnE_def Let_def)
qed

text \<open>C20: Whoever registers can log in: after a registration that succeeded, a login with that
  username and the password without surrounding white space succeeds in every environment that
  answers, and returns the registered account. The password as it was typed is accepted exactly
  when argon2id gives it the key of the trimmed one: registration trims, login does not.\<close>

theorem register_then_login:
  assumes reg: "AuthService_Register X S username email password w = (Inr u, w1)"
    and ok: "db_ok X (w_db w)" and par: "as_hasher S = DefaultParams"
    and laws: "argon2_lawful X" "jwt_signs X"
    and env: "login_env X ua ip w2" "w_db w2 = w_db w1"
  shows "(\<exists>t w3. AuthService_Login X S username (TrimSpace password) ua ip w2 = (Inr t, w3) \<and> tok_User t = u) \<and>
    (\<exists>salt. PasswordHasher_Verify X password (user_PasswordHash u) =
       Inr (argon2_IDKey X password salt 3 65536 2 32 = argon2_IDKey X (TrimSpace password) salt 3 65536 2 32))"
  using assms by (rule Register_then_Login)

section \<open>A live token refreshes\<close>

lemma revoke_now_calm:
  assumes "calm w" "s \<in> set (user_sessions (w_db w))" "session_RevokedAt s = None"
  shows "\<exists>ss. revoke_now (session_ID s) w = (Inr (), (tick (tick w))\<lparr>w_db := (w_db w)\<lparr>user_sessions := ss\<rparr>\<rparr>) \<and>
    map session_ID ss = map session_ID (user_sessions (w_db w)) \<and>
    map session_TokenHash ss = map session_TokenHash (user_sessions (w_db w))"
proof -
  let ?p = "\<lambda>r. session_ID r = session_ID s \<and> session_RevokedAt r = None"
  let ?ss = "update_rows ?p (\<lambda>r. r\<lparr>session_RevokedAt := Some (pg_time (ans_now (w_env w (w_tick w))))\<rparr>) (user_sessions (w_db w))"
  have "count_rows ?p (user_sessions (w_db w)) \<noteq> 0" using assms(2,3) by (auto simp: count_rows_0_iff)
  then have "revoke_now (session_ID s) w = (Inr (), (tick (tick w))\<lparr>w_db := (w_db w)\<lparr>user_sessions := ?ss\<rparr>\<rparr>)"
    using assms(1) by (simp add: revoke_now_def bindE_def time_Now_def SessionStore_Revoke_def need_rows_def sql_calm
        sql_sessions_update_def returnE_def)
  then show ?thesis by (intro exI [of _ ?ss]) (simp add: map_update_rows)
qed

lemma Refresh_succeeds:
  assumes s: "s \<in> set (user_sessions (w_db w))" "live_session X token s"
      "session_active (ans_now (stmt_answer w)) s"
    and ok: "sessions_ok (w_db w)"
    and u: "find_key user_ID (session_UserID s) (users (w_db w)) = Some u" "user_Status u = UserStatusActive"
    and env: "calm w" "login_env X ua ip (tick (tick (tick w)))" "jwt_signs X"
  shows "\<exists>t w1. AuthService_Refresh X S token ua ip w = (Inr t, w1) \<and> tok_User t = u"
proof -
  let ?h = "HashRefreshToken X token"
  have "inj_on session_TokenHash (set (user_sessions (w_db w)))" using ok by (simp add: sessions_ok_def distinct_map)
  then have "find (\<lambda>r. session_TokenHash r = ?h \<and> session_active (ans_now (stmt_answer w)) r) (user_sessions (w_db w)) = Some s"
    using s by (intro find_unique) (auto simp: live_session_def elim!: inj_onD)
  then have g: "SessionStore_GetByTokenHash ?h w = (Inr s, tick w)"
    using env(1) by (simp add: SessionStore_GetByTokenHash_def scan_query_calm HashRefreshToken_def hex_text)
  have gu: "UserStore_GetByID (session_UserID s) (tick w) = (Inr u, tick (tick w))"
    using env(1) u(1) by (simp add: UserStore_GetByID_def scan_query_calm)
  have "session_RevokedAt s = None" using s(2) by (simp add: live_session_def)
  from revoke_now_calm [of "tick (tick w)" s] this env(1) s(1) obtain ss where
    rev: "revoke_now (session_ID s) (tick (tick w)) =
       (Inr (), (tick (tick (tick (tick w))))\<lparr>w_db := (w_db w)\<lparr>user_sessions := ss\<rparr>\<rparr>)"
    and m: "map session_ID ss = map session_ID (user_sessions (w_db w))"
      "map session_TokenHash ss = map session_TokenHash (user_sessions (w_db w))" by auto
  let ?w3 = "(tick (tick (tick w)))\<lparr>w_db := (w_db w)\<lparr>user_sessions := ss\<rparr>\<rparr>"
  have "session_ID ` set ss = session_ID ` set (user_sessions (w_db w))"
    "session_TokenHash ` set ss = session_TokenHash ` set (user_sessions (w_db w))" using m by (metis set_map)+
  with env(2) have "login_env X ua ip ?w3" by (simp add: login_env_def)
  moreover have "user_ID u \<in> user_ids (w_db ?w3)" using u(1) by (auto dest: userT.find_key_Some)
  ultimately obtain t w1 where iss: "AuthService_issueTokens X S u ua ip (tick ?w3) = (Inr t, w1)"
    using issueTokens_succeeds env(3) by blast
  have "AuthService_Refresh X S token ua ip w = (Inr t, w1)"
    using g gu rev iss u(2) by (simp add: AuthService_Refresh_def bindE_def mapErrE_def handleE_def)
  moreover have "tok_User t = u" using issueTokens_Inr [OF iss] by blast
  ultimately show ?thesis by blast
qed

text \<open>C19: A refresh token with an unrevoked and unexpired session of an active account is
  accepted in every environment that answers: the user gets new tokens.\<close>

theorem refresh_accepts:
  assumes s: "s \<in> set (user_sessions (w_db w))" "live_session X token s"
      "session_active (ans_now (stmt_answer w)) s"
    and ok: "sessions_ok (w_db w)"
    and u: "find_key user_ID (session_UserID s) (users (w_db w)) = Some u" "user_Status u = UserStatusActive"
    and env: "calm w" "login_env X ua ip (tick (tick (tick w)))" "jwt_signs X"
  shows "\<exists>t w1. AuthService_Refresh X S token ua ip w = (Inr t, w1) \<and> tok_User t = u"
  using assms by (rule Refresh_succeeds)

section \<open>A run of the service\<close>

text \<open>Registration and login on the sample tables; the witnesses use the states they lead to.\<close>

definition sample_service :: AuthService where
  "sample_service = NewAuthService (Load (\<lambda>_. []))"

definition registered :: world where
  "registered = sample_world (w_db (snd (AuthService_Register sample_ext sample_service
     ''carol'' ''carol@example.org'' ''sesame-street'' (sample_world sample_db))))"

definition logged_in :: world where
  "logged_in = sample_world (w_db (snd (AuthService_Login sample_ext sample_service
     ''carol'' ''sesame-street'' ''agent'' [] registered)))"

lemma sample_trims:
  "TrimSpace ''carol'' = ''carol''" "TrimSpace ''carol@example.org'' = ''carol@example.org''"
  "TrimSpace ''sesame-street'' = ''sesame-street''"
  by (rule TrimSpace_ascii_nospace, simp add: IsSpace_def)+

lemma sample_email: "MatchString emailRe ''carol@example.org''"
proof -
  have "runes ''carol@example.org'' = map byte_of ''carol'' @ 64 # map byte_of ''example'' @ 46 # map byte_of ''org''"
    by (subst runes_ascii) simp_all
  moreover have "list_all mail_r (map byte_of ''carol'' @ map byte_of ''example'' @ map byte_of ''org'')"
    by (simp add: mail_r_def)
  ultimately show ?thesis unfolding emailRe_iff by blast
qed

lemma sample_service_params: "as_hasher sample_service = DefaultParams"
  by (simp add: sample_service_def NewAuthService_def)

lemma sample_register:
  "\<exists>u. AuthService_Register sample_ext sample_service ''carol'' ''carol@example.org'' ''sesame-street''
     (sample_world sample_db) = (Inr u, snd (AuthService_Register sample_ext sample_service
     ''carol'' ''carol@example.org'' ''sesame-street'' (sample_world sample_db)))"
proof -
  have "username_ok ''carol''" by (simp add: username_ok_def rune_class_defs)
  moreover have "roles_ok sample_db" using sample_db_ok by (simp add: db_ok_def)
  moreover have "pg_text ''carol@example.org''" by (rule pg_text_ascii) simp_all
  ultimately have "\<exists>u w1. AuthService_Register sample_ext sample_service ''carol'' ''carol@example.org'' ''sesame-street''
     (sample_world sample_db) = (Inr u, w1)"
    using sample_email sample_argon2_lawful
    by (intro Register_succeeds [where X = sample_ext])
       (simp_all add: sample_trims sample_service_params, simp_all add: sample_db_def sample_rows sample_answer_def
         sample_ext_def ascii_lower_def lower_byte_def)
  then show ?thesis by (metis snd_conv)
qed

lemma registered_facts: "db_ok sample_ext (w_db registered) \<and> user_sessions (w_db registered) = []"
proof -
  obtain u where reg: "AuthService_Register sample_ext sample_service ''carol'' ''carol@example.org'' ''sesame-street''
     (sample_world sample_db) = (Inr u, snd (AuthService_Register sample_ext sample_service
     ''carol'' ''carol@example.org'' ''sesame-street'' (sample_world sample_db)))"
    using sample_register by blast
  have "db_ok sample_ext (w_db registered)"
    using keeps_resultD [OF auth_service_keeps_schema(1) _ reg] sample_db_ok
    by (simp add: registered_def on_db_def)
  moreover have "user_sessions (w_db registered) = user_sessions sample_db"
    using Register_Inr [OF reg] by (simp add: registered_def)
  moreover have "user_sessions sample_db = []" by (simp add: sample_db_def migrated_def)
  ultimately show ?thesis by simp
qed

lemma sample_login_env: "calm w \<Longrightarrow> user_sessions (w_db w) = [] \<Longrightarrow> login_env sample_ext ''agent'' [] w"
  by (simp add: login_env_def normalizeIP_def SplitHostPort_no_colon pg_text_ascii)

lemma sample_jwt_signs: "jwt_signs sample_ext"
  by (simp add: jwt_signs_def sample_ext_def)

lemma calm_runs [simp]: "calm registered" "calm logged_in"
  by (simp_all add: registered_def logged_in_def)

lemma sample_login:
  "\<exists>t. AuthService_Login sample_ext sample_service ''carol'' ''sesame-street'' ''agent'' [] registered =
     (Inr t, snd (AuthService_Login sample_ext sample_service ''carol'' ''sesame-street'' ''agent'' [] registered))"
proof -
  obtain u where reg: "AuthService_Register sample_ext sample_service ''carol'' ''carol@example.org'' ''sesame-street''
     (sample_world sample_db) = (Inr u, snd (AuthService_Register sample_ext sample_service
     ''carol'' ''carol@example.org'' ''sesame-street'' (sample_world sample_db)))"
    using sample_register by blast
  have "w_db registered = w_db (snd (AuthService_Register sample_ext sample_service
     ''carol'' ''carol@example.org'' ''sesame-street'' (sample_world sample_db)))" by (simp add: registered_def)
  then obtain t w3 where "AuthService_Login sample_ext sample_service ''carol'' ''sesame-street'' ''agent'' [] registered = (Inr t, w3)"
    using Register_then_Login [OF reg _ sample_service_params sample_argon2_lawful sample_jwt_signs,
        of "''agent''" "[]" registered] sample_db_ok sample_login_env [of registered] registered_facts
    by (auto simp: sample_trims)
  then show ?thesis by auto
qed

theorem register_then_login_witness:
  "\<exists>u t w1 w3. AuthService_Register sample_ext sample_service ''carol'' ''carol@example.org'' ''sesame-street''
     (sample_world sample_db) = (Inr u, w1) \<and>
   AuthService_Login sample_ext sample_service ''carol'' ''sesame-street'' ''agent'' [] registered = (Inr t, w3) \<and>
   tok_User t = u"
proof -
  obtain u where reg: "AuthService_Register sample_ext sample_service ''carol'' ''carol@example.org'' ''sesame-street''
     (sample_world sample_db) = (Inr u, snd (AuthService_Register sample_ext sample_service
     ''carol'' ''carol@example.org'' ''sesame-street'' (sample_world sample_db)))"
    using sample_register by blast
  have "w_db registered = w_db (snd (AuthService_Register sample_ext sample_service
     ''carol'' ''carol@example.org'' ''sesame-street'' (sample_world sample_db)))" by (simp add: registered_def)
  then show ?thesis
    using reg register_then_login [OF reg _ sample_service_params sample_argon2_lawful sample_jwt_signs,
        of "''agent''" "[]" registered] sample_db_ok sample_login_env [of registered] registered_facts
    by (auto simp: sample_trims)
qed

theorem login_sound_witness:
  "\<exists>t w1. AuthService_Login sample_ext sample_service ''carol'' ''sesame-street'' ''agent'' [] registered = (Inr t, w1) \<and>
     tok_User t \<in> set (users (w_db registered)) \<and>
     PasswordHasher_Verify sample_ext ''sesame-street'' (user_PasswordHash (tok_User t)) = Inr True"
  using sample_login login_sound [of sample_ext sample_service "''carol''" "''sesame-street''" "''agent''" "[]" registered]
  by blast

definition sample_session :: Session where
  "sample_session = \<lparr>session_ID = 51, session_UserID = 1, session_TokenHash = HashRefreshToken sample_ext ''token'',
     session_UserAgent = [], session_IP = None, session_CreatedAt = 0, session_ExpiresAt = 1000000000,
     session_RevokedAt = None\<rparr>"

definition session_world :: world where
  "session_world = sample_world (sample_db\<lparr>user_sessions := [sample_session]\<rparr>)"

lemma sample_token_fresh:
  "HashRefreshToken sample_ext (EncodeToString b64_url (map (ans_rand (sample_answer n)) [0..<32]))
     \<noteq> HashRefreshToken sample_ext ''token''"
proof -
  let ?e = "EncodeToString b64_url (map (ans_rand (sample_answer n)) [0..<32])"
  have "byte_of (hd ?e) = 81"
    by (simp add: EncodeToString_def sample_answer_def b64_url_def b64_std_def upt_conv_Cons)
  moreover have "?e \<noteq> []" using length_sextets [of "map byte_of (map (ans_rand (sample_answer n)) [0..<32])"]
    by (auto simp: EncodeToString_def)
  ultimately have "byte_of (hd (take 32 (?e @ replicate 32 CHR ''.''))) = 81" by (cases ?e) auto
  then have "take 32 (?e @ replicate 32 CHR ''.'') \<noteq> take 32 (''token'' @ replicate 32 CHR ''.'')" by auto
  then show ?thesis by (simp add: HashRefreshToken_def hex_inj sample_ext_def del: take_append)
qed

lemma session_world_facts:
  "calm session_world" "sessions_ok (w_db session_world)" "sample_session \<in> set (user_sessions (w_db session_world))"
  "live_session sample_ext ''token'' sample_session"
  "session_active (ans_now (stmt_answer session_world)) sample_session"
  "find_key user_ID (session_UserID sample_session) (users (w_db session_world)) = Some alice"
  "user_Status alice = UserStatusActive"
  "login_env sample_ext ''agent'' [] (tick (tick (tick session_world)))"
  using sample_token_fresh
  by (simp_all add: session_world_def sample_session_def sessions_ok_def sample_db_def live_session_def
      session_active_def stmt_answer_def sample_answer_def pg_time_def find_key_def alice_def UserStatusActive_def
      login_env_def normalizeIP_def SplitHostPort_no_colon pg_text_ascii)

theorem refresh_accepts_witness:
  "\<exists>t w1. AuthService_Refresh sample_ext sample_service ''token'' ''agent'' [] session_world = (Inr t, w1) \<and> tok_User t = alice"
  by (rule refresh_accepts [OF session_world_facts(3,4,5,2,6,7,1,8) sample_jwt_signs])

lemma sample_refresh:
  "\<exists>t w1. AuthService_Refresh sample_ext sample_service ''token'' ''agent'' [] session_world = (Inr t, w1)"
  using Refresh_succeeds [OF session_world_facts(3,4,5,2,6,7,1,8) sample_jwt_signs] by blast

theorem refresh_rotates_witness:
  "\<exists>t w1 old. AuthService_Refresh sample_ext sample_service ''token'' ''agent'' [] session_world = (Inr t, w1) \<and>
     live_session sample_ext ''token'' old \<and> user_ID (tok_User t) = session_UserID old"
  using sample_refresh refresh_rotates [of sample_ext sample_service "''token''" "''agent''" "[]" session_world] by blast

theorem refresh_token_single_use_witness:
  "\<exists>t w1. AuthService_Refresh sample_ext sample_service ''token'' ''agent'' [] session_world = (Inr t, w1) \<and>
     spent sample_ext ''token'' (w_db w1) \<and>
     (\<exists>e. AuthService_Refresh sample_ext sample_service ''token'' ''agent'' [] w1 = (Inl e, tick w1))"
proof -
  obtain t w1 where run: "AuthService_Refresh sample_ext sample_service ''token'' ''agent'' [] session_world = (Inr t, w1)"
    using sample_refresh by blast
  moreover from run have "spent sample_ext ''token'' (w_db w1)"
    using refresh_token_single_use [of sample_ext sample_service "''token''" "''agent''" "[]" session_world t w1]
      session_world_facts(2) by blast
  moreover from this have "\<exists>e. AuthService_Refresh sample_ext sample_service ''token'' ''agent'' [] w1 = (Inl e, tick w1)"
    using refresh_token_single_use [of sample_ext sample_service "''token''" "''agent''" "[]" w1] by blast
  ultimately show ?thesis by blast
qed

theorem logout_spends_token_witness:
  "spent sample_ext ''token'' (w_db (snd (AuthService_Logout sample_ext ''token'' session_world)))"
proof -
  have "\<exists>s \<in> set (user_sessions (w_db session_world)). session_TokenHash s = HashRefreshToken sample_ext ''token''
           \<and> session_active (ans_now (stmt_answer session_world)) s"
    using session_world_facts(3,4,5) by (auto simp: live_session_def)
  then show ?thesis using logout_spends_token [of sample_ext "''token''" session_world] session_world_facts(1,2) by simp
qed

end
