(* ===== verification/Forum_Store.thy ===== *)
theory Forum_Store
  imports Database
begin

text \<open>
  \<^verbatim>\<open>internal/store/group.go\<close>, \<^verbatim>\<open>thread.go\<close>, \<^verbatim>\<open>post.go\<close> and \<^verbatim>\<open>attachment.go\<close>: the forum's
  content, with the cascades that the migrations attach to deletions, and the proof that
  every statement keeps the schema's constraints.
\<close>

section \<open>Cascades\<close>

text \<open>\<^verbatim>\<open>attachments.post_id .. ON DELETE SET NULL\<close>,
  \<^verbatim>\<open>posts.thread_id .. ON DELETE CASCADE\<close>, \<^verbatim>\<open>threads.group_id .. ON DELETE CASCADE\<close>,
  \<^verbatim>\<open>groups.parent_id .. ON DELETE SET NULL\<close>.\<close>

definition delete_posts :: "(Post \<Rightarrow> bool) \<Rightarrow> db \<Rightarrow> db" where
  "delete_posts p d =
     (let gone = map post_ID (filter p (posts d))
      in d\<lparr>posts := delete_rows p (posts d),
           attachments := update_rows (\<lambda>a. \<exists>i \<in> set gone. att_PostID a = Some i)
                            (\<lambda>a. a\<lparr>att_PostID := None\<rparr>) (attachments d)\<rparr>)"

definition delete_threads :: "(Thread \<Rightarrow> bool) \<Rightarrow> db \<Rightarrow> db" where
  "delete_threads p d =
     (let gone = map thread_ID (filter p (threads d))
      in delete_posts (\<lambda>q. post_ThreadID q \<in> set gone) (d\<lparr>threads := delete_rows p (threads d)\<rparr>))"

definition delete_group :: "uuid \<Rightarrow> db \<Rightarrow> db" where
  "delete_group i d =
     delete_threads (\<lambda>t. thread_GroupID t = i)
       (d\<lparr>groups := update_rows (\<lambda>g. group_ParentID g = Some i) (\<lambda>g. g\<lparr>group_ParentID := None\<rparr>)
                       (delete_rows (\<lambda>g. group_ID g = i) (groups d))\<rparr>)"

section \<open>Groups\<close>

definition sql_groups_insert :: "NewGroup \<Rightarrow> Group stmt" where
  "sql_groups_insert g a d =
     (if \<not> int4 (newgroup_SortOrder g) then Inl NumericOutOfRange
      else if ans_uuid a \<in> group_ids d \<or> newgroup_Name g \<in> group_Name ` set (groups d)
              \<or> newgroup_Slug g \<in> group_Slug ` set (groups d)
      then Inl UniqueViolation
      else if (case newgroup_ParentID g of None \<Rightarrow> False
               | Some p \<Rightarrow> p \<noteq> ans_uuid a \<and> p \<notin> group_ids d) then Inl ForeignKeyViolation
      else let r = \<lparr>group_ID = ans_uuid a, group_Name = newgroup_Name g, group_Slug = newgroup_Slug g,
                    group_Description = newgroup_Description g, group_ParentID = newgroup_ParentID g,
                    group_SortOrder = newgroup_SortOrder g, group_CreatedAt = ans_now a,
                    group_UpdatedAt = ans_now a\<rparr>
           in Inr (r, d\<lparr>groups := groups d @ [r]\<rparr>))"

definition newgroup_texts :: "NewGroup \<Rightarrow> string list" where
  "newgroup_texts g = [newgroup_Name g, newgroup_Slug g, newgroup_Description g]"

text \<open>The scanners turn the absence of a row into \<^verbatim>\<open>ErrNotFound\<close>.\<close>

definition scanGroup :: "Group option dbop \<Rightarrow> Group dbop" where
  [simp]: "scanGroup row = scan_row row"

definition GroupStore_Create :: "NewGroup \<Rightarrow> Group dbop" where
  "GroupStore_Create g =
     mapErrE (\<lambda>e. if e = PgErr UniqueViolation then StoreErrConflict else e)
       (sql (newgroup_texts g) (sql_groups_insert g))"

definition GroupStore_List :: "ext \<Rightarrow> Group list dbop" where
  "GroupStore_List X =
     query [] (\<lambda>a d. sort_key (\<lambda>g. (group_SortOrder g, pg_collate X (group_Name g))) (groups d))"

definition GroupStore_GetByID :: "uuid \<Rightarrow> Group dbop" where
  "GroupStore_GetByID i = scanGroup (query [] (\<lambda>a d. find_key group_ID i (groups d)))"

definition GroupStore_GetBySlug :: "string \<Rightarrow> Group dbop" where
  "GroupStore_GetBySlug slug =
     scanGroup (query [slug] (\<lambda>a d. find (\<lambda>g. group_Slug g = slug) (groups d)))"

definition sql_groups_update :: "uuid \<Rightarrow> NewGroup \<Rightarrow> Group option stmt" where
  "sql_groups_update i g a d =
     (if \<not> int4 (newgroup_SortOrder g) then Inl NumericOutOfRange
      else if i \<notin> group_ids d then Inr (None, d)
      else if (\<exists>h \<in> set (groups d). group_ID h \<noteq> i \<and>
                (group_Name h = newgroup_Name g \<or> group_Slug h = newgroup_Slug g))
      then Inl UniqueViolation
      else if (case newgroup_ParentID g of None \<Rightarrow> False | Some p \<Rightarrow> p \<notin> group_ids d)
      then Inl ForeignKeyViolation
      else let gs = update_rows (\<lambda>h. group_ID h = i)
                      (\<lambda>h. h\<lparr>group_Name := newgroup_Name g, group_Slug := newgroup_Slug g,
                             group_Description := newgroup_Description g,
                             group_ParentID := newgroup_ParentID g,
                             group_SortOrder := newgroup_SortOrder g,
                             group_UpdatedAt := ans_now a\<rparr>) (groups d)
           in Inr (find_key group_ID i gs, d\<lparr>groups := gs\<rparr>))"

definition GroupStore_Update :: "uuid \<Rightarrow> NewGroup \<Rightarrow> Group dbop" where
  "GroupStore_Update i g = scanGroup (sql (newgroup_texts g) (sql_groups_update i g))"

definition sql_groups_delete :: "uuid \<Rightarrow> nat stmt" where
  "sql_groups_delete i a d =
     (let n = count_rows (\<lambda>g. group_ID g = i) (groups d)
      in Inr (n, if n = 0 then d else delete_group i d))"

definition GroupStore_Delete :: "uuid \<Rightarrow> unit dbop" where
  "GroupStore_Delete i = need_rows (sql [] (sql_groups_delete i))"

section \<open>Posts\<close>

definition sql_posts_insert :: "NewPost \<Rightarrow> Post stmt" where
  "sql_posts_insert np a d =
     (if ans_uuid a \<in> post_ids d then Inl UniqueViolation
      else if newpost_ThreadID np \<notin> thread_ids d \<or> newpost_AuthorID np \<notin> user_ids d
      then Inl ForeignKeyViolation
      else let p = \<lparr>post_ID = ans_uuid a, post_ThreadID = newpost_ThreadID np,
                    post_AuthorID = newpost_AuthorID np, post_Body = newpost_Body np,
                    post_EditedByID = None, post_EditedAt = None,
                    post_CreatedAt = ans_now a, post_UpdatedAt = ans_now a\<rparr>
           in Inr (p, d\<lparr>posts := posts d @ [p]\<rparr>))"

definition PostStore_Create :: "NewPost \<Rightarrow> Post dbop" where
  "PostStore_Create np = sql [newpost_Body np] (sql_posts_insert np)"

text \<open>\<^verbatim>\<open>JOIN users u ON u.id = p.author_id\<close>; \<^verbatim>\<open>display_name\<close> is never null, so the
  \<^verbatim>\<open>COALESCE\<close> is the display name.\<close>

definition post_summary :: "db \<Rightarrow> Post \<Rightarrow> PostSummary option" where
  "post_summary d p =
     map_option (\<lambda>u. \<lparr>ps_Post = p, ps_AuthorUsername = user_Username u,
                      ps_AuthorDisplay = user_DisplayName u\<rparr>)
       (find_key user_ID (post_AuthorID p) (users d))"

definition thread_posts :: "answer \<Rightarrow> db \<Rightarrow> uuid \<Rightarrow> PostSummary list" where
  "thread_posts a d tid =
     order_by (\<lambda>s. post_CreatedAt (ps_Post s)) (\<lambda>s. ans_rank a (post_ID (ps_Post s)))
       (List.map_filter (post_summary d) (filter (\<lambda>p. post_ThreadID p = tid) (posts d)))"

definition PostStore_ListByThread :: "uuid \<Rightarrow> nat \<Rightarrow> nat \<Rightarrow> (PostSummary list \<times> nat) dbop" where
  "PostStore_ListByThread tid limit offset =
     bindE (query [] (\<lambda>a d. page limit offset (thread_posts a d tid))) (\<lambda>items.
     bindE (query [] (\<lambda>a d. count_rows (\<lambda>p. post_ThreadID p = tid) (posts d))) (\<lambda>total.
     returnE (items, total)))"

definition scanPost :: "Post option dbop \<Rightarrow> Post dbop" where
  [simp]: "scanPost row = scan_row row"

definition scanPostSummary :: "PostSummary option dbop \<Rightarrow> PostSummary dbop" where
  [simp]: "scanPostSummary row = scan_row row"

definition PostStore_GetByID :: "uuid \<Rightarrow> Post dbop" where
  "PostStore_GetByID i = scanPost (query [] (\<lambda>a d. find_key post_ID i (posts d)))"

definition PostStore_SummaryByID :: "uuid \<Rightarrow> PostSummary dbop" where
  "PostStore_SummaryByID i =
     scanPostSummary (query [] (\<lambda>a d. Option.bind (find_key post_ID i (posts d)) (post_summary d)))"

definition sql_posts_update :: "uuid \<Rightarrow> string \<Rightarrow> uuid \<Rightarrow> Post option stmt" where
  "sql_posts_update i body editorID a d =
     (if i \<in> post_ids d \<and> editorID \<notin> user_ids d then Inl ForeignKeyViolation
      else let ps = update_rows (\<lambda>p. post_ID p = i)
                      (\<lambda>p. p\<lparr>post_Body := body, post_EditedByID := Some editorID,
                             post_EditedAt := Some (ans_now a), post_UpdatedAt := ans_now a\<rparr>) (posts d)
           in Inr (find_key post_ID i ps, d\<lparr>posts := ps\<rparr>))"

definition PostStore_UpdateBody :: "uuid \<Rightarrow> string \<Rightarrow> uuid \<Rightarrow> Post dbop" where
  "PostStore_UpdateBody i body editorID = scanPost (sql [body] (sql_posts_update i body editorID))"

definition sql_posts_delete :: "uuid \<Rightarrow> nat stmt" where
  "sql_posts_delete i a d =
     Inr (count_rows (\<lambda>p. post_ID p = i) (posts d), delete_posts (\<lambda>p. post_ID p = i) d)"

definition PostStore_Delete :: "uuid \<Rightarrow> unit dbop" where
  "PostStore_Delete i = need_rows (sql [] (sql_posts_delete i))"

section \<open>Threads\<close>

definition sql_threads_insert :: "NewThread \<Rightarrow> Thread stmt" where
  "sql_threads_insert nt a d =
     (if ans_uuid a \<in> thread_ids d then Inl UniqueViolation
      else if newthread_GroupID nt \<notin> group_ids d \<or> newthread_AuthorID nt \<notin> user_ids d
      then Inl ForeignKeyViolation
      else let t = \<lparr>thread_ID = ans_uuid a, thread_GroupID = newthread_GroupID nt,
                    thread_AuthorID = newthread_AuthorID nt, thread_Title = newthread_Title nt,
                    thread_Pinned = False, thread_Locked = False, thread_Views = 0,
                    thread_PostCount = 0, thread_LastPostAt = None,
                    thread_CreatedAt = ans_now a, thread_UpdatedAt = ans_now a\<rparr>
           in Inr (t, d\<lparr>threads := threads d @ [t]\<rparr>))"

text \<open>\<^verbatim>\<open>UPDATE threads SET .. WHERE id = $1\<close>; the new row may depend on other tables, and the
  \<^verbatim>\<open>integer\<close> columns are range-checked.\<close>

definition sql_threads_update ::
    "uuid \<Rightarrow> (answer \<Rightarrow> db \<Rightarrow> Thread \<Rightarrow> Thread) \<Rightarrow> Thread option stmt" where
  "sql_threads_update i f a d =
     (let ts = update_rows (\<lambda>t. thread_ID t = i) (f a d) (threads d)
      in if \<exists>t \<in> set ts. \<not> int4 (thread_Views t) \<or> \<not> int4 (thread_PostCount t)
         then Inl NumericOutOfRange
         else Inr (find_key thread_ID i ts, d\<lparr>threads := ts\<rparr>))"

definition bump_post :: "time \<Rightarrow> answer \<Rightarrow> db \<Rightarrow> Thread \<Rightarrow> Thread" where
  "bump_post at a d t =
     t\<lparr>thread_PostCount := thread_PostCount t + 1, thread_LastPostAt := Some (pg_time at),
       thread_UpdatedAt := ans_now a\<rparr>"

definition ThreadStore_Create :: "NewThread \<Rightarrow> NewPost \<Rightarrow> Thread dbop" where
  "ThreadStore_Create t first =
     with_tx
      (bindE (sql [newthread_Title t] (sql_threads_insert t)) (\<lambda>th.
       bindE (sql [newpost_Body first] (sql_posts_insert (first\<lparr>newpost_ThreadID := thread_ID th\<rparr>))) (\<lambda>p.
       bindE (sql [] (sql_threads_update (thread_ID th) (bump_post (post_CreatedAt p)))) (\<lambda>_.
       returnE (th\<lparr>thread_PostCount := 1, thread_LastPostAt := Some (post_CreatedAt p)\<rparr>)))))"

definition thread_summary :: "db \<Rightarrow> Thread \<Rightarrow> ThreadSummary option" where
  "thread_summary d t =
     map_option (\<lambda>u. \<lparr>ts_Thread = t, ts_AuthorUsername = user_Username u,
                      ts_AuthorDisplay = user_DisplayName u\<rparr>)
       (find_key user_ID (thread_AuthorID t) (users d))"

text \<open>\<^verbatim>\<open>ORDER BY t.pinned DESC, t.last_post_at DESC NULLS LAST, t.created_at DESC\<close>.\<close>

definition activity_key :: "Thread \<Rightarrow> nat \<times> (nat \<times> int) \<times> int" where
  "activity_key t =
     (if thread_Pinned t then 0 else 1,
      case thread_LastPostAt t of Some at \<Rightarrow> (0, - at) | None \<Rightarrow> (1, 0),
      - thread_CreatedAt t)"

definition group_threads :: "answer \<Rightarrow> db \<Rightarrow> uuid \<Rightarrow> ThreadSummary list" where
  "group_threads a d gid =
     order_by (\<lambda>s. activity_key (ts_Thread s)) (\<lambda>s. ans_rank a (thread_ID (ts_Thread s)))
       (List.map_filter (thread_summary d) (filter (\<lambda>t. thread_GroupID t = gid) (threads d)))"

definition ThreadStore_ListByGroup :: "uuid \<Rightarrow> nat \<Rightarrow> nat \<Rightarrow> (ThreadSummary list \<times> nat) dbop" where
  "ThreadStore_ListByGroup gid limit offset =
     bindE (query [] (\<lambda>a d. page limit offset (group_threads a d gid))) (\<lambda>items.
     bindE (query [] (\<lambda>a d. count_rows (\<lambda>t. thread_GroupID t = gid) (threads d))) (\<lambda>total.
     returnE (items, total)))"

definition scanThread :: "Thread option dbop \<Rightarrow> Thread dbop" where
  [simp]: "scanThread row = scan_row row"

definition scanThreadSummary :: "ThreadSummary option dbop \<Rightarrow> ThreadSummary dbop" where
  [simp]: "scanThreadSummary row = scan_row row"

definition ThreadStore_GetByID :: "uuid \<Rightarrow> Thread dbop" where
  "ThreadStore_GetByID i = scanThread (query [] (\<lambda>a d. find_key thread_ID i (threads d)))"

definition ThreadStore_SummaryByID :: "uuid \<Rightarrow> ThreadSummary dbop" where
  "ThreadStore_SummaryByID i =
     scanThreadSummary (query [] (\<lambda>a d. Option.bind (find_key thread_ID i (threads d)) (thread_summary d)))"

definition ThreadStore_Update :: "uuid \<Rightarrow> string \<Rightarrow> bool \<Rightarrow> bool \<Rightarrow> Thread dbop" where
  "ThreadStore_Update i title pinned locked =
     scanThread (sql [title] (sql_threads_update i
       (\<lambda>a d t. t\<lparr>thread_Title := title, thread_Pinned := pinned, thread_Locked := locked,
                  thread_UpdatedAt := ans_now a\<rparr>)))"

definition sql_threads_delete :: "uuid \<Rightarrow> nat stmt" where
  "sql_threads_delete i a d =
     Inr (count_rows (\<lambda>t. thread_ID t = i) (threads d), delete_threads (\<lambda>t. thread_ID t = i) d)"

definition ThreadStore_Delete :: "uuid \<Rightarrow> unit dbop" where
  "ThreadStore_Delete i = need_rows (sql [] (sql_threads_delete i))"

definition ThreadStore_IncrementViews :: "uuid \<Rightarrow> unit dbop" where
  "ThreadStore_IncrementViews i =
     bindE (sql [] (sql_threads_update i (\<lambda>a d t. t\<lparr>thread_Views := thread_Views t + 1\<rparr>)))
       (\<lambda>_. returnE ())"

definition ThreadStore_CountByGroup :: "uuid \<Rightarrow> nat dbop" where
  "ThreadStore_CountByGroup gid =
     query [] (\<lambda>a d. count_rows (\<lambda>t. thread_GroupID t = gid) (threads d))"

definition ThreadStore_BumpPost :: "uuid \<Rightarrow> time \<Rightarrow> unit dbop" where
  "ThreadStore_BumpPost tid lastPostAt =
     bindE (sql [] (sql_threads_update tid (bump_post lastPostAt))) (\<lambda>_. returnE ())"

text \<open>\<^verbatim>\<open>max(created_at)\<close>: null on no rows.\<close>

definition latest :: "time list \<Rightarrow> time option" where
  "latest ts = (case ts of [] \<Rightarrow> None | t # r \<Rightarrow> Some (fold max r t))"

definition thread_times :: "db \<Rightarrow> uuid \<Rightarrow> time list" where
  "thread_times d tid = map post_CreatedAt (filter (\<lambda>p. post_ThreadID p = tid) (posts d))"

definition recalc_stats :: "answer \<Rightarrow> db \<Rightarrow> Thread \<Rightarrow> Thread" where
  "recalc_stats a d t =
     t\<lparr>thread_PostCount := int (count_rows (\<lambda>p. post_ThreadID p = thread_ID t) (posts d)),
       thread_LastPostAt := latest (thread_times d (thread_ID t)),
       thread_UpdatedAt := ans_now a\<rparr>"

definition ThreadStore_RecalcStats :: "uuid \<Rightarrow> unit dbop" where
  "ThreadStore_RecalcStats tid =
     bindE (sql [] (sql_threads_update tid recalc_stats)) (\<lambda>_. returnE ())"

section \<open>Attachments\<close>

definition sql_attachments_insert :: "NewAttachment \<Rightarrow> Attachment stmt" where
  "sql_attachments_insert na a d =
     (if \<not> int8 (newatt_SizeBytes na) then Inl NumericOutOfRange
      else if ans_uuid a \<in> att_ID ` set (attachments d)
              \<or> newatt_StorageKey na \<in> att_StorageKey ` set (attachments d)
      then Inl UniqueViolation
      else if newatt_OwnerID na \<notin> user_ids d
              \<or> (case newatt_PostID na of None \<Rightarrow> False | Some p \<Rightarrow> p \<notin> post_ids d)
      then Inl ForeignKeyViolation
      else let r = \<lparr>att_ID = ans_uuid a, att_OwnerID = newatt_OwnerID na, att_PostID = newatt_PostID na,
                    att_Filename = newatt_Filename na, att_ContentType = newatt_ContentType na,
                    att_SizeBytes = newatt_SizeBytes na, att_StorageKey = newatt_StorageKey na,
                    att_PublicURL = newatt_PublicURL na, att_CreatedAt = ans_now a,
                    att_UpdatedAt = ans_now a\<rparr>
           in Inr (r, d\<lparr>attachments := attachments d @ [r]\<rparr>))"

definition AttachmentStore_Create :: "NewAttachment \<Rightarrow> Attachment dbop" where
  "AttachmentStore_Create na =
     sql [newatt_Filename na, newatt_ContentType na, newatt_StorageKey na, newatt_PublicURL na]
       (sql_attachments_insert na)"

definition scanAttachment :: "Attachment option dbop \<Rightarrow> Attachment dbop" where
  [simp]: "scanAttachment row = scan_row row"

definition AttachmentStore_GetByID :: "uuid \<Rightarrow> Attachment dbop" where
  "AttachmentStore_GetByID i = scanAttachment (query [] (\<lambda>a d. find_key att_ID i (attachments d)))"

definition AttachmentStore_List :: "nat \<Rightarrow> nat \<Rightarrow> (AttachmentWithOwner list \<times> nat) dbop" where
  "AttachmentStore_List limit offset =
     bindE (query [] (\<lambda>a d. length (attachments d))) (\<lambda>total.
     bindE (query [] (\<lambda>a d.
       page limit offset
         (List.map_filter
           (\<lambda>r. map_option (\<lambda>u. \<lparr>awo_Attachment = r, awo_OwnerUsername = user_Username u\<rparr>)
                  (find_key user_ID (att_OwnerID r) (users d)))
           (sort_key (\<lambda>r. (- att_CreatedAt r, att_ID r)) (attachments d))))) (\<lambda>items.
     returnE (items, total)))"

definition sql_attachments_delete :: "uuid \<Rightarrow> nat stmt" where
  "sql_attachments_delete i a d =
     Inr (count_rows (\<lambda>r. att_ID r = i) (attachments d),
          d\<lparr>attachments := delete_rows (\<lambda>r. att_ID r = i) (attachments d)\<rparr>)"

definition AttachmentStore_Delete :: "uuid \<Rightarrow> unit dbop" where
  "AttachmentStore_Delete i = need_rows (sql [] (sql_attachments_delete i))"

lemmas scan_defs =
  scanGroup_def scanPost_def scanPostSummary_def scanThread_def scanThreadSummary_def scanAttachment_def

lemmas forum_store_defs =
  GroupStore_Create_def GroupStore_List_def GroupStore_GetByID_def GroupStore_GetBySlug_def
  GroupStore_Update_def GroupStore_Delete_def PostStore_Create_def PostStore_ListByThread_def
  PostStore_GetByID_def PostStore_SummaryByID_def PostStore_UpdateBody_def PostStore_Delete_def
  ThreadStore_Create_def ThreadStore_ListByGroup_def ThreadStore_GetByID_def
  ThreadStore_SummaryByID_def ThreadStore_Update_def ThreadStore_Delete_def
  ThreadStore_IncrementViews_def ThreadStore_CountByGroup_def ThreadStore_BumpPost_def
  ThreadStore_RecalcStats_def AttachmentStore_Create_def AttachmentStore_GetByID_def
  AttachmentStore_List_def AttachmentStore_Delete_def scan_defs

section \<open>The statements keep the schema\<close>

lemma attachments_ok_delete_posts:
  assumes ok: "attachments_ok d"
  shows "attachments_ok (delete_posts p d)"
proof -
  let ?hit = "\<lambda>a. \<exists>i \<in> set (map post_ID (filter p (posts d))). att_PostID a = Some i"
  let ?as = "update_rows ?hit (\<lambda>a. a\<lparr>att_PostID := None\<rparr>) (attachments d)"
  have ref: "i \<in> post_ID ` {q \<in> set (posts d). \<not> p q}"
    if "a \<in> set (attachments d)" "\<not> ?hit a" "att_PostID a = Some i" for a i
    using that ok by (intro image_survives) (auto simp: attachments_ok_def)
  have "\<forall>a \<in> set ?as. att_OwnerID a \<in> user_ids d \<and>
      set_option (att_PostID a) \<subseteq> post_ID ` {q \<in> set (posts d). \<not> p q} \<and> int8 (att_SizeBytes a)"
  proof
    fix a assume "a \<in> set ?as"
    then show "att_OwnerID a \<in> user_ids d \<and>
      set_option (att_PostID a) \<subseteq> post_ID ` {q \<in> set (posts d). \<not> p q} \<and> int8 (att_SizeBytes a)"
    proof (cases rule: in_update_rowsE)
      case (changed r)
      with ok show ?thesis by (simp add: attachments_ok_def)
    next
      case same
      with ok ref [OF same] show ?thesis by (auto simp: attachments_ok_def)
    qed
  qed
  moreover have "map att_ID ?as = map att_ID (attachments d)"
      "map att_StorageKey ?as = map att_StorageKey (attachments d)"
    by (simp_all add: map_update_rows)
  ultimately show ?thesis
    using ok by (simp add: attachments_ok_def delete_posts_def Let_def)
qed

lemma posts_ok_delete_posts:
  "distinct (map post_ID (posts d)) \<Longrightarrow>
     (\<And>q. q \<in> set (posts d) \<Longrightarrow> \<not> p q \<Longrightarrow> post_ThreadID q \<in> thread_ids d \<and>
        post_AuthorID q \<in> user_ids d \<and> set_option (post_EditedByID q) \<subseteq> user_ids d) \<Longrightarrow>
     posts_ok (delete_posts p d)"
  by (simp add: posts_ok_def delete_posts_def Let_def distinct_map_delete_rows)

lemma delete_posts_frame [simp]:
  "users_ok X (delete_posts p d) = users_ok X d" "roles_ok (delete_posts p d) = roles_ok d"
  "sessions_ok (delete_posts p d) = sessions_ok d" "settings_ok (delete_posts p d) = settings_ok d"
  "groups_ok (delete_posts p d) = groups_ok d" "threads_ok (delete_posts p d) = threads_ok d"
  "messages_ok (delete_posts p d) = messages_ok d"
  "notifications_ok (delete_posts p d) = notifications_ok d"
  by (simp_all add: delete_posts_def Let_def)

lemma delete_posts_ok:
  assumes "db_ok X d"
  shows "db_ok X (delete_posts p d)"
proof -
  have "posts_ok (delete_posts p d)"
    using assms by (intro posts_ok_delete_posts) (auto simp: db_ok_def posts_ok_def)
  with assms show ?thesis by (simp add: db_ok_def attachments_ok_delete_posts)
qed

text \<open>Deleting threads is safe as soon as the threads that stay satisfy their constraints; the
  posts of the others go with them.\<close>

lemma delete_threads_ok:
  assumes ok: "users_ok X d" "roles_ok d" "sessions_ok d" "settings_ok d" "groups_ok d"
      "posts_ok d" "attachments_ok d" "messages_ok d" "notifications_ok d"
    and dist: "distinct (map thread_ID (threads d))"
    and stay: "\<And>t. t \<in> set (threads d) \<Longrightarrow> \<not> p t \<Longrightarrow> thread_GroupID t \<in> group_ids d \<and>
       thread_AuthorID t \<in> user_ids d \<and> int4 (thread_Views t) \<and> int4 (thread_PostCount t)"
  shows "db_ok X (delete_threads p d)"
proof -
  let ?gone = "map thread_ID (filter p (threads d))"
  let ?d1 = "d\<lparr>threads := delete_rows p (threads d)\<rparr>"
  have "posts_ok (delete_posts (\<lambda>q. post_ThreadID q \<in> set ?gone) ?d1)"
  proof (rule posts_ok_delete_posts)
    show "distinct (map post_ID (posts ?d1))" using ok(6) by (simp add: posts_ok_def)
    fix q assume q: "q \<in> set (posts ?d1)" "\<not> post_ThreadID q \<in> set ?gone"
    then have "post_ThreadID q \<in> thread_ID ` {t \<in> set (threads d). \<not> p t}"
      using ok(6) by (intro image_survives) (simp add: posts_ok_def, force)
    with q ok(6) show "post_ThreadID q \<in> thread_ids ?d1 \<and> post_AuthorID q \<in> user_ids ?d1 \<and>
        set_option (post_EditedByID q) \<subseteq> user_ids ?d1"
      by (simp add: posts_ok_def)
  qed
  moreover have "attachments_ok (delete_posts (\<lambda>q. post_ThreadID q \<in> set ?gone) ?d1)"
    using ok(7) by (intro attachments_ok_delete_posts) simp
  moreover have "threads_ok ?d1"
    using dist stay by (auto simp: threads_ok_def distinct_map_delete_rows)
  ultimately show ?thesis using ok by (simp add: db_ok_def delete_threads_def Let_def)
qed

lemma delete_group_ok:
  assumes ok: "db_ok X d"
  shows "db_ok X (delete_group i d)"
proof -
  let ?gs = "update_rows (\<lambda>g. group_ParentID g = Some i) (\<lambda>g. g\<lparr>group_ParentID := None\<rparr>)
               (delete_rows (\<lambda>g. group_ID g = i) (groups d))"
  let ?d1 = "d\<lparr>groups := ?gs\<rparr>"
  have m: "map group_ID ?gs = map group_ID (delete_rows (\<lambda>g. group_ID g = i) (groups d))"
    "map group_Name ?gs = map group_Name (delete_rows (\<lambda>g. group_ID g = i) (groups d))"
    "map group_Slug ?gs = map group_Slug (delete_rows (\<lambda>g. group_ID g = i) (groups d))"
    by (simp_all add: map_update_rows)
  have "group_ID ` set ?gs = group_ID ` set (delete_rows (\<lambda>g. group_ID g = i) (groups d))"
    using m(1) by (metis set_map)
  then have ids: "group_ID ` set ?gs = group_ids d - {i}" by auto
  have g: "groups_ok d" using ok by (simp add: db_ok_def)
  have "\<forall>g \<in> set ?gs. set_option (group_ParentID g) \<subseteq> group_ids d - {i} \<and> int4 (group_SortOrder g)"
    using g by (auto simp: groups_ok_def elim!: in_update_rowsE)
  then have "groups_ok ?d1"
    using g by (simp add: groups_ok_def ids m distinct_map_delete_rows)
  then show ?thesis
    unfolding delete_group_def using ok ids
    by (intro delete_threads_ok) (simp_all add: db_ok_def threads_ok_def)
qed

lemma sql_groups_insert_ok: "stmt_keeps (db_ok X) (sql_groups_insert g)"
proof (rule stmt_keepsI)
  fix a d x d' assume ok: "db_ok X d" and r: "sql_groups_insert g a d = Inr (x, d')"
  then have d': "d' = d\<lparr>groups := groups d @ [x]\<rparr>" and "int4 (group_SortOrder x)"
    and "group_ID x \<notin> group_ids d" "group_Name x \<notin> group_Name ` set (groups d)"
    and "group_Slug x \<notin> group_Slug ` set (groups d)"
    and "set_option (group_ParentID x) \<subseteq> insert (group_ID x) (group_ids d)"
    by (auto simp: sql_groups_insert_def Let_def split: if_splits option.splits)
  with ok have "groups_ok d'" by (auto simp: db_ok_def groups_ok_def)
  moreover from ok have "threads_ok d'" by (auto simp: d' db_ok_def threads_ok_def)
  ultimately show "db_ok X d'" using ok by (simp add: d' db_ok_def)
qed

lemma sql_groups_update_ok: "stmt_keeps (db_ok X) (sql_groups_update i g)"
proof (rule stmt_keepsI)
  fix a d x d' assume ok: "db_ok X d" and r: "sql_groups_update i g a d = Inr (x, d')"
  show "db_ok X d'"
  proof (cases "i \<in> group_ids d")
    case False
    with r have "d' = d" by (auto simp: sql_groups_update_def split: if_splits)
    with ok show ?thesis by simp
  next
    case True
    let ?f = "\<lambda>h. h\<lparr>group_Name := newgroup_Name g, group_Slug := newgroup_Slug g,
      group_Description := newgroup_Description g, group_ParentID := newgroup_ParentID g,
      group_SortOrder := newgroup_SortOrder g, group_UpdatedAt := ans_now a\<rparr>"
    let ?gs = "update_rows (\<lambda>h. group_ID h = i) ?f (groups d)"
    from r True have d': "d' = d\<lparr>groups := ?gs\<rparr>"
      and free: "\<forall>h \<in> set (groups d). group_ID h \<noteq> i \<longrightarrow>
        group_Name h \<noteq> newgroup_Name g \<and> group_Slug h \<noteq> newgroup_Slug g"
      and par: "set_option (newgroup_ParentID g) \<subseteq> group_ids d" "int4 (newgroup_SortOrder g)"
      by (auto simp: sql_groups_update_def Let_def split: if_splits option.splits)
    have g: "groups_ok d" using ok by (simp add: db_ok_def)
    have mid: "map group_ID ?gs = map group_ID (groups d)" by (simp add: map_update_rows)
    then have ids: "group_ID ` set ?gs = group_ids d" by (metis set_map)
    have "distinct (map group_Name ?gs)"
      using g free by (intro distinct_map_update_one [where v = "newgroup_Name g"])
        (auto simp: groups_ok_def)
    moreover have "distinct (map group_Slug ?gs)"
      using g free by (intro distinct_map_update_one [where v = "newgroup_Slug g"])
        (auto simp: groups_ok_def)
    moreover have "\<forall>h \<in> set ?gs. set_option (group_ParentID h) \<subseteq> group_ids d \<and> int4 (group_SortOrder h)"
      using g par by (auto simp: groups_ok_def elim!: in_update_rowsE)
    ultimately have "groups_ok d'" using g mid ids by (simp add: d' groups_ok_def)
    moreover have "threads_ok d'" using ok ids by (simp add: d' db_ok_def threads_ok_def)
    ultimately show ?thesis using ok by (simp add: d' db_ok_def)
  qed
qed

lemma sql_groups_delete_ok: "stmt_keeps (db_ok X) (sql_groups_delete i)"
  by (rule stmt_keepsI) (auto simp: sql_groups_delete_def Let_def delete_group_ok split: if_splits)

lemma sql_posts_insert_ok: "stmt_keeps (db_ok X) (sql_posts_insert np)"
proof (rule stmt_keepsI)
  fix a d x d' assume ok: "db_ok X d" and r: "sql_posts_insert np a d = Inr (x, d')"
  then have d': "d' = d\<lparr>posts := posts d @ [x]\<rparr>"
    and "post_ID x \<notin> post_ids d" "post_ThreadID x \<in> thread_ids d" "post_AuthorID x \<in> user_ids d"
    and "post_EditedByID x = None"
    by (auto simp: sql_posts_insert_def Let_def split: if_splits)
  with ok have "posts_ok d'" by (simp add: db_ok_def posts_ok_def)
  moreover from ok have "attachments_ok d'" by (auto simp: d' db_ok_def attachments_ok_def)
  ultimately show "db_ok X d'" using ok by (simp add: d' db_ok_def)
qed

lemma sql_posts_update_ok: "stmt_keeps (db_ok X) (sql_posts_update i body e)"
proof (rule stmt_keepsI)
  fix a d x d' assume ok: "db_ok X d" and r: "sql_posts_update i body e a d = Inr (x, d')"
  let ?ps = "update_rows (\<lambda>p. post_ID p = i) (\<lambda>p. p\<lparr>post_Body := body, post_EditedByID := Some e,
     post_EditedAt := Some (ans_now a), post_UpdatedAt := ans_now a\<rparr>) (posts d)"
  from r have d': "d' = d\<lparr>posts := ?ps\<rparr>" and e: "i \<in> post_ids d \<Longrightarrow> e \<in> user_ids d"
    by (auto simp: sql_posts_update_def Let_def split: if_splits)
  have m: "map post_ID ?ps = map post_ID (posts d)" by (simp add: map_update_rows)
  then have ids: "post_ID ` set ?ps = post_ids d" by (metis set_map)
  have "\<forall>p \<in> set ?ps. post_ThreadID p \<in> thread_ids d \<and> post_AuthorID p \<in> user_ids d \<and>
        set_option (post_EditedByID p) \<subseteq> user_ids d"
    using ok e by (auto simp: db_ok_def posts_ok_def elim!: in_update_rowsE)
  with ok m ids show "db_ok X d'" by (simp add: d' db_ok_def posts_ok_def attachments_ok_def)
qed

lemma sql_threads_insert_ok: "stmt_keeps (db_ok X) (sql_threads_insert nt)"
proof (rule stmt_keepsI)
  fix a d x d' assume ok: "db_ok X d" and r: "sql_threads_insert nt a d = Inr (x, d')"
  then have d': "d' = d\<lparr>threads := threads d @ [x]\<rparr>" and "thread_ID x \<notin> thread_ids d"
    and "thread_GroupID x \<in> group_ids d" "thread_AuthorID x \<in> user_ids d"
    and "int4 (thread_Views x)" "int4 (thread_PostCount x)"
    by (auto simp: sql_threads_insert_def Let_def int4_def split: if_splits)
  with ok have "threads_ok d'" by (simp add: db_ok_def threads_ok_def)
  moreover from ok have "posts_ok d'" by (auto simp: d' db_ok_def posts_ok_def)
  ultimately show "db_ok X d'" using ok by (simp add: d' db_ok_def)
qed

lemma sql_threads_update_ok:
  assumes f: "\<And>a d t. thread_ID (f a d t) = thread_ID t"
      "\<And>a d t. thread_GroupID (f a d t) = thread_GroupID t"
      "\<And>a d t. thread_AuthorID (f a d t) = thread_AuthorID t"
  shows "stmt_keeps (db_ok X) (sql_threads_update i f)"
proof (rule stmt_keepsI)
  fix a d x d' assume ok: "db_ok X d" and r: "sql_threads_update i f a d = Inr (x, d')"
  let ?ts = "update_rows (\<lambda>t. thread_ID t = i) (f a d) (threads d)"
  from r have d': "d' = d\<lparr>threads := ?ts\<rparr>"
    and rng: "\<forall>t \<in> set ?ts. int4 (thread_Views t) \<and> int4 (thread_PostCount t)"
    by (auto simp: sql_threads_update_def Let_def split: if_splits)
  have m: "map thread_ID ?ts = map thread_ID (threads d)" by (simp add: map_update_rows f)
  then have ids: "thread_ID ` set ?ts = thread_ids d" by (metis set_map)
  have "\<forall>t \<in> set ?ts. thread_GroupID t \<in> group_ids d \<and> thread_AuthorID t \<in> user_ids d"
    using ok by (auto simp: db_ok_def threads_ok_def f elim!: in_update_rowsE)
  with ok rng m ids show "db_ok X d'" by (simp add: d' db_ok_def threads_ok_def posts_ok_def)
qed

lemma sql_deletes_ok:
  "stmt_keeps (db_ok X) (sql_posts_delete i)"
  "stmt_keeps (db_ok X) (sql_threads_delete i)"
  by (auto simp: stmt_keeps_def sql_posts_delete_def sql_threads_delete_def delete_posts_ok
           intro!: delete_threads_ok) (simp_all add: db_ok_def threads_ok_def)

lemma sql_attachments_insert_ok: "stmt_keeps (db_ok X) (sql_attachments_insert na)"
proof (rule stmt_keepsI)
  fix a d x d' assume ok: "db_ok X d" and r: "sql_attachments_insert na a d = Inr (x, d')"
  then have "d' = d\<lparr>attachments := attachments d @ [x]\<rparr>"
    and "att_ID x \<notin> att_ID ` set (attachments d)" "int8 (att_SizeBytes x)"
    and "att_StorageKey x \<notin> att_StorageKey ` set (attachments d)"
    and "att_OwnerID x \<in> user_ids d" "set_option (att_PostID x) \<subseteq> post_ids d"
    by (auto simp: sql_attachments_insert_def Let_def split: if_splits option.splits)
  with ok show "db_ok X d'" by (simp add: db_ok_def attachments_ok_def)
qed

lemma sql_attachments_delete_ok: "stmt_keeps (db_ok X) (sql_attachments_delete i)"
  by (rule stmt_keepsI)
     (auto simp: sql_attachments_delete_def db_ok_def attachments_ok_def distinct_map_delete_rows)

lemmas forum_stmts_ok =
  sql_groups_insert_ok sql_groups_update_ok sql_groups_delete_ok sql_posts_insert_ok
  sql_posts_update_ok sql_threads_insert_ok sql_threads_update_ok sql_deletes_ok
  sql_attachments_insert_ok sql_attachments_delete_ok

lemma forum_store_keeps_schema [keeps_intros]:
  "keeps (on_db (db_ok X)) (GroupStore_Create g)"
  "keeps (on_db (db_ok X)) (GroupStore_List X)"
  "keeps (on_db (db_ok X)) (GroupStore_GetByID i)"
  "keeps (on_db (db_ok X)) (GroupStore_GetBySlug sl)"
  "keeps (on_db (db_ok X)) (GroupStore_Update i g)"
  "keeps (on_db (db_ok X)) (GroupStore_Delete i)"
  "keeps (on_db (db_ok X)) (PostStore_Create np)"
  "keeps (on_db (db_ok X)) (PostStore_ListByThread i l k)"
  "keeps (on_db (db_ok X)) (PostStore_GetByID i)"
  "keeps (on_db (db_ok X)) (PostStore_SummaryByID i)"
  "keeps (on_db (db_ok X)) (PostStore_UpdateBody i sl e)"
  "keeps (on_db (db_ok X)) (PostStore_Delete i)"
  "keeps (on_db (db_ok X)) (ThreadStore_Create nt np)"
  "keeps (on_db (db_ok X)) (ThreadStore_ListByGroup i l k)"
  "keeps (on_db (db_ok X)) (ThreadStore_GetByID i)"
  "keeps (on_db (db_ok X)) (ThreadStore_SummaryByID i)"
  "keeps (on_db (db_ok X)) (ThreadStore_Update i sl b1 b2)"
  "keeps (on_db (db_ok X)) (ThreadStore_Delete i)"
  "keeps (on_db (db_ok X)) (ThreadStore_IncrementViews i)"
  "keeps (on_db (db_ok X)) (ThreadStore_CountByGroup i)"
  "keeps (on_db (db_ok X)) (ThreadStore_BumpPost i at)"
  "keeps (on_db (db_ok X)) (ThreadStore_RecalcStats i)"
  "keeps (on_db (db_ok X)) (AttachmentStore_Create na)"
  "keeps (on_db (db_ok X)) (AttachmentStore_GetByID i)"
  "keeps (on_db (db_ok X)) (AttachmentStore_List l k)"
  "keeps (on_db (db_ok X)) (AttachmentStore_Delete i)"
  unfolding forum_store_defs
  by (intro keeps_intros forum_stmts_ok; simp add: bump_post_def recalc_stats_def)+

lemma forum_store_keeps_calm [keeps_intros]:
  "keeps calm (GroupStore_Create g)" "keeps calm (GroupStore_List X)"
  "keeps calm (GroupStore_GetByID i)" "keeps calm (GroupStore_GetBySlug sl)"
  "keeps calm (GroupStore_Update i g)" "keeps calm (GroupStore_Delete i)"
  "keeps calm (PostStore_Create np)" "keeps calm (PostStore_ListByThread i l k)"
  "keeps calm (PostStore_GetByID i)" "keeps calm (PostStore_SummaryByID i)"
  "keeps calm (PostStore_UpdateBody i sl e)" "keeps calm (PostStore_Delete i)"
  "keeps calm (ThreadStore_Create nt np)" "keeps calm (ThreadStore_ListByGroup i l k)"
  "keeps calm (ThreadStore_GetByID i)" "keeps calm (ThreadStore_SummaryByID i)"
  "keeps calm (ThreadStore_Update i sl b1 b2)" "keeps calm (ThreadStore_Delete i)"
  "keeps calm (ThreadStore_IncrementViews i)" "keeps calm (ThreadStore_CountByGroup i)"
  "keeps calm (ThreadStore_BumpPost i at)" "keeps calm (ThreadStore_RecalcStats i)"
  "keeps calm (AttachmentStore_Create na)" "keeps calm (AttachmentStore_GetByID i)"
  "keeps calm (AttachmentStore_List l k)" "keeps calm (AttachmentStore_Delete i)"
  unfolding forum_store_defs by (intro keeps_intros)+

end
