(* ===== verification/Http_Core.thy ===== *)
theory Http_Core
  imports Auth_Service Forum_Service Samples
begin

text \<open>
  The shared parts of \<^verbatim>\<open>internal/handlers\<close>: requests and responses, the JSON decoder's effect on
  the request structs, \<^verbatim>\<open>core.go\<close> (paths, pagination, the mapping of service errors),
  \<^verbatim>\<open>response.go\<close>, and the middleware of \<^verbatim>\<open>middleware.go\<close> with the user it puts into the context.

  A request is what \<^verbatim>\<open>net/http\<close> hands to a handler: headers, query parameters and form values by
  name (empty when absent), the first JSON value of the body (none when it is not JSON), and the
  uploaded file. A handler is an operation that returns a response or panics. A handler may return
  without having written anything (\<open>unwritten\<close>); the middleware of the router or \<^verbatim>\<open>net/http\<close> then
  decides the status.
\<close>

section \<open>Requests and responses\<close>

record form_file =
  ff_Filename :: string
  ff_ContentType :: string
  ff_Size :: int

record request =
  rq_Authorization :: string
  rq_Query :: "string \<Rightarrow> string"
  rq_Body :: "json option"
  rq_File :: "form_file option"
  rq_FormValue :: "string \<Rightarrow> string"
  rq_Cookie :: "string \<Rightarrow> string option"
  rq_UserAgent :: string
  rq_RemoteAddr :: string
  rq_Connection :: string
  rq_Param :: "string \<Rightarrow> string"

record cookie =
  ck_Name :: string
  ck_Value :: string
  ck_MaxAge :: int
  ck_HttpOnly :: bool
  ck_Secure :: bool

datatype payload =
    NoBody
  | ErrorBody string string
  | StatusBody string
  | UserBody User
  | LoginBody string User "string list"
  | AccessTokenBody string
  | ProfileBody User "string list"
  | GroupList "Group list"
  | GroupBody Group
  | ThreadBody ThreadSummary
  | ThreadPage "ThreadSummary list" nat nat nat
  | PostBody PostSummary
  | PostPage "PostSummary list" nat nat nat
  | UserPage "UserWithRoles list" nat nat nat
  | UserRolesBody UserWithRoles
  | SettingsBody string
  | MediaPage "AttachmentWithOwner list" nat nat nat
  | InstallStatusBody bool "string option"
  | InstalledBody string User
  | AttachmentBody Attachment
  | ObjectBody string
  | PartialObject string
  | PlainText
  | MessageBody PrivateMessage
  | MessagePage "PMConversation list" nat nat nat
  | CountsBody nat nat
  | NotificationPage "Notification list" nat nat nat
  | OnlineBody "uuid set"
  | PresenceBody uuid bool
  | VersionBody string int

record response =
  resp_Status :: nat
  resp_Cookie :: "cookie option"
  resp_Body :: payload
  resp_Upgrade :: "uuid option"

definition writeJSON :: "nat \<Rightarrow> payload \<Rightarrow> response" where
  "writeJSON status v = \<lparr>resp_Status = status, resp_Cookie = None, resp_Body = v, resp_Upgrade = None\<rparr>"

definition writeError :: "nat \<Rightarrow> string \<Rightarrow> string \<Rightarrow> response" where
  "writeError status code message = writeJSON status (ErrorBody code message)"

definition writeServerError :: "error \<Rightarrow> response" where
  "writeServerError err = writeError 500 ''internal_error'' ''an unexpected error occurred''"

definition no_content :: response where
  "no_content = writeJSON 204 NoBody"

definition recovered :: response where
  "recovered = writeJSON 500 NoBody"

text \<open>The response of a handler that has not written anything yet; its status is still open.\<close>

definition unwritten :: response where
  "unwritten = writeJSON 0 NoBody"

lemma resp_simps [simp]:
  "resp_Status (writeJSON n b) = n" "resp_Body (writeJSON n b) = b" "resp_Cookie (writeJSON n b) = None"
  "resp_Upgrade (writeJSON n b) = None" "resp_Status (writeError n c m) = n" "resp_Body (writeError n c m) = ErrorBody c m"
  "resp_Status (writeServerError e) = 500" "resp_Status no_content = 204" "resp_Status recovered = 500"
  "resp_Status unwritten = 0" "resp_Upgrade unwritten = None" "resp_Body unwritten = NoBody"
  by (simp_all add: writeJSON_def writeError_def writeServerError_def no_content_def recovered_def unwritten_def)

text \<open>\<^verbatim>\<open>x, err := svc.Op(..); if err != nil { bad(err); return }; good(x)\<close>. A panic is not an error
  value and goes on.\<close>

type_synonym handler = "response dbop"

definition respond :: "'a dbop \<Rightarrow> (error \<Rightarrow> response) \<Rightarrow> ('a \<Rightarrow> response) \<Rightarrow> handler" where
  "respond m bad good =
     handleE (bindE m (\<lambda>x. returnE (good x))) (\<lambda>e. if e = Panic then throwE Panic else returnE (bad e))"

lemma keeps_respond [keeps_intros]: "keeps I m \<Longrightarrow> keeps I (respond m bad good)"
  unfolding respond_def by (intro keeps_intros)

lemma respond_Inr: "m w = (Inr x, w1) \<Longrightarrow> respond m bad good w = (Inr (good x), w1)"
  by (simp add: respond_def op_defs)

lemma respond_Inl: "m w = (Inl e, w1) \<Longrightarrow> respond m bad good w = (if e = Panic then Inl Panic else Inr (bad e), w1)"
  by (simp add: respond_def op_defs)

lemma respond_cases:
  assumes "respond m bad good w = (r, w1)"
  obtains (good) x where "m w = (Inr x, w1)" "r = Inr (good x)"
  | (bad) e where "m w = (Inl e, w1)" "r = (if e = Panic then Inl Panic else Inr (bad e))"
  using assms
proof (cases "m w")
  case (Pair q w2)
  with assms that show ?thesis
    by (cases q) (auto simp: respond_Inr respond_Inl)
qed

section \<open>JSON request bodies\<close>

text \<open>
  \<^verbatim>\<open>encoding/json\<close> matches the members of an object to struct fields up to case folding (which
  also folds the Kelvin sign and the long s), handles them in order, so that the last one wins,
  leaves a field alone for \<^verbatim>\<open>null\<close> and sets a pointer to nil, and reports a value of another
  type as an error. A body that is \<^verbatim>\<open>null\<close> sets nothing.
\<close>

definition fold_rune :: "nat \<Rightarrow> nat" where
  "fold_rune r = (if 65 \<le> r \<and> r \<le> 90 then r + 32 else if r = 8490 then 107 else if r = 383 then 115 else r)"

definition EqualFold :: "string \<Rightarrow> string \<Rightarrow> bool" where
  "EqualFold s t \<longleftrightarrow> map fold_rune (runes s) = map fold_rune (runes t)"

definition decodeJSON :: "request \<Rightarrow> (string \<times> json) list option" where
  "decodeJSON r =
     (case rq_Body r of Some (JObject kvs) \<Rightarrow> Some kvs | Some JNull \<Rightarrow> Some [] | _ \<Rightarrow> None)"

fun set_field :: "('a \<Rightarrow> json \<Rightarrow> 'a option) \<Rightarrow> string \<Rightarrow> 'a \<Rightarrow> (string \<times> json) list \<Rightarrow> 'a option" where
  "set_field p name v [] = Some v"
| "set_field p name v ((k, j) # kvs) =
     (if EqualFold k name
      then (case p v j of None \<Rightarrow> None | Some v1 \<Rightarrow> set_field p name v1 kvs)
      else set_field p name v kvs)"

definition json_str :: "string \<Rightarrow> json \<Rightarrow> string option" where
  "json_str v j = (case j of JString s \<Rightarrow> Some s | JNull \<Rightarrow> Some v | _ \<Rightarrow> None)"

definition json_int :: "int \<Rightarrow> json \<Rightarrow> int option" where
  "json_int v j = (case j of JNumber n \<Rightarrow> if int8 n then Some n else None | JNull \<Rightarrow> Some v | _ \<Rightarrow> None)"

definition json_uuid :: "ext \<Rightarrow> uuid \<Rightarrow> json \<Rightarrow> uuid option" where
  "json_uuid X v j = (case j of JString s \<Rightarrow> uuid_Parse X s | JNull \<Rightarrow> Some v | _ \<Rightarrow> None)"

definition json_ptr :: "(json \<Rightarrow> 'a option) \<Rightarrow> 'a option \<Rightarrow> json \<Rightarrow> 'a option option" where
  "json_ptr p v j = (if j = JNull then Some None else map_option Some (p j))"

definition json_bool :: "json \<Rightarrow> bool option" where
  "json_bool j = (case j of JBool b \<Rightarrow> Some b | _ \<Rightarrow> None)"

definition json_strings :: "json \<Rightarrow> string list option" where
  "json_strings j = (case j of JArray js \<Rightarrow> those (map (json_str []) js) | _ \<Rightarrow> None)"

abbreviation str_field :: "string \<Rightarrow> (string \<times> json) list \<Rightarrow> string option" where
  "str_field name \<equiv> set_field json_str name []"

section \<open>\<^verbatim>\<open>core.go\<close>\<close>

definition pathID :: "ext \<Rightarrow> request \<Rightarrow> string \<Rightarrow> uuid option" where
  "pathID X r key = uuid_Parse X (rq_Param r key)"

definition pagination :: "request \<Rightarrow> nat \<times> nat" where
  "pagination r =
     (let l = rq_Query r ''limit''; k = rq_Query r ''offset'';
          limit = (if l \<noteq> [] then (case Atoi l of Some n \<Rightarrow> if 1 \<le> n \<and> n \<le> 100 then nat n else 20 | None \<Rightarrow> 20) else 20);
          offset = (if k \<noteq> [] then (case Atoi k of Some n \<Rightarrow> if 0 \<le> n then nat n else 0 | None \<Rightarrow> 0) else 0)
      in (limit, offset))"

definition writeCoreError :: "error \<Rightarrow> response" where
  "writeCoreError err =
     (if err = ErrInvalidInput then writeError 400 ''validation_error'' ''Invalid request''
      else if err = ErrForbidden then writeError 403 ''forbidden'' ''Forbidden''
      else if err = ErrGroupNotFound then writeError 404 ''group_not_found'' ''Group not found''
      else if err = ErrThreadNotFound then writeError 404 ''thread_not_found'' ''Thread not found''
      else if err = ErrPostNotFound then writeError 404 ''post_not_found'' ''Post not found''
      else if err = ErrNotFound then writeError 404 ''not_found'' ''Resource not found''
      else if err = ErrUserNotFound then writeError 404 ''user_not_found'' ''User not found''
      else if err = ErrAttachmentNotFound then writeError 404 ''attachment_not_found'' ''Attachment not found''
      else if err = ErrFileTooLarge then writeError 413 ''payload_too_large'' ''File is too large''
      else if err = ErrUnsupportedType then writeError 415 ''unsupported_content_type'' ''File type is not supported''
      else if err = ErrThreadLocked then writeError 409 ''thread_locked'' ''Thread is locked''
      else if err = ErrNotEmpty then writeError 409 ''not_empty'' ''Resource is not empty''
      else if err = ErrConflict then writeError 409 ''conflict'' ''Resource already exists''
      else writeServerError err)"

section \<open>The user of a request\<close>

definition WithUser :: "UserInfo \<Rightarrow> UserInfo option" where
  "WithUser info = Some info"

definition FromContext :: "UserInfo option \<Rightarrow> UserInfo option" where
  "FromContext ctx = ctx"

definition authUser :: "UserInfo option \<Rightarrow> UserInfo option" where
  "authUser ctx = FromContext ctx"

definition unauthorized :: response where
  "unauthorized = writeError 401 ''unauthorized'' ''authentication required''"

definition bearerToken :: "string \<Rightarrow> string" where
  "bearerToken header =
     (if length header > length ''Bearer '' \<and> EqualFold (take (length ''Bearer '') header) ''Bearer ''
      then TrimSpace (drop (length ''Bearer '') header) else [])"

definition invalid_token :: response where
  "invalid_token = writeError 401 ''invalid_token'' ''access token is invalid or expired''"

definition RequireAuth :: "ext \<Rightarrow> Manager \<Rightarrow> (UserInfo option \<Rightarrow> handler) \<Rightarrow> request \<Rightarrow> handler" where
  "RequireAuth X jwtm nxt r =
     (let raw = bearerToken (rq_Authorization r) in
      if raw = [] then returnE unauthorized
      else
        bindE (Manager_Parse X jwtm raw) (\<lambda>res.
        case res of
          None \<Rightarrow> returnE invalid_token
        | Some claims \<Rightarrow>
            (case uuid_Parse X (claims_Subject claims) of
               None \<Rightarrow> returnE invalid_token
             | Some userID \<Rightarrow>
                 nxt (WithUser \<lparr>ui_ID = userID, ui_Username = claims_Username claims, ui_Roles = claims_Roles claims\<rparr>))))"

definition RequireRole :: "string list \<Rightarrow> (UserInfo option \<Rightarrow> handler) \<Rightarrow> UserInfo option \<Rightarrow> handler" where
  "RequireRole wanted nxt ctx =
     (case authUser ctx of
        None \<Rightarrow> returnE unauthorized
      | Some ui \<Rightarrow>
          if hasRole (ui_Roles ui) wanted then nxt ctx
          else returnE (writeError 403 ''forbidden'' ''insufficient permissions''))"

text \<open>A handler that needs the user of the context.\<close>

definition with_user :: "UserInfo option \<Rightarrow> (UserInfo \<Rightarrow> handler) \<Rightarrow> handler" where
  "with_user ctx f = (case authUser ctx of None \<Rightarrow> returnE unauthorized | Some u \<Rightarrow> f u)"

lemma keeps_with_user [keeps_intros]: "(\<And>u. keeps I (f u)) \<Longrightarrow> keeps I (with_user ctx f)"
  unfolding with_user_def by (intro keeps_intros)

lemma with_user_Some [simp]: "with_user (Some u) f = f u"
  by (simp add: with_user_def authUser_def FromContext_def)

section \<open>Properties\<close>

text \<open>C40: Pagination is bounded whatever the client sends: the limit is between 1 and 100 and the
  offset is a non-negative 64-bit integer; a parameter that is a number in range is used as it
  is, anything else gives the defaults 20 and 0.\<close>

theorem pagination_bounds:
  "1 \<le> fst (pagination r) \<and> fst (pagination r) \<le> 100 \<and> snd (pagination r) < 2 ^ 63 \<and>
   (n \<in> {1..100} \<longrightarrow> rq_Query r ''limit'' = dec_digits n \<longrightarrow> fst (pagination r) = n) \<and>
   (m < 2 ^ 63 \<longrightarrow> rq_Query r ''offset'' = dec_digits m \<longrightarrow> snd (pagination r) = m) \<and>
   (Atoi (rq_Query r ''limit'') = None \<longrightarrow> fst (pagination r) = 20) \<and>
   (Atoi (rq_Query r ''offset'') = None \<longrightarrow> snd (pagination r) = 0)"
proof -
  have range: "v < 2 ^ 63" if "Atoi s = Some v" for s v
    using that by (auto simp: Atoi_def Let_def split: if_splits)
  have "snd (pagination r) < 2 ^ 63"
    using range by (auto simp: pagination_def Let_def nat_less_iff split: option.splits)
  moreover have "1 \<le> fst (pagination r)" "fst (pagination r) \<le> 100"
    by (auto simp: pagination_def Let_def split: option.splits)
  moreover have "fst (pagination r) = n" if "n \<in> {1..100}" "rq_Query r ''limit'' = dec_digits n"
    using that Atoi_dec_digits [of n] by (simp add: pagination_def Let_def)
  moreover have "snd (pagination r) = m" if "m < 2 ^ 63" "rq_Query r ''offset'' = dec_digits m"
    using that Atoi_dec_digits [of m] by (simp add: pagination_def Let_def)
  ultimately show ?thesis by (simp add: pagination_def Let_def)
qed

text \<open>Service errors get stable responses: each sentinel error of the services is answered with
  its own client status, no internal error is ever shown, and two errors with the same response
  are both internal. In particular the store's own \<^verbatim>\<open>ErrNotFound\<close>, when a service lets it
  through, becomes a 500.\<close>

lemma core_errors_stable:
  "resp_Status (writeCoreError e) \<in> {400, 403, 404, 409, 413, 415, 500} \<and>
   (writeCoreError e1 = writeCoreError e2 \<and> e1 \<noteq> e2 \<longrightarrow>
      resp_Body (writeCoreError e1) = ErrorBody ''internal_error'' ''an unexpected error occurred'') \<and>
   resp_Status (writeCoreError (PgErr pe)) = 500 \<and> resp_Status (writeCoreError StoreErrNotFound) = 500 \<and>
   resp_Status (writeCoreError StoreErrConflict) = 500"
proof (intro conjI impI)
  show "resp_Status (writeCoreError e) \<in> {400, 403, 404, 409, 413, 415, 500}"
    by (simp add: writeCoreError_def)
  assume a: "writeCoreError e1 = writeCoreError e2 \<and> e1 \<noteq> e2"
  then have "resp_Body (writeCoreError e1) = resp_Body (writeCoreError e2)" "e1 \<noteq> e2" by auto
  then show "resp_Body (writeCoreError e1) = ErrorBody ''internal_error'' ''an unexpected error occurred''"
    unfolding writeCoreError_def
    by (simp split: if_split_asm add: writeServerError_def)
qed (simp_all add: writeCoreError_def)

section \<open>Access tokens\<close>

lemma bearer_prefix: "tok \<noteq> [] \<Longrightarrow> bearerToken (''Bearer '' @ tok) = TrimSpace tok"
  by (simp add: bearerToken_def EqualFold_def)

lemma issued_token_parses:
  assumes laws: "jwt_lawful X" "uuid_lawful X" and issue: "NewAccessToken X m uid name rs w = (Inr tok, w1)"
    and texts: "valid_utf8 name" "list_all valid_utf8 rs" "valid_utf8 (mgr_issuer m)" "uid < 2 ^ 128"
    and t0: "t0 = ans_now (w_env w (w_tick w))"
  shows "jwt_ParseWithClaims X (key_func m) (mgr_issuer m) [''HS256''] t tok =
    (if NewNumericDate t0 * 1000000000 \<le> t \<and> t < NewNumericDate (t0 + mgr_ttl m) * 1000000000
     then Some (new_claims X m uid name rs (mgr_ttl m) t0, True) else None)"
proof -
  let ?c = "new_claims X m uid name rs (mgr_ttl m) t0"
  have "ascii (uuid_String X uid)" using laws(2) texts(4) by (simp add: uuid_lawful_def)
  then have "claims_text ?c" using texts by (simp add: claims_text_def new_claims_def valid_utf8_ascii)
  moreover have "key_func m (SigningMethodHMAC ''HS256'') = Some (mgr_secret m)" by (simp add: key_func_def)
  ultimately have "\<exists>tok'. jwt_SignedString X (mgr_secret m) ?c = Some tok' \<and>
      jwt_ParseWithClaims X (key_func m) (mgr_issuer m) [''HS256''] t tok' =
        (if mgr_issuer m = claims_Issuer ?c \<and> claims_NotBefore ?c * 1000000000 \<le> t \<and> t < claims_ExpiresAt ?c * 1000000000
         then Some (?c, True) else None)"
    using laws(1) by (simp add: jwt_lawful_def)
  moreover have "jwt_SignedString X (mgr_secret m) ?c = Some tok"
    using issue t0 by (auto simp: NewAccessToken_def Manager_issue_def bindE_Inr_iff time_Now_def split: option.splits)
  ultimately show ?thesis by (simp add: new_claims_def)
qed

lemma claims_subject:
  "uuid_lawful X \<Longrightarrow> uid < 2 ^ 128 \<Longrightarrow> uuid_Parse X (claims_Subject (new_claims X m uid name rs ttl t0)) = Some uid"
  by (simp add: uuid_lawful_def new_claims_def)

text \<open>An access token authenticates whom it was issued to: a request that carries a token of
  \<^verbatim>\<open>NewAccessToken\<close> is passed on with the id, name and roles the token was issued for, from the
  second it was issued until its expiry, and is answered with 401 at every other time. The tables
  are not consulted: the roles are those of the moment of issue.\<close>

theorem access_token_roundtrip:
  assumes laws: "jwt_lawful X" "uuid_lawful X" and issue: "NewAccessToken X m uid name rs w = (Inr tok, w1)"
    and req: "rq_Authorization r = ''Bearer '' @ tok" "tok \<noteq> []" "TrimSpace tok = tok"
    and texts: "valid_utf8 name" "list_all valid_utf8 rs" "valid_utf8 (mgr_issuer m)" "uid < 2 ^ 128"
    and t0: "t0 = ans_now (w_env w (w_tick w))" and t: "t = ans_now (w_env w2 (w_tick w2))"
  shows "RequireAuth X m nxt r w2 =
    (if NewNumericDate t0 * 1000000000 \<le> t \<and> t < NewNumericDate (t0 + mgr_ttl m) * 1000000000
     then nxt (Some \<lparr>ui_ID = uid, ui_Username = name, ui_Roles = rs\<rparr>) (tick w2) else (Inr invalid_token, tick w2))"
proof -
  have "Manager_Parse X m tok w2 = (Inr (if NewNumericDate t0 * 1000000000 \<le> t \<and>
      t < NewNumericDate (t0 + mgr_ttl m) * 1000000000 then Some (new_claims X m uid name rs (mgr_ttl m) t0) else None), tick w2)"
    using issued_token_parses [OF laws issue texts t0] t by (simp add: Manager_Parse_def bindE_def time_Now_def returnE_def)
  moreover have "bearerToken (rq_Authorization r) = tok" using req bearer_prefix by simp
  ultimately show ?thesis using req(2) claims_subject [OF laws(2) texts(4)]
    by (simp add: RequireAuth_def Let_def bindE_def WithUser_def returnE_def) (simp add: new_claims_def)
qed

section \<open>Witnesses\<close>

definition sample_request :: request where
  "sample_request = \<lparr>rq_Authorization = [], rq_Query = (\<lambda>_. []), rq_Body = None, rq_File = None,
     rq_FormValue = (\<lambda>_. []), rq_Cookie = (\<lambda>_. None), rq_UserAgent = ''agent'', rq_RemoteAddr = [],
     rq_Connection = [], rq_Param = (\<lambda>_. [])\<rparr>"

theorem pagination_bounds_witness:
  "pagination (sample_request\<lparr>rq_Query := (\<lambda>k. if k = ''limit'' then dec_digits 50 else dec_digits 150)\<rparr>) = (50, 150)"
  using pagination_bounds [of "sample_request\<lparr>rq_Query := (\<lambda>k. if k = ''limit'' then dec_digits 50 else dec_digits 150)\<rparr>" 50 150]
  by (simp add: prod_eq_iff)

theorem core_errors_stable_witness:
  "resp_Body (writeCoreError StoreErrNotFound) = ErrorBody ''internal_error'' ''an unexpected error occurred''"
  using core_errors_stable [of ErrConflict StoreErrNotFound StoreErrConflict UniqueViolation]
  by (simp add: writeCoreError_def writeServerError_def)

definition sample_manager :: Manager where
  "sample_manager = NewManager (replicate 32 CHR ''k'') ''masoniccore'' 900000000000"

lemma digits_no_space: "TrimSpace (dec_digits n) = dec_digits n"
proof (rule TrimSpace_ascii_nospace)
  show "list_all (\<lambda>c. byte_of c < 128 \<and> \<not> IsSpace (byte_of c)) (dec_digits n)"
    using dec_digits_all [of n] by (auto simp: list_all_iff IsSpace_def)
qed

definition echo_user :: "UserInfo option \<Rightarrow> handler" where
  "echo_user ctx = with_user ctx (\<lambda>u. returnE (writeJSON 200 (PresenceBody (ui_ID u) (hasRole (ui_Roles u) [RoleAdmin]))))"

theorem access_token_roundtrip_witness:
  "\<exists>tok w1. NewAccessToken sample_ext sample_manager 1 ''alice'' [''admin''] (sample_world sample_db) = (Inr tok, w1) \<and>
     RequireAuth sample_ext sample_manager echo_user (sample_request\<lparr>rq_Authorization := ''Bearer '' @ tok\<rparr>)
       (sample_world sample_db) = (Inr (writeJSON 200 (PresenceBody 1 True)), tick (sample_world sample_db))"
proof -
  let ?w = "sample_world sample_db"
  obtain tok n where i: "NewAccessToken sample_ext sample_manager 1 ''alice'' [''admin''] ?w = (Inr tok, tick ?w)"
    and n: "tok = dec_digits n"
    by (simp add: NewAccessToken_def Manager_issue_def bindE_def time_Now_def sample_ext_def returnE_def)
  let ?r = "sample_request\<lparr>rq_Authorization := ''Bearer '' @ tok\<rparr>"
  have v: "valid_utf8 ''alice''" "list_all valid_utf8 [''admin'']" "valid_utf8 (mgr_issuer sample_manager)"
    using valid_utf8_ascii [of "''alice''"] valid_utf8_ascii [of "''admin''"] valid_utf8_ascii [of "''masoniccore''"]
    by (simp_all add: sample_manager_def NewManager_def del: valid_utf8.simps)
  have time: "NewNumericDate (ans_now (sample_answer 0)) * 1000000000 \<le> ans_now (sample_answer 0)"
    "ans_now (sample_answer 0) < NewNumericDate (ans_now (sample_answer 0) + mgr_ttl sample_manager) * 1000000000"
    by (simp_all add: sample_answer_def NewNumericDate_def sample_manager_def NewManager_def)
  have "RequireAuth sample_ext sample_manager echo_user ?r ?w =
      echo_user (Some \<lparr>ui_ID = 1, ui_Username = ''alice'', ui_Roles = [''admin'']\<rparr>) (tick ?w)"
    by (subst access_token_roundtrip [OF sample_jwt_lawful sample_uuid_lawful i _ _ _ v _ refl refl])
       (use time in \<open>simp_all add: n digits_no_space\<close>)
  then show ?thesis using i by (auto simp: echo_user_def returnE_def hasRole_def RoleAdmin_def)
qed

end
