(* ===== verification/Admin_Install.thy ===== *)
theory Admin_Install
  imports User_Store Forum_Store Auth_Service
begin

text \<open>
  \<^verbatim>\<open>internal/services/admin.go\<close> and \<^verbatim>\<open>install.go\<close>: user and role administration, the forum's
  settings, and the first-run setup. The theory shows that the setup runs once, what a role or
  status change does to the tables, and which partial effects a rejected request can leave.
\<close>

section \<open>Administration\<close>

definition allowedRoles :: "string \<Rightarrow> bool" where
  "allowedRoles r \<longleftrightarrow> r \<in> {RoleAdmin, RoleModerator, RoleMember}"

definition allowedStatus :: "string \<Rightarrow> bool" where
  "allowedStatus s \<longleftrightarrow> s \<in> {UserStatusActive, UserStatusBanned, UserStatusPending}"

definition maxForumName :: nat where "maxForumName = 100"

definition keyInstalled :: string where "keyInstalled = ''system.installed''"
definition keyForumName :: string where "keyForumName = ''forum.name''"

lemmas setting_keys = keyInstalled_def keyForumName_def

definition mapUserErr :: "error \<Rightarrow> error" where
  "mapUserErr e =
     (if e = StoreErrNotFound then ErrUserNotFound else if e = StoreErrConflict then ErrConflict else e)"

definition AdminService_ListUsers :: "ext \<Rightarrow> nat \<Rightarrow> nat \<Rightarrow> (UserWithRoles list \<times> nat) dbop" where
  "AdminService_ListUsers X limit offset = UserStore_List X limit offset"

text \<open>The two optional parts of \<^verbatim>\<open>UpdateUser\<close>, in the order of the code: the status is written
  before the roles are looked at.\<close>

definition update_user_status :: "uuid \<Rightarrow> string option \<Rightarrow> unit dbop" where
  "update_user_status i status =
     (case status of
        None \<Rightarrow> returnE ()
      | Some st \<Rightarrow>
          if \<not> allowedStatus st then throwE ErrInvalidInput
          else bindE (mapErrE mapUserErr (UserStore_UpdateStatus i st)) (\<lambda>_. returnE ()))"

definition update_user_roles :: "ext \<Rightarrow> uuid \<Rightarrow> string list option \<Rightarrow> unit dbop" where
  "update_user_roles X i rs =
     (case rs of
        None \<Rightarrow> returnE ()
      | Some names \<Rightarrow>
          if names = [] then throwE ErrInvalidInput
          else if list_ex (\<lambda>r. \<not> allowedRoles (ToLower (uni_lower X) r)) names then throwE ErrInvalidInput
          else mapErrE mapUserErr (UserStore_UpdateRoles i (map (ToLower (uni_lower X)) names)))"

definition AdminService_UpdateUser ::
    "ext \<Rightarrow> uuid \<Rightarrow> string list option \<Rightarrow> string option \<Rightarrow> UserWithRoles dbop" where
  "AdminService_UpdateUser X i rs status =
     bindE (update_user_status i status) (\<lambda>_.
     bindE (update_user_roles X i rs) (\<lambda>_.
     bindE (mapErrE mapUserErr (UserStore_GetByID i)) (\<lambda>u.
     bindE (UserStore_RolesForUser X i) (\<lambda>rolesList.
     returnE \<lparr>uwr_User = u, uwr_Roles = rolesList\<rparr>))))"

definition AdminService_ListMedia :: "nat \<Rightarrow> nat \<Rightarrow> (AttachmentWithOwner list \<times> nat) dbop" where
  "AdminService_ListMedia limit offset = AttachmentStore_List limit offset"

text \<open>\<^verbatim>\<open>GetSettings\<close> drops every error and leaves the name empty.\<close>

definition AdminService_GetSettings :: "string dbop" where
  "AdminService_GetSettings =
     handleE
       (bindE (SettingsStore_Get keyForumName) (\<lambda>raw.
        returnE (case Unmarshal_string raw of Some name \<Rightarrow> name | None \<Rightarrow> [])))
       (\<lambda>_. returnE [])"

definition AdminService_UpdateSettings :: "string \<Rightarrow> string dbop" where
  "AdminService_UpdateSettings forumName =
     (let name = TrimSpace forumName in
      if name = [] \<or> RuneCountInString name > maxForumName then throwE ErrInvalidInput
      else bindE (SettingsStore_Set keyForumName (json_string name)) (\<lambda>_. returnE name))"

section \<open>First-run setup\<close>

record InstallStatus =
  ist_Installed :: bool
  ist_ForumName :: "string option"

record InstallInput =
  inst_ForumName :: string
  inst_AdminUsername :: string
  inst_AdminEmail :: string
  inst_AdminPassword :: string

text \<open>A setting that may be missing: \<^verbatim>\<open>ErrNotFound\<close> is no error.\<close>

definition get_optional :: "string \<Rightarrow> json option dbop" where
  "get_optional key =
     handleE (bindE (SettingsStore_Get key) (\<lambda>raw. returnE (Some raw)))
       (\<lambda>e. if e = StoreErrNotFound then returnE None else throwE e)"

definition InstallService_Status :: "InstallStatus dbop" where
  "InstallService_Status =
     bindE (get_optional keyInstalled) (\<lambda>raw.
     bindE (case raw of
              None \<Rightarrow> returnE False
            | Some r \<Rightarrow> (case Unmarshal_bool r of None \<Rightarrow> throwE ErrJson | Some b \<Rightarrow> returnE b)) (\<lambda>installed.
     bindE (get_optional keyForumName) (\<lambda>name.
     bindE (case name of
              None \<Rightarrow> returnE None
            | Some r \<Rightarrow> (case Unmarshal_string r of None \<Rightarrow> throwE ErrJson | Some n \<Rightarrow> returnE (Some n))) (\<lambda>forumName.
     returnE \<lparr>ist_Installed = installed, ist_ForumName = forumName\<rparr>))))"

definition setup_valid :: "InstallInput \<Rightarrow> bool" where
  "setup_valid inp \<longleftrightarrow>
     (let name = TrimSpace (inst_ForumName inp); user = TrimSpace (inst_AdminUsername inp);
          email = TrimSpace (inst_AdminEmail inp)
      in \<not> (name = [] \<or> RuneCountInString name > 100) \<and> \<not> length (inst_AdminPassword inp) < 8 \<and>
         \<not> (length (runes user) < 3 \<or> length (runes user) > 32 \<or> \<not> MatchString usernameRe user) \<and>
         MatchString emailRe email)"

text \<open>The part of \<^verbatim>\<open>Setup\<close> after its checks.\<close>

definition create_admin :: "ext \<Rightarrow> Params \<Rightarrow> InstallInput \<Rightarrow> User dbop" where
  "create_admin X hasher inp =
     bindE (PasswordHasher_Hash X hasher (inst_AdminPassword inp)) (\<lambda>hash.
     bindE (mapErrE (\<lambda>e. if e = StoreErrConflict then ErrConflict else e)
              (UserStore_Create X
                \<lparr>newuser_Username = TrimSpace (inst_AdminUsername inp),
                 newuser_Email = TrimSpace (inst_AdminEmail inp), newuser_PasswordHash = hash,
                 newuser_DisplayName = TrimSpace (inst_AdminUsername inp)\<rparr>)) (\<lambda>user.
     bindE (UserStore_AddMemberRole (user_ID user)) (\<lambda>_.
     bindE (UserStore_AssignRole (user_ID user) RoleAdmin) (\<lambda>_.
     bindE (SettingsStore_Set keyInstalled (JBool True)) (\<lambda>_.
     bindE (SettingsStore_Set keyForumName (json_string (TrimSpace (inst_ForumName inp)))) (\<lambda>_.
     returnE user))))))"

definition InstallService_Setup :: "ext \<Rightarrow> Params \<Rightarrow> InstallInput \<Rightarrow> User dbop" where
  "InstallService_Setup X hasher inp =
     bindE InstallService_Status (\<lambda>st.
     if ist_Installed st then throwE ErrAlreadyInstalled
     else if \<not> setup_valid inp then throwE ErrInvalidInput
     else create_admin X hasher inp)"

lemmas admin_defs =
  AdminService_ListUsers_def update_user_status_def update_user_roles_def AdminService_UpdateUser_def AdminService_ListMedia_def
  AdminService_GetSettings_def AdminService_UpdateSettings_def get_optional_def
  InstallService_Status_def create_admin_def InstallService_Setup_def

lemma admin_keeps_schema [keeps_intros]:
  "keeps (on_db (db_ok X)) (AdminService_ListUsers X l k)"
  "keeps (on_db (db_ok X)) (AdminService_UpdateUser X i rs st)"
  "keeps (on_db (db_ok X)) (AdminService_ListMedia l k)"
  "keeps (on_db (db_ok X)) AdminService_GetSettings"
  "keeps (on_db (db_ok X)) (AdminService_UpdateSettings n)"
  "keeps (on_db (db_ok X)) (get_optional key)"
  "keeps (on_db (db_ok X)) InstallService_Status"
  "keeps (on_db (db_ok X)) (InstallService_Setup X P inp)"
  "keeps (on_db (db_ok X)) (update_user_status i st)"
  unfolding admin_defs Let_def by (intro keeps_intros)+

section \<open>The setup runs once\<close>

definition installed :: "db \<Rightarrow> bool" where
  "installed d \<longleftrightarrow> find_key fst keyInstalled (settings d) = Some (keyInstalled, JBool True)"

lemma installed_frame: "installed d \<Longrightarrow> settings d' = settings d \<Longrightarrow> installed d'"
  by (simp add: installed_def)

lemma upsert_find:
  assumes "sql_settings_upsert key v a d = Inr (u, d')"
  shows "find_key fst k (settings d') = (if k = key then Some (key, v) else find_key fst k (settings d))"
proof (cases "key \<in> fst ` set (settings d)")
  case True
  with assms have d': "settings d' = update_rows (\<lambda>kv. fst kv = key) (\<lambda>kv. (fst kv, v)) (settings d)"
    by (auto simp: sql_settings_upsert_def split: if_splits)
  have "find_key fst key (settings d) \<noteq> None" using True by (simp add: settingT.find_key_None)
  then obtain kv where "find_key fst key (settings d) = Some kv" "fst kv = key"
    using settingT.find_key_Some by blast
  then show ?thesis by (simp add: d' settingT.find_key_update)
next
  case False
  with assms have d': "settings d' = settings d @ [(key, v)]"
    by (auto simp: sql_settings_upsert_def split: if_splits)
  from False show ?thesis
    using settingT.find_key_insert [of "(key, v)" "settings d"]
      settingT.find_key_insert_other [of "(key, v)" k "settings d"]
    by (simp add: d')
qed

lemma installed_stmts:
  "stmt_keeps installed (sql_settings_upsert keyForumName v)"
  "stmt_keeps installed (sql_settings_upsert keyInstalled (JBool True))"
  "stmt_keeps installed (sql_users_insert X nu)"
  "stmt_keeps installed (sql_users_update i f)"
  "stmt_keeps installed (sql_user_roles_insert i q)"
  "stmt_keeps installed (sql_user_roles_clear i)"
proof -
  show "stmt_keeps installed (sql_settings_upsert keyForumName v)"
    by (rule stmt_keepsI) (auto simp: installed_def setting_keys dest!: upsert_find [where k = keyInstalled])
  show "stmt_keeps installed (sql_settings_upsert keyInstalled (JBool True))"
    by (rule stmt_keepsI) (auto simp: installed_def dest!: upsert_find [where k = keyInstalled])
  show "stmt_keeps installed (sql_users_insert X nu)"
    by (rule stmt_keepsI) (auto simp: sql_users_insert_def Let_def elim!: installed_frame split: if_splits)
  show "stmt_keeps installed (sql_users_update i f)"
    by (rule stmt_keepsI) (auto simp: sql_users_update_def Let_def elim!: installed_frame)
  show "stmt_keeps installed (sql_user_roles_insert i q)"
    by (rule stmt_keepsI) (auto simp: sql_user_roles_insert_def Let_def elim!: installed_frame split: if_splits)
  show "stmt_keeps installed (sql_user_roles_clear i)"
    by (rule stmt_keepsI) (auto simp: sql_user_roles_clear_def elim!: installed_frame)
qed

lemma get_optional_Inr:
  assumes "get_optional key w = (Inr r, w1)"
  shows "r = map_option snd (find_key fst key (settings (w_db w))) \<and> w_db w1 = w_db w"
proof -
  obtain r0 w0 where g: "SettingsStore_Get key w = (r0, w0)" by fastforce
  from g [unfolded SettingsStore_Get_def] show ?thesis
    by (cases rule: read_cases) (use assms g in \<open>auto simp: get_optional_def op_defs split: if_splits\<close>)
qed

lemma get_optional_calm:
  "calm w \<Longrightarrow> pg_text key \<Longrightarrow> get_optional key w = (Inr (map_option snd (find_key fst key (settings (w_db w)))), tick w)"
  by (simp add: get_optional_def SettingsStore_Get_def op_defs scan_query_calm split: option.split)

lemma Status_Inr:
  assumes "InstallService_Status w = (Inr st, w1)"
  shows "w_db w1 = w_db w \<and> (installed (w_db w) \<longrightarrow> ist_Installed st)"
proof -
  from assms obtain raw wa b wb nm wc fn where a: "get_optional keyInstalled w = (Inr raw, wa)"
    and b: "(case raw of None \<Rightarrow> returnE False
            | Some r \<Rightarrow> (case Unmarshal_bool r of None \<Rightarrow> throwE ErrJson | Some b \<Rightarrow> returnE b)) wa = (Inr b, wb)"
    and c: "get_optional keyForumName wb = (Inr nm, wc)"
    and d: "(case nm of None \<Rightarrow> returnE None
            | Some r \<Rightarrow> (case Unmarshal_string r of None \<Rightarrow> throwE ErrJson | Some n \<Rightarrow> returnE (Some n))) wc = (Inr fn, w1)"
    and st: "ist_Installed st = b"
    unfolding InstallService_Status_def bindE_Inr_iff returnE_iff by fastforce
  from b have "w_db wb = w_db wa" by (auto split: option.splits)
  moreover from d have "w_db w1 = w_db wc" by (auto split: option.splits)
  moreover have "b" if "installed (w_db w)"
    using b get_optional_Inr [OF a] that by (auto simp: installed_def Unmarshal_bool_def)
  ultimately show ?thesis using get_optional_Inr [OF a] get_optional_Inr [OF c] st by simp
qed

lemma Status_reads [keeps_intros]: "keeps (on_db I) InstallService_Status"
  unfolding InstallService_Status_def get_optional_def SettingsStore_Get_def by (intro keeps_intros)

lemma Setup_installed_refused:
  assumes "installed (w_db w)"
  shows "\<exists>e w1. InstallService_Setup X P inp w = (Inl e, w1) \<and> w_db w1 = w_db w"
proof -
  obtain r w1 where st: "InstallService_Status w = (r, w1)" by fastforce
  have db: "w_db w1 = w_db w"
    using keeps_resultD [OF Status_reads [of "\<lambda>d. d = w_db w"] _ st] by (simp add: on_db_def)
  show ?thesis
  proof (cases r)
    case (Inl e)
    with st db show ?thesis by (auto simp: InstallService_Setup_def bindE_def)
  next
    case (Inr s)
    with st Status_Inr [of w s w1] assms have "ist_Installed s" by simp
    with st db Inr show ?thesis by (auto simp: InstallService_Setup_def bindE_def)
  qed
qed

lemma AssignRole_Inr:
  assumes "UserStore_AssignRole i k w = (Inr (), w1)"
  shows "w_db w1 = (w_db w)\<lparr>user_roles := user_roles (w_db w) @ map (\<lambda>r. (i, role_ID r))
    (filter (\<lambda>r. role_Key r = k) (roles (w_db w)))\<rparr>"
  using assms by (auto simp: UserStore_AssignRole_def bindE_Inr_iff sql_user_roles_insert_def Let_def
      dest!: sql_Inr split: if_splits)

lemma SettingsStore_Set_Inr:
  assumes "SettingsStore_Set k v w = (Inr (), w1)"
  shows "users (w_db w1) = users (w_db w)" "user_roles (w_db w1) = user_roles (w_db w)"
    and "find_key fst k (settings (w_db w1)) = Some (k, v)"
proof -
  from sql_Inr [OF assms [unfolded SettingsStore_Set_def]] obtain d where
    d: "sql_settings_upsert k v (stmt_answer w) (w_db w) = Inr ((), d)" "w_db w1 = d" by auto
  from upsert_find [OF d(1), of k] d(2) show "find_key fst k (settings (w_db w1)) = Some (k, v)" by simp
  from d(1) show "users (w_db w1) = users (w_db w)" "user_roles (w_db w1) = user_roles (w_db w)"
    unfolding d(2) by (auto simp: sql_settings_upsert_def split: if_splits)
qed

lemma create_admin_Inr:
  assumes "create_admin X P inp w = (Inr u, w1)"
  shows "installed (w_db w1)" "users (w_db w1) = users (w_db w) @ [u]" "user_ID u \<notin> user_ids (w_db w)"
    and "user_Username u = TrimSpace (inst_AdminUsername inp)" "user_Email u = TrimSpace (inst_AdminEmail inp)"
    and "user_roles (w_db w1) = user_roles (w_db w)
      @ map (\<lambda>r. (user_ID u, role_ID r)) (filter (\<lambda>r. role_Key r = RoleMember) (roles (w_db w)))
      @ map (\<lambda>r. (user_ID u, role_ID r)) (filter (\<lambda>r. role_Key r = RoleAdmin) (roles (w_db w)))"
    and "find_key fst keyForumName (settings (w_db w1)) = Some (keyForumName, json_string (TrimSpace (inst_ForumName inp)))"
proof -
  from assms obtain h wb wc wd we wf where
      h: "PasswordHasher_Hash X P (inst_AdminPassword inp) w = (Inr h, wb)"
    and c: "UserStore_Create X \<lparr>newuser_Username = TrimSpace (inst_AdminUsername inp),
              newuser_Email = TrimSpace (inst_AdminEmail inp), newuser_PasswordHash = h,
              newuser_DisplayName = TrimSpace (inst_AdminUsername inp)\<rparr> wb = (Inr u, wc)"
    and m: "UserStore_AddMemberRole (user_ID u) wc = (Inr (), wd)"
    and a: "UserStore_AssignRole (user_ID u) RoleAdmin wd = (Inr (), we)"
    and i: "SettingsStore_Set keyInstalled (JBool True) we = (Inr (), wf)"
    and n: "SettingsStore_Set keyForumName (json_string (TrimSpace (inst_ForumName inp))) wf = (Inr (), w1)"
    by (auto simp: create_admin_def bindE_Inr_iff mapErrE_Inr_iff)
  have wb: "w_db wb = w_db w"
    using h by (auto simp: PasswordHasher_Hash_def bindE_Inr_iff rand_Read_def Let_def split: if_splits option.splits)
  from c have u: "w_db wc = (w_db w)\<lparr>users := users (w_db w) @ [u]\<rparr>" "user_ID u \<notin> user_ids (w_db w)"
    "user_Username u = TrimSpace (inst_AdminUsername inp)" "user_Email u = TrimSpace (inst_AdminEmail inp)"
    by (auto simp: UserStore_Create_def mapErrE_Inr_iff sql_users_insert_def Let_def wb dest!: sql_Inr split: if_splits)
  note d = AssignRole_Inr [OF m [unfolded UserStore_AddMemberRole_def]] and e = AssignRole_Inr [OF a]
  note i' = SettingsStore_Set_Inr [OF i] and n' = SettingsStore_Set_Inr [OF n]
  have wf: "installed (w_db wf)" using i'(3) by (simp add: installed_def)
  have "keeps (on_db installed) (SettingsStore_Set keyForumName (json_string (TrimSpace (inst_ForumName inp))))"
    unfolding SettingsStore_Set_def by (intro keeps_intros installed_stmts)
  from keeps_dbD [OF this wf n] show "installed (w_db w1)" .
  show "users (w_db w1) = users (w_db w) @ [u]" "user_ID u \<notin> user_ids (w_db w)"
    "user_Username u = TrimSpace (inst_AdminUsername inp)" "user_Email u = TrimSpace (inst_AdminEmail inp)"
    "user_roles (w_db w1) = user_roles (w_db w)
      @ map (\<lambda>r. (user_ID u, role_ID r)) (filter (\<lambda>r. role_Key r = RoleMember) (roles (w_db w)))
      @ map (\<lambda>r. (user_ID u, role_ID r)) (filter (\<lambda>r. role_Key r = RoleAdmin) (roles (w_db w)))"
    "find_key fst keyForumName (settings (w_db w1)) = Some (keyForumName, json_string (TrimSpace (inst_ForumName inp)))"
    using u d e i' n' by simp_all
qed

lemma Setup_Inr:
  assumes "InstallService_Setup X P inp w = (Inr u, w1)"
  shows "\<not> installed (w_db w) \<and> installed (w_db w1) \<and> username_ok (user_Username u) \<and>
    users (w_db w1) = users (w_db w) @ [u] \<and> user_ID u \<notin> user_ids (w_db w) \<and>
    user_roles (w_db w1) = user_roles (w_db w)
      @ map (\<lambda>r. (user_ID u, role_ID r)) (filter (\<lambda>r. role_Key r = RoleMember) (roles (w_db w)))
      @ map (\<lambda>r. (user_ID u, role_ID r)) (filter (\<lambda>r. role_Key r = RoleAdmin) (roles (w_db w))) \<and>
    find_key fst keyForumName (settings (w_db w1)) = Some (keyForumName, json_string (TrimSpace (inst_ForumName inp)))"
proof -
  have not: "\<not> installed (w_db w)" using Setup_installed_refused [of w X P inp] assms by auto
  from assms obtain st wa where st: "InstallService_Status w = (Inr st, wa)" and v: "setup_valid inp"
    and c: "create_admin X P inp wa = (Inr u, w1)"
    by (auto simp: InstallService_Setup_def bindE_Inr_iff split: if_splits)
  have wa: "w_db wa = w_db w" using Status_Inr [OF st] by simp
  have "username_ok (user_Username u)"
    using v create_admin_Inr(4) [OF c] by (auto simp: setup_valid_def Let_def usernameRe_iff)
  with not create_admin_Inr [OF c] show ?thesis by (simp add: wa)
qed

section \<open>A fresh forum can be set up\<close>

lemma sql_user_roles_insert_fresh:
  "u \<in> user_ids d \<Longrightarrow> (\<And>r. r \<in> set (roles d) \<Longrightarrow> p r \<Longrightarrow> (u, role_ID r) \<notin> set (user_roles d)) \<Longrightarrow>
     sql_user_roles_insert u p a d =
       Inr (length (filter p (roles d)), d\<lparr>user_roles := user_roles d @ map (\<lambda>r. (u, role_ID r)) (filter p (roles d))\<rparr>)"
  by (auto simp: sql_user_roles_insert_def Let_def)

lemma AssignRole_calm:
  assumes "calm w" "pg_text k" "u \<in> user_ids (w_db w)"
    and "\<And>r. r \<in> set (roles (w_db w)) \<Longrightarrow> role_Key r = k \<Longrightarrow> (u, role_ID r) \<notin> set (user_roles (w_db w))"
  shows "UserStore_AssignRole u k w = (Inr (), (tick w)\<lparr>w_db := (w_db w)\<lparr>user_roles := user_roles (w_db w)
     @ map (\<lambda>r. (u, role_ID r)) (filter (\<lambda>r. role_Key r = k) (roles (w_db w)))\<rparr>\<rparr>)"
  using assms
  by (simp add: UserStore_AssignRole_def bindE_def sql_calm sql_user_roles_insert_fresh returnE_def)

lemma SettingsStore_Set_calm:
  assumes "calm w" "pg_text key" "jsonb_ok v"
  shows "\<exists>d. SettingsStore_Set key v w = (Inr (), (tick w)\<lparr>w_db := d\<rparr>) \<and> sql_settings_upsert key v (stmt_answer w) (w_db w) = Inr ((), d)"
  using assms by (auto simp: SettingsStore_Set_def sql_calm sql_settings_upsert_def)

text \<open>What the setup needs: valid input, a free name, address and id.\<close>

definition setup_env :: "ext \<Rightarrow> InstallInput \<Rightarrow> world \<Rightarrow> bool" where
  "setup_env X inp w \<longleftrightarrow>
     calm w \<and> roles_ok (w_db w) \<and> settings (w_db w) = [] \<and> setup_valid inp \<and>
     pg_text (TrimSpace (inst_AdminEmail inp)) \<and> pg_text (TrimSpace (inst_ForumName inp)) \<and>
     ans_uuid (w_env w (w_tick w + 3)) \<notin> user_ids (w_db w) \<and>
     TrimSpace (inst_AdminEmail inp) \<notin> user_Email ` set (users (w_db w)) \<and>
     pg_lower X (TrimSpace (inst_AdminUsername inp)) \<notin> (\<lambda>u. pg_lower X (user_Username u)) ` set (users (w_db w))"

lemma setting_key_text: "pg_text keyInstalled" "pg_text keyForumName" "pg_text RoleAdmin" "pg_text RoleMember"
  by (simp_all add: setting_keys role_names pg_text_ascii)

lemma Status_calm_empty:
  assumes "calm w" "settings (w_db w) = []"
  shows "InstallService_Status w = (Inr \<lparr>ist_Installed = False, ist_ForumName = None\<rparr>, tick (tick w))"
  using assms by (simp add: InstallService_Status_def bindE_def get_optional_calm setting_key_text find_key_def returnE_def)

lemma jsonb_ok_text: "pg_text s \<Longrightarrow> jsonb_ok (json_string s)"
  by (simp add: json_string_def pg_text_def to_valid_utf8_id)

text \<open>The environment of the second part of a setup.\<close>

definition admin_env :: "ext \<Rightarrow> InstallInput \<Rightarrow> world \<Rightarrow> bool" where
  "admin_env X inp w \<longleftrightarrow>
     calm w \<and> roles_ok (w_db w) \<and> setup_valid inp \<and>
     pg_text (TrimSpace (inst_AdminEmail inp)) \<and> pg_text (TrimSpace (inst_ForumName inp)) \<and>
     ans_uuid (w_env w (w_tick w + 1)) \<notin> user_ids (w_db w) \<and>
     TrimSpace (inst_AdminEmail inp) \<notin> user_Email ` set (users (w_db w)) \<and>
     pg_lower X (TrimSpace (inst_AdminUsername inp)) \<notin> (\<lambda>u. pg_lower X (user_Username u)) ` set (users (w_db w))"

lemma create_user_calm:
  assumes env: "admin_env X inp w" and law: "argon2_lawful X"
  obtains h u where "PasswordHasher_Hash X DefaultParams (inst_AdminPassword inp) w = (Inr h, tick w)"
    and "UserStore_Create X \<lparr>newuser_Username = TrimSpace (inst_AdminUsername inp),
              newuser_Email = TrimSpace (inst_AdminEmail inp), newuser_PasswordHash = h,
              newuser_DisplayName = TrimSpace (inst_AdminUsername inp)\<rparr> (tick w)
          = (Inr u, (tick (tick w))\<lparr>w_db := (w_db w)\<lparr>users := users (w_db w) @ [u]\<rparr>\<rparr>)"
    and "user_ID u \<notin> user_ids (w_db w)" "user_ID u = ans_uuid (w_env w (w_tick w + 1))"
proof -
  have c: "calm w" and v: "setup_valid inp" using env by (simp_all add: admin_env_def)
  obtain h where h: "PasswordHasher_Hash X DefaultParams (inst_AdminPassword inp) w = (Inr h, tick w)"
    "pg_text h" using Hash_calm [OF c law] by blast
  let ?nu = "\<lparr>newuser_Username = TrimSpace (inst_AdminUsername inp), newuser_Email = TrimSpace (inst_AdminEmail inp),
     newuser_PasswordHash = h, newuser_DisplayName = TrimSpace (inst_AdminUsername inp)\<rparr>"
  have "ans_uuid (stmt_answer (tick w)) = ans_uuid (w_env w (w_tick w + 1))"
    by (simp add: stmt_answer_def Let_def)
  with env obtain u where u: "sql_users_insert X ?nu (stmt_answer (tick w)) (w_db w) = Inr (u, (w_db w)\<lparr>users := users (w_db w) @ [u]\<rparr>)"
    "user_ID u \<notin> user_ids (w_db w)" "user_ID u = ans_uuid (w_env w (w_tick w + 1))"
    by (auto simp: sql_users_insert_def Let_def admin_env_def)
  have "pg_text (TrimSpace (inst_AdminUsername inp))"
    using v by (intro username_text) (simp add: setup_valid_def Let_def usernameRe_iff)
  then have "UserStore_Create X ?nu (tick w) = (Inr u, (tick (tick w))\<lparr>w_db := (w_db w)\<lparr>users := users (w_db w) @ [u]\<rparr>\<rparr>)"
    using c u h(2) env by (simp add: UserStore_Create_def mapErrE_def handleE_def sql_calm admin_env_def)
  with h(1) u(2,3) that show ?thesis by blast
qed

lemma create_admin_succeeds:
  assumes env: "admin_env X inp w" and law: "argon2_lawful X"
  shows "\<exists>u d. create_admin X DefaultParams inp w = (Inr u, (tick (tick (tick (tick (tick (tick w))))))\<lparr>w_db := d\<rparr>) \<and>
    user_ID u = ans_uuid (w_env w (w_tick w + 1))"
proof -
  let ?w2 = "tick (tick w)"
  have c: "calm w" and v: "setup_valid inp" and r: "roles_ok (w_db w)"
    and n: "pg_text (TrimSpace (inst_ForumName inp))" using env by (simp_all add: admin_env_def)
  from create_user_calm [OF env law] obtain h u where
    h: "PasswordHasher_Hash X DefaultParams (inst_AdminPassword inp) w = (Inr h, tick w)"
    and u: "UserStore_Create X \<lparr>newuser_Username = TrimSpace (inst_AdminUsername inp),
              newuser_Email = TrimSpace (inst_AdminEmail inp), newuser_PasswordHash = h,
              newuser_DisplayName = TrimSpace (inst_AdminUsername inp)\<rparr> (tick w)
          = (Inr u, ?w2\<lparr>w_db := (w_db w)\<lparr>users := users (w_db w) @ [u]\<rparr>\<rparr>)"
    and f: "user_ID u \<notin> user_ids (w_db w)" "user_ID u = ans_uuid (w_env w (w_tick w + 1))" .
  have free: "(user_ID u, q) \<notin> set (user_roles (w_db w))" for q using r f by (auto simp: roles_ok_def)
  let ?d1 = "(w_db w)\<lparr>users := users (w_db w) @ [u]\<rparr>"
  let ?d2 = "?d1\<lparr>user_roles := user_roles (w_db w) @ map (\<lambda>r. (user_ID u, role_ID r)) (filter (\<lambda>r. role_Key r = RoleMember) (roles (w_db w)))\<rparr>"
  have m: "UserStore_AddMemberRole (user_ID u) (?w2\<lparr>w_db := ?d1\<rparr>) = (Inr (), (tick ?w2)\<lparr>w_db := ?d2\<rparr>)"
    unfolding UserStore_AddMemberRole_def using c free by (subst AssignRole_calm) (simp_all add: setting_key_text)
  have "inj_on role_ID (set (roles (w_db w)))" using r by (simp add: roles_ok_def distinct_map)
  then have "(user_ID u, role_ID q) \<notin> set (user_roles ?d2)" if "q \<in> set (roles (w_db w))" "role_Key q = RoleAdmin" for q
    using that free by (auto simp: role_names dest: inj_onD)
  then obtain d3 where a: "UserStore_AssignRole (user_ID u) RoleAdmin ((tick ?w2)\<lparr>w_db := ?d2\<rparr>) = (Inr (), (tick (tick ?w2))\<lparr>w_db := d3\<rparr>)"
    using AssignRole_calm [of "(tick ?w2)\<lparr>w_db := ?d2\<rparr>" RoleAdmin "user_ID u"] c by (auto simp: setting_key_text)
  obtain d4 where i: "SettingsStore_Set keyInstalled (JBool True) ((tick (tick ?w2))\<lparr>w_db := d3\<rparr>) = (Inr (), (tick (tick (tick ?w2)))\<lparr>w_db := d4\<rparr>)"
    using SettingsStore_Set_calm [of "(tick (tick ?w2))\<lparr>w_db := d3\<rparr>" keyInstalled "JBool True"] c by (auto simp: setting_key_text)
  obtain d5 where "SettingsStore_Set keyForumName (json_string (TrimSpace (inst_ForumName inp)))
      ((tick (tick (tick ?w2)))\<lparr>w_db := d4\<rparr>) = (Inr (), (tick (tick (tick (tick ?w2))))\<lparr>w_db := d5\<rparr>)"
    using SettingsStore_Set_calm [of "(tick (tick (tick ?w2)))\<lparr>w_db := d4\<rparr>" keyForumName] c jsonb_ok_text [OF n]
    by (auto simp: setting_key_text)
  with h u m a i have "create_admin X DefaultParams inp w = (Inr u, (tick (tick (tick (tick ?w2))))\<lparr>w_db := d5\<rparr>)"
    by (simp add: create_admin_def bindE_def mapErrE_def handleE_def returnE_def)
  with f(2) show ?thesis by blast
qed

lemma Setup_succeeds:
  assumes env: "setup_env X inp w" and law: "argon2_lawful X"
  shows "\<exists>u w1. InstallService_Setup X DefaultParams inp w = (Inr u, w1)"
proof -
  have c: "calm w" and v: "setup_valid inp" and e: "settings (w_db w) = []" using env by (simp_all add: setup_env_def)
  have "admin_env X inp (tick (tick w))" using env by (simp add: admin_env_def setup_env_def eval_nat_numeral)
  from create_admin_succeeds [OF this law] Status_calm_empty [OF c e] v show ?thesis
    by (auto simp: InstallService_Setup_def bindE_def)
qed

lemma Setup_roles:
  assumes "InstallService_Setup X P inp w = (Inr u, w1)"
  shows "roles (w_db w1) = roles (w_db w)"
proof -
  have st: "stmt_keeps (\<lambda>d. roles d = roles (w_db w)) (sql_settings_upsert k v)"
    "stmt_keeps (\<lambda>d. roles d = roles (w_db w)) (sql_users_insert X nu)"
    "stmt_keeps (\<lambda>d. roles d = roles (w_db w)) (sql_user_roles_insert i q)" for k v nu i q
    by (auto simp: stmt_keeps_def sql_settings_upsert_def sql_users_insert_def sql_user_roles_insert_def Let_def
        split: if_splits)
  have "keeps (on_db (\<lambda>d. roles d = roles (w_db w))) (InstallService_Setup X P inp)"
    unfolding InstallService_Setup_def create_admin_def user_store_defs by (intro keeps_intros st)
  from keeps_dbD [OF this _ assms] show ?thesis by simp
qed

lemma roles_ofI: "r \<in> set (roles d) \<Longrightarrow> (u, role_ID r) \<in> set (user_roles d) \<Longrightarrow> role_Key r \<in> set (roles_of X u d)"
  by (auto simp: roles_of_def)

lemma Status_calm_installed:
  assumes "calm w" "installed (w_db w)"
    and "find_key fst keyForumName (settings (w_db w)) = Some (keyForumName, JString name)"
  shows "InstallService_Status w = (Inr \<lparr>ist_Installed = True, ist_ForumName = Some name\<rparr>, tick (tick w))"
  using assms
  by (simp add: InstallService_Status_def bindE_def get_optional_calm setting_key_text returnE_def installed_def
      Unmarshal_bool_def Unmarshal_string_def)

text \<open>C23: A fresh forum can be set up: with valid input, a free name, address and id, and an
  environment that answers, the setup succeeds; the account it returns then holds every seeded
  member and administrator role, and the status request reports the forum installed under the
  name that was given, without surrounding white space.\<close>

theorem setup_works:
  assumes env: "setup_env X inp w" and law: "argon2_lawful X"
  shows "\<exists>u w1. InstallService_Setup X DefaultParams inp w = (Inr u, w1) \<and>
    (\<forall>r \<in> set (roles (w_db w)). role_Key r \<in> {RoleMember, RoleAdmin} \<longrightarrow> role_Key r \<in> set (roles_of X (user_ID u) (w_db w1))) \<and>
    (\<forall>w2. calm w2 \<and> w_db w2 = w_db w1 \<longrightarrow> InstallService_Status w2 =
       (Inr \<lparr>ist_Installed = True, ist_ForumName = Some (TrimSpace (inst_ForumName inp))\<rparr>, tick (tick w2)))"
proof -
  from Setup_succeeds [OF env law] obtain u w1 where
    S: "InstallService_Setup X DefaultParams inp w = (Inr u, w1)" by blast
  note R = Setup_Inr [OF S]
  have "valid_utf8 (TrimSpace (inst_ForumName inp))" using env by (simp add: setup_env_def pg_text_def)
  with R have "InstallService_Status w2 =
       (Inr \<lparr>ist_Installed = True, ist_ForumName = Some (TrimSpace (inst_ForumName inp))\<rparr>, tick (tick w2))"
    if "calm w2" "w_db w2 = w_db w1" for w2
    using that by (intro Status_calm_installed) (simp_all add: json_string_def to_valid_utf8_id)
  moreover have "roles (w_db w1) = roles (w_db w)" by (rule Setup_roles [OF S])
  then have "role_Key r \<in> set (roles_of X (user_ID u) (w_db w1))"
    if "r \<in> set (roles (w_db w))" "role_Key r \<in> {RoleMember, RoleAdmin}" for r
    using R that by (intro roles_ofI) auto
  ultimately show ?thesis using S by blast
qed

text \<open>C22: The setup runs once. A setup that succeeds marks the forum installed and creates
  exactly one account, with the member and administrator roles; in an installed forum a setup
  fails and changes nothing, whatever the environment does; and no administration request
  resets the mark.\<close>

theorem setup_runs_once:
  "(InstallService_Setup X P inp w = (Inr u, w1) \<longrightarrow>
      \<not> installed (w_db w) \<and> installed (w_db w1) \<and> users (w_db w1) = users (w_db w) @ [u] \<and>
      (\<forall>r \<in> set (roles (w_db w)). role_Key r \<in> {RoleMember, RoleAdmin} \<longrightarrow>
         (user_ID u, role_ID r) \<in> set (user_roles (w_db w1)))) \<and>
   (installed (w_db w) \<longrightarrow> (\<exists>e w1. InstallService_Setup X P inp w = (Inl e, w1) \<and> w_db w1 = w_db w)) \<and>
   keeps (on_db installed) (InstallService_Setup X P inp2) \<and>
   keeps (on_db installed) (AdminService_UpdateSettings name) \<and>
   keeps (on_db installed) (AdminService_UpdateUser X i rs st)"
proof (intro conjI impI)
  assume "InstallService_Setup X P inp w = (Inr u, w1)"
  note S = Setup_Inr [OF this]
  then show "\<not> installed (w_db w)" "installed (w_db w1)" "users (w_db w1) = users (w_db w) @ [u]" by simp_all
  show "\<forall>r \<in> set (roles (w_db w)). role_Key r \<in> {RoleMember, RoleAdmin} \<longrightarrow>
         (user_ID u, role_ID r) \<in> set (user_roles (w_db w1))" using S by auto
next
  assume "installed (w_db w)"
  then show "\<exists>e w1. InstallService_Setup X P inp w = (Inl e, w1) \<and> w_db w1 = w_db w"
    by (rule Setup_installed_refused)
next
  show "keeps (on_db installed) (InstallService_Setup X P inp2)"
    unfolding InstallService_Setup_def create_admin_def user_store_defs by (intro keeps_intros installed_stmts)
  show "keeps (on_db installed) (AdminService_UpdateSettings name)"
    unfolding admin_defs user_store_defs Let_def by (intro keeps_intros installed_stmts)
  show "keeps (on_db installed) (AdminService_UpdateUser X i rs st)"
    unfolding admin_defs user_store_defs by (intro keeps_intros installed_stmts)
qed

section \<open>Roles and status of an account\<close>

lemma UpdateStatus_Inr:
  assumes "UserStore_UpdateStatus i st w = (Inr u, w1)"
  shows "\<exists>t. w_db w1 = (w_db w)\<lparr>users := update_rows (\<lambda>u. user_ID u = i)
      (\<lambda>u. u\<lparr>user_Status := st, user_UpdatedAt := t\<rparr>) (users (w_db w))\<rparr>"
  using assms [unfolded UserStore_UpdateStatus_def]
  by (cases rule: scan_sql_cases) (auto simp: sql_users_update_def Let_def)

lemma UpdateRoles_Inr:
  assumes "UserStore_UpdateRoles i ks w = (Inr (), w1)" "ks \<noteq> []"
  shows "w_db w1 = (w_db w)\<lparr>user_roles := delete_rows (\<lambda>ur. fst ur = i) (user_roles (w_db w))
      @ map (\<lambda>r. (i, role_ID r)) (filter (\<lambda>r. role_Key r \<in> set ks) (roles (w_db w)))\<rparr> \<and>
    length (filter (\<lambda>r. role_Key r \<in> set ks) (roles (w_db w))) = length ks"
  using assms(1) [unfolded UserStore_UpdateRoles_def]
proof (cases rule: with_tx_cases)
  case (committed x w2)
  then show ?thesis using assms(2)
    by (auto simp: bindE_Inr_iff sql_user_roles_clear_def sql_user_roles_insert_def Let_def
        dest!: sql_Inr split: if_splits)
qed simp

text \<open>As many rows as keys, and role keys that are unique: every key names a role, and none is
  given twice.\<close>

lemma all_keys_found:
  assumes "distinct (map role_Key rs)" "length (filter (\<lambda>r. role_Key r \<in> set ks) rs) = length ks"
  shows "set ks \<subseteq> role_Key ` set rs \<and> distinct ks"
proof -
  let ?f = "filter (\<lambda>r. role_Key r \<in> set ks) rs"
  have "distinct (map role_Key ?f)" using assms(1) by (rule distinct_map_filter)
  then have c: "card (role_Key ` set ?f) = length ks" using distinct_card assms(2) by (metis length_map set_map)
  have sub: "role_Key ` set ?f \<subseteq> set ks" by auto
  have "card (set ks) \<le> length ks" by (rule card_length)
  with c sub have eq: "role_Key ` set ?f = set ks" using card_seteq [of "set ks" "role_Key ` set ?f"] by simp
  with c have "distinct ks" by (simp add: card_distinct)
  then show ?thesis using eq by auto
qed

lemma roles_of_replaced:
  assumes "d' = d\<lparr>user_roles := delete_rows (\<lambda>ur. fst ur = i) (user_roles d)
      @ map (\<lambda>r. (i, role_ID r)) (filter p (roles d))\<rparr>" "distinct (map role_ID (roles d))"
  shows "set (roles_of X i d') = role_Key ` set (filter p (roles d))"
    and "j \<noteq> i \<Longrightarrow> roles_of X j d' = roles_of X j d"
proof -
  have "r = r'" if "r \<in> set (roles d)" "r' \<in> set (roles d)" "role_ID r = role_ID r'" for r r'
    using assms(2) that by (auto simp: distinct_map dest: inj_onD)
  then show "set (roles_of X i d') = role_Key ` set (filter p (roles d))"
    by (auto simp: roles_of_def assms(1) image_iff)
  assume "j \<noteq> i"
  then have "filter (\<lambda>r. (j, role_ID r) \<in> set (user_roles d')) (roles d) = filter (\<lambda>r. (j, role_ID r) \<in> set (user_roles d)) (roles d)"
    by (intro filter_cong) (auto simp: assms(1))
  then show "roles_of X j d' = roles_of X j d" by (simp add: roles_of_def assms(1))
qed


lemma update_user_status_Inr:
  assumes "update_user_status i st w = (Inr x, w1)"
  shows "\<exists>t. w_db w1 = (w_db w)\<lparr>users := (case st of None \<Rightarrow> users (w_db w) | Some s \<Rightarrow>
      update_rows (\<lambda>u. user_ID u = i) (\<lambda>u. u\<lparr>user_Status := s, user_UpdatedAt := t\<rparr>) (users (w_db w)))\<rparr>"
  using assms
  by (cases st) (auto simp: update_user_status_def bindE_Inr_iff mapErrE_Inr_iff dest!: UpdateStatus_Inr split: if_splits)

lemma update_user_roles_Inr:
  assumes "update_user_roles X i rs w = (Inr x, w1)" "roles_ok (w_db w)"
  shows "users (w_db w1) = users (w_db w) \<and>
    set (roles_of X i (w_db w1)) = (case rs of None \<Rightarrow> set (roles_of X i (w_db w)) | Some ks \<Rightarrow> set (map (ToLower (uni_lower X)) ks)) \<and>
    (\<forall>j. j \<noteq> i \<longrightarrow> roles_of X j (w_db w1) = roles_of X j (w_db w))"
proof (cases rs)
  case None
  then show ?thesis using assms(1) by (simp add: update_user_roles_def)
next
  case (Some names)
  let ?ks = "map (ToLower (uni_lower X)) names"
  from assms(1) Some have "UserStore_UpdateRoles i ?ks w = (Inr (), w1)" "?ks \<noteq> []"
    by (auto simp: update_user_roles_def mapErrE_Inr_iff split: if_splits)
  note R = UpdateRoles_Inr [OF this]
  have dist: "distinct (map role_ID (roles (w_db w)))" "distinct (map role_Key (roles (w_db w)))"
    using assms(2) by (simp_all add: roles_ok_def)
  have "set (roles_of X i (w_db w1)) = role_Key ` set (filter (\<lambda>r. role_Key r \<in> set ?ks) (roles (w_db w)))"
    using R dist by (intro roles_of_replaced(1)) simp_all
  also have "\<dots> = set ?ks"
    unfolding set_filter using all_keys_found [OF dist(2) conjunct2 [OF R]] by blast
  finally have "set (roles_of X i (w_db w1)) = set ?ks" .
  moreover have "roles_of X j (w_db w1) = roles_of X j (w_db w)" if "j \<noteq> i" for j
    using R dist that by (intro roles_of_replaced(2)) simp_all
  ultimately show ?thesis using R Some by simp
qed

text \<open>C25: A role or status change that reports success did what was asked and nothing else: the
  account exists and is returned as stored, its status is the requested one, its roles are
  exactly the requested keys in lower case (each of them a role of the forum), and no other
  account and no other account's roles changed.\<close>

theorem update_user_exact:
  assumes upd: "AdminService_UpdateUser X i rs st w = (Inr r, w1)" and ok: "db_ok X (w_db w)"
  shows "find_key user_ID i (users (w_db w1)) = Some (uwr_User r) \<and>
    uwr_Roles r = roles_of X i (w_db w1) \<and>
    (case st of None \<Rightarrow> users (w_db w1) = users (w_db w) | Some s \<Rightarrow> user_Status (uwr_User r) = s) \<and>
    set (uwr_Roles r) = (case rs of None \<Rightarrow> set (roles_of X i (w_db w)) | Some ks \<Rightarrow> set (map (ToLower (uni_lower X)) ks)) \<and>
    (\<forall>j. j \<noteq> i \<longrightarrow> find_key user_ID j (users (w_db w1)) = find_key user_ID j (users (w_db w)) \<and>
       roles_of X j (w_db w1) = roles_of X j (w_db w))"
proof -
  from upd obtain wa wb where a: "update_user_status i st w = (Inr (), wa)" and b: "update_user_roles X i rs wa = (Inr (), wb)"
    and w1: "w_db w1 = w_db wb" "find_key user_ID i (users (w_db wb)) = Some (uwr_User r)" "uwr_Roles r = roles_of X i (w_db wb)"
    by (auto simp: AdminService_UpdateUser_def bindE_Inr_iff mapErrE_Inr_iff UserStore_GetByID_def
        UserStore_RolesForUser_def dest!: query_result scan_query_result)
  from update_user_status_Inr [OF a] obtain t where
    wa: "w_db wa = (w_db w)\<lparr>users := (case st of None \<Rightarrow> users (w_db w) | Some s \<Rightarrow>
      update_rows (\<lambda>u. user_ID u = i) (\<lambda>u. u\<lparr>user_Status := s, user_UpdatedAt := t\<rparr>) (users (w_db w)))\<rparr>" by blast
  have "roles_ok (w_db wa)" using keeps_dbD [OF admin_keeps_schema(9) ok a] by (simp add: db_ok_def)
  note wb = update_user_roles_Inr [OF b this]
  have same: "roles_of X j (w_db wa) = roles_of X j (w_db w)" for j by (simp add: roles_of_def wa)
  have st: "user_Status (uwr_User r) = s" if "st = Some s" for s
    using that w1(2) wa conjunct1 [OF wb] by (auto simp: userT.find_key_update dest: sym)
  have others: "find_key user_ID j (users (w_db wb)) = find_key user_ID j (users (w_db w))" if "j \<noteq> i" for j
    using that wa wb by (cases st) (auto simp: userT.find_key_update)
  show ?thesis using w1 wa wb st others same by (cases st; cases rs) auto
qed


lemma UpdateStatus_calm:
  assumes "calm w" "pg_text st" "find_key user_ID i (users (w_db w)) = Some u"
  shows "\<exists>u' t. UserStore_UpdateStatus i st w = (Inr u', (tick w)\<lparr>w_db := (w_db w)\<lparr>users :=
      update_rows (\<lambda>u. user_ID u = i) (\<lambda>u. u\<lparr>user_Status := st, user_UpdatedAt := t\<rparr>) (users (w_db w))\<rparr>\<rparr>)"
  using assms
  by (auto simp: UserStore_UpdateStatus_def scan_row_def bindE_def sql_calm sql_users_update_def Let_def
      userT.find_key_update returnE_def)

text \<open>C26: A request that names an unknown role is refused as invalid, but after its status part
  was already carried out: with a permitted status for an existing account, the refusal leaves
  the account with the new status.\<close>

theorem rejected_roles_leave_status:
  assumes "calm w" "find_key user_ID i (users (w_db w)) = Some u" "allowedStatus st"
    and "names = [] \<or> (\<exists>n \<in> set names. \<not> allowedRoles (ToLower (uni_lower X) n))"
  shows "\<exists>w1 u1. AdminService_UpdateUser X i (Some names) (Some st) w = (Inl ErrInvalidInput, w1) \<and>
    find_key user_ID i (users (w_db w1)) = Some u1 \<and> user_Status u1 = st"
proof -
  have "pg_text st" using assms(3) by (auto simp: allowedStatus_def status_names pg_text_ascii)
  from UpdateStatus_calm [OF assms(1) this assms(2)] obtain u' t where
    s: "UserStore_UpdateStatus i st w = (Inr u', (tick w)\<lparr>w_db := (w_db w)\<lparr>users :=
      update_rows (\<lambda>u. user_ID u = i) (\<lambda>u. u\<lparr>user_Status := st, user_UpdatedAt := t\<rparr>) (users (w_db w))\<rparr>\<rparr>)" by blast
  have "update_user_roles X i (Some names) v = (Inl ErrInvalidInput, v)" for v
    using assms(4) by (auto simp: update_user_roles_def list_ex_iff throwE_def)
  then show ?thesis using s assms(2,3)
    by (simp add: AdminService_UpdateUser_def update_user_status_def bindE_def mapErrE_def handleE_def returnE_def
        userT.find_key_update)
qed

section \<open>Settings\<close>

lemma UpdateSettings_Inr:
  assumes "AdminService_UpdateSettings n w = (Inr name, w1)"
  shows "name = TrimSpace n \<and> name \<noteq> [] \<and> RuneCountInString name \<le> maxForumName \<and>
    find_key fst keyForumName (settings (w_db w1)) = Some (keyForumName, json_string name)"
  using assms
  by (auto simp: AdminService_UpdateSettings_def Let_def bindE_Inr_iff SettingsStore_Set_def
      dest!: sql_Inr upsert_find [where k = keyForumName] split: if_splits)

text \<open>The forum's name is read back as it was saved: after a successful update a settings
  request returns the trimmed name, of 1 to 100 runes, with invalid UTF-8 replaced; for a name
  that is valid UTF-8 this is the name the update returned. The public status shows it too.\<close>

theorem settings_roundtrip:
  assumes upd: "AdminService_UpdateSettings n w = (Inr name, w1)" and env: "calm w2" "w_db w2 = w_db w1"
  shows "name = TrimSpace n \<and> 1 \<le> RuneCountInString name \<and> RuneCountInString name \<le> 100 \<and>
    AdminService_GetSettings w2 = (Inr (to_valid_utf8 name), tick w2) \<and>
    (valid_utf8 name \<longrightarrow> to_valid_utf8 name = name) \<and>
    (installed (w_db w2) \<longrightarrow> InstallService_Status w2 =
       (Inr \<lparr>ist_Installed = True, ist_ForumName = Some (to_valid_utf8 name)\<rparr>, tick (tick w2)))"
proof -
  note R = UpdateSettings_Inr [OF upd]
  have "AdminService_GetSettings w2 = (Inr (to_valid_utf8 name), tick w2)"
    using env R by (simp add: AdminService_GetSettings_def SettingsStore_Get_def handleE_def bindE_def scan_query_calm
        setting_key_text returnE_def json_string_def Unmarshal_string_def)
  moreover have "1 \<le> RuneCountInString name"
    using R by (auto simp: RuneCountInString_def Suc_le_eq)
  moreover have "InstallService_Status w2 =
      (Inr \<lparr>ist_Installed = True, ist_ForumName = Some (to_valid_utf8 name)\<rparr>, tick (tick w2))" if "installed (w_db w2)"
    using env R that by (intro Status_calm_installed) (simp_all add: json_string_def)
  ultimately show ?thesis using R by (auto simp: maxForumName_def to_valid_utf8_id)
qed


section \<open>A run\<close>

definition fresh_forum :: world where
  "fresh_forum = sample_world (migrated 11 12 13)"

definition sample_setup :: InstallInput where
  "sample_setup = \<lparr>inst_ForumName = ''Lodge'', inst_AdminUsername = ''carol'',
     inst_AdminEmail = ''carol@example.org'', inst_AdminPassword = ''sesame-street''\<rparr>"

lemma trim_lodge: "TrimSpace ''Lodge'' = ''Lodge''"
  by (rule TrimSpace_ascii_nospace) (simp add: IsSpace_def)

lemma sample_setup_env: "setup_env sample_ext sample_setup fresh_forum"
proof -
  have "MatchString usernameRe ''carol''" by (simp add: usernameRe_iff username_ok_def rune_class_defs)
  moreover have "runes ''carol'' = map byte_of ''carol''" by (rule runes_ascii) simp
  moreover have "RuneCountInString ''Lodge'' = 5" by (simp add: RuneCount_ascii)
  ultimately have "setup_valid sample_setup"
    using sample_email by (simp add: setup_valid_def sample_setup_def sample_trims trim_lodge)
  moreover have "roles_ok (migrated 11 12 13)" "settings (migrated 11 12 13) = []" "users (migrated 11 12 13) = []"
    using migrated_ok [of 11 12 13 undefined] by (simp_all add: db_ok_def migrated_def)
  ultimately show ?thesis
    by (simp add: setup_env_def fresh_forum_def sample_setup_def sample_trims trim_lodge pg_text_ascii)
qed

theorem setup_works_witness:
  "\<exists>u w1. InstallService_Setup sample_ext DefaultParams sample_setup fresh_forum = (Inr u, w1) \<and>
     RoleAdmin \<in> set (roles_of sample_ext (user_ID u) (w_db w1))"
  using setup_works [OF sample_setup_env sample_argon2_lawful]
  by (auto simp: fresh_forum_def migrated_def role_names)

theorem setup_runs_once_witness:
  "\<exists>u w1. InstallService_Setup sample_ext DefaultParams sample_setup fresh_forum = (Inr u, w1) \<and>
     installed (w_db w1) \<and>
     (\<exists>e w2. InstallService_Setup sample_ext DefaultParams sample_setup w1 = (Inl e, w2) \<and> w_db w2 = w_db w1)"
proof -
  from Setup_succeeds [OF sample_setup_env sample_argon2_lawful] obtain u w1 where
    s: "InstallService_Setup sample_ext DefaultParams sample_setup fresh_forum = (Inr u, w1)" by blast
  then have "installed (w_db w1)"
    using setup_runs_once [of sample_ext DefaultParams sample_setup fresh_forum u w1] by blast
  with s setup_runs_once [of sample_ext DefaultParams sample_setup w1] show ?thesis by blast
qed

lemma sample_lower: "ToLower f ''Moderator'' = ''moderator''" "ToLower f ''owner'' = ''owner''"
  by (simp_all add: ToLower_ascii ascii_lower_def lower_byte_def char_of_eq_iff take_bit_eq_mod)

lemma sample_bob: "find_key user_ID 2 (users sample_db) = Some bob"
  by (simp add: find_key_def sample_db_def sample_rows)

lemma sample_update_roles:
  "\<exists>r w1. AdminService_UpdateUser sample_ext 2 (Some [''Moderator'']) None (sample_world sample_db) = (Inr r, w1)"
proof -
  let ?w = "(tick (sample_world sample_db))\<lparr>w_tx := Some (ans_now (sample_answer 0))\<rparr>"
  let ?d1 = "sample_db\<lparr>user_roles := [(1, 11), (1, 13)]\<rparr>" and ?d2 = "sample_db\<lparr>user_roles := [(1, 11), (1, 13), (2, 12)]\<rparr>"
  have "sql [] (sql_user_roles_clear 2) ?w = (Inr (), (tick ?w)\<lparr>w_db := ?d1\<rparr>)"
    by (simp add: sql_calm sql_user_roles_clear_def delete_rows_def sample_db_def)
  moreover have "sql [''moderator''] (sql_user_roles_insert 2 (\<lambda>r. role_Key r = ''moderator'')) ((tick ?w)\<lparr>w_db := ?d1\<rparr>)
      = (Inr 1, (tick (tick ?w))\<lparr>w_db := ?d2\<rparr>)"
    by (simp add: sql_calm sql_user_roles_insert_def sample_db_def migrated_def sample_rows pg_text_ascii)
  ultimately have "UserStore_UpdateRoles 2 [''moderator''] (sample_world sample_db)
      = (Inr (), (tick ((tick (tick ?w))\<lparr>w_db := ?d2\<rparr>))\<lparr>w_tx := None\<rparr>)"
    unfolding UserStore_UpdateRoles_def
    by (intro with_tx_calm) (simp_all add: bindE_def returnE_def)
  moreover have "allowedRoles ''moderator''" by (simp add: allowedRoles_def role_names)
  ultimately show ?thesis
    by (simp add: AdminService_UpdateUser_def update_user_status_def update_user_roles_def sample_lower bindE_def
        mapErrE_def handleE_def UserStore_GetByID_def UserStore_RolesForUser_def scan_query_calm query_calm
        sample_bob returnE_def)
qed

theorem update_user_exact_witness:
  "\<exists>r w1. AdminService_UpdateUser sample_ext 2 (Some [''Moderator'']) None (sample_world sample_db) = (Inr r, w1) \<and>
     set (uwr_Roles r) = {''moderator''} \<and> find_key user_ID 1 (users (w_db w1)) = find_key user_ID 1 (users sample_db)"
  using sample_update_roles update_user_exact [of sample_ext 2 "Some [''Moderator'']" None "sample_world sample_db"] sample_db_ok
  by (fastforce simp: sample_lower)

theorem rejected_roles_leave_status_witness:
  "\<exists>w1 u1. AdminService_UpdateUser sample_ext 2 (Some [''owner'']) (Some ''banned'') (sample_world sample_db)
       = (Inl ErrInvalidInput, w1) \<and>
     find_key user_ID 2 (users (w_db w1)) = Some u1 \<and> user_Status u1 = ''banned''"
  using rejected_roles_leave_status [of "sample_world sample_db" 2 bob "''banned''" "[''owner'']" sample_ext]
  by (simp add: sample_bob allowedStatus_def allowedRoles_def sample_lower status_names role_names)

theorem settings_roundtrip_witness:
  "\<exists>w1. AdminService_UpdateSettings ''Lodge'' (sample_world sample_db) = (Inr ''Lodge'', w1) \<and>
     AdminService_GetSettings (sample_world (w_db w1)) = (Inr ''Lodge'', tick (sample_world (w_db w1)))"
proof -
  have "valid_utf8 ''Lodge''" by (rule valid_utf8_ascii) simp
  have "RuneCountInString ''Lodge'' = 5" "pg_text ''Lodge''" by (simp_all add: RuneCount_ascii pg_text_ascii)
  moreover from this obtain d where
    "SettingsStore_Set keyForumName (json_string ''Lodge'') (sample_world sample_db) = (Inr (), (tick (sample_world sample_db))\<lparr>w_db := d\<rparr>)"
    using SettingsStore_Set_calm [of "sample_world sample_db" keyForumName] jsonb_ok_text by (fastforce simp: setting_key_text)
  ultimately have u: "AdminService_UpdateSettings ''Lodge'' (sample_world sample_db) = (Inr ''Lodge'', (tick (sample_world sample_db))\<lparr>w_db := d\<rparr>)"
    by (simp add: AdminService_UpdateSettings_def Let_def trim_lodge maxForumName_def bindE_def returnE_def)
  with settings_roundtrip [OF u, of "sample_world d"] \<open>valid_utf8 ''Lodge''\<close> show ?thesis by auto
qed

end
