(* ===== verification/Message_Store.thy ===== *)
theory Message_Store
  imports Database
begin

text \<open>
  \<^verbatim>\<open>internal/store/message.go\<close>: private messages and notifications. Both tables carry a read
  marker; what the two \<^verbatim>\<open>MarkRead\<close> and \<^verbatim>\<open>CountUnread\<close> statements promise is stated once, in
  the locale \<open>read_marks\<close>, and interpreted on both.
\<close>

section \<open>Read markers\<close>

locale read_marks = keyed_rows key
  for key :: "'r \<Rightarrow> uuid" +
  fixes owner :: "'r \<Rightarrow> uuid"
    and read_at :: "'r \<Rightarrow> time option"
    and set_read :: "time \<Rightarrow> 'r \<Rightarrow> 'r"
  assumes key_set_read: "key (set_read t r) = key r"
    and owner_set_read: "owner (set_read t r) = owner r"
    and read_set_read: "read_at (set_read t r) = Some t"
begin

abbreviation unread :: "uuid \<Rightarrow> 'r \<Rightarrow> bool" where
  "unread u r \<equiv> owner r = u \<and> read_at r = None"

abbreviation markable :: "uuid \<Rightarrow> uuid \<Rightarrow> 'r \<Rightarrow> bool" where
  "markable i u r \<equiv> key r = i \<and> unread u r"

lemma keys_kept: "map key (update_rows p (set_read t) rows) = map key rows"
  by (simp add: map_update_rows key_set_read)

lemma owners_kept: "map owner (update_rows p (set_read t) rows) = map owner rows"
  by (simp add: map_update_rows owner_set_read)

text \<open>Marking one row read takes exactly it out of its owner's unread rows.\<close>

lemma unread_after_mark:
  assumes "distinct (map key rows)"
  shows "count_rows (unread u) (update_rows (markable i u) (set_read t) rows)
         = count_rows (unread u) rows - count_rows (markable i u) rows"
proof -
  have "count_rows (unread u) rows =
      count_rows (unread u) (update_rows (markable i u) (set_read t) rows) + count_rows (markable i u) rows"
    by (induction rows) (auto simp: count_rows_def update_rows_def read_set_read)
  then show ?thesis by simp
qed

lemma markable_at_most_one:
  assumes "distinct (map key rows)"
  shows "count_rows (markable i u) rows \<le> 1"
proof -
  have "count_rows (markable i u) rows \<le> count_rows (\<lambda>r. key r = i) rows"
    by (rule count_rows_mono) simp
  also have "\<dots> \<le> 1" using count_key [OF assms, of i] by (simp split: option.splits)
  finally show ?thesis .
qed

text \<open>Other owners' counts do not change, and a second mark finds nothing.\<close>

lemma unread_others:
  "v \<noteq> u \<Longrightarrow> (\<And>r. p r \<Longrightarrow> owner r = u) \<Longrightarrow>
     count_rows (unread v) (update_rows p (set_read t) rows) = count_rows (unread v) rows"
  by (rule count_rows_update) (auto simp: owner_set_read)

lemma mark_again_none:
  "count_rows (markable i u) (update_rows (markable i u) (set_read t) rows) = 0"
  by (auto simp: count_rows_0_iff set_update_rows read_set_read)

lemma mark_all_unread: "count_rows (unread u) (update_rows (unread u) (set_read t) rows) = 0"
  by (auto simp: count_rows_0_iff set_update_rows read_set_read)

end

interpretation pmR: read_marks pm_ID pm_RecipientID pm_ReadAt "\<lambda>t m. m\<lparr>pm_ReadAt := Some t\<rparr>"
  by unfold_locales simp_all

interpretation notifR: read_marks notif_ID notif_UserID notif_ReadAt "\<lambda>t n. n\<lparr>notif_ReadAt := Some t\<rparr>"
  by unfold_locales simp_all

section \<open>Private messages\<close>

text \<open>
  The column list \<^verbatim>\<open>pmColumns\<close> is qualified with \<^verbatim>\<open>pm\<close>, the alias of the \<^verbatim>\<open>SELECT\<close>
  statements that share it. In \<^verbatim>\<open>INSERT INTO private_messages (..) VALUES (..) RETURNING ..\<close> only
  the name of the table is in scope: PostgreSQL resolves the columns before it executes the
  statement and rejects another qualifier (\<^verbatim>\<open>42P01\<close>, missing FROM-clause entry for table "pm").
\<close>

definition pmColumns :: "(string \<times> string) list" where
  "pmColumns =
     [(''pm'', ''id''), (''pm'', ''sender_id''), (''pm'', ''recipient_id''), (''pm'', ''body''),
      (''pm'', ''read_at''), (''pm'', ''created_at'')]"

definition in_scope :: "string \<Rightarrow> (string \<times> string) list \<Rightarrow> bool" where
  "in_scope table cols \<longleftrightarrow> list_all (\<lambda>(q, c). q = [] \<or> q = table) cols"

definition sql_messages_insert :: "NewPrivateMessage \<Rightarrow> PrivateMessage stmt" where
  "sql_messages_insert m a d =
     (if \<not> in_scope ''private_messages'' pmColumns then Inl UndefinedTable
      else if ans_uuid a \<in> pm_ID ` set (private_messages d) then Inl UniqueViolation
      else if newpm_SenderID m \<notin> user_ids d \<or> newpm_RecipientID m \<notin> user_ids d then Inl ForeignKeyViolation
      else let pm = \<lparr>pm_ID = ans_uuid a, pm_SenderID = newpm_SenderID m, pm_RecipientID = newpm_RecipientID m,
                     pm_Body = newpm_Body m, pm_ReadAt = None, pm_CreatedAt = ans_now a\<rparr>
           in Inr (pm, d\<lparr>private_messages := private_messages d @ [pm]\<rparr>))"

lemma pmColumns_unresolved: "\<not> in_scope ''private_messages'' pmColumns"
  by (simp add: in_scope_def pmColumns_def)

definition MessageStore_Send :: "NewPrivateMessage \<Rightarrow> PrivateMessage dbop" where
  "MessageStore_Send m = sql [newpm_Body m] (sql_messages_insert m)"

definition between :: "uuid \<Rightarrow> uuid \<Rightarrow> PrivateMessage \<Rightarrow> bool" where
  "between a b m \<longleftrightarrow>
     (pm_SenderID m = a \<and> pm_RecipientID m = b) \<or> (pm_SenderID m = b \<and> pm_RecipientID m = a)"

definition pm_with_user :: "db \<Rightarrow> uuid \<Rightarrow> PrivateMessage \<Rightarrow> PMConversation option" where
  "pm_with_user d uid m =
     map_option (\<lambda>u. \<lparr>pmc_Message = m, pmc_SenderUsername = user_Username u,
                      pmc_SenderDisplay = user_DisplayName u\<rparr>) (find_key user_ID uid (users d))"

definition conversation_rows :: "answer \<Rightarrow> db \<Rightarrow> uuid \<Rightarrow> uuid \<Rightarrow> PMConversation list" where
  "conversation_rows an d a b =
     order_by (\<lambda>c. pm_CreatedAt (pmc_Message c)) (\<lambda>c. ans_rank an (pm_ID (pmc_Message c)))
       (List.map_filter (\<lambda>m. pm_with_user d (pm_SenderID m) m) (filter (between a b) (private_messages d)))"

definition MessageStore_Conversation ::
    "uuid \<Rightarrow> uuid \<Rightarrow> nat \<Rightarrow> nat \<Rightarrow> (PMConversation list \<times> nat) dbop" where
  "MessageStore_Conversation a b limit offset =
     bindE (query [] (\<lambda>an d. count_rows (between a b) (private_messages d))) (\<lambda>total.
     bindE (query [] (\<lambda>an d. page limit offset (conversation_rows an d a b))) (\<lambda>items.
     returnE (items, total)))"

text \<open>\<^verbatim>\<open>Inbox\<close>: \<^verbatim>\<open>DISTINCT ON (partner)\<close> keeps the newest message of each partner; the rows come
  in the order of the partners' ids, joined with the partner's account, and the loop then
  overwrites the recipient.\<close>

definition partner :: "uuid \<Rightarrow> PrivateMessage \<Rightarrow> uuid" where
  "partner u m = (if pm_SenderID m = u then pm_RecipientID m else pm_SenderID m)"

definition messages_of :: "uuid \<Rightarrow> db \<Rightarrow> PrivateMessage list" where
  "messages_of u d =
     filter (\<lambda>m. pm_SenderID m = u \<or> pm_RecipientID m = u) (private_messages d)"

definition newest_with :: "answer \<Rightarrow> uuid \<Rightarrow> db \<Rightarrow> uuid \<Rightarrow> PrivateMessage" where
  "newest_with an u d p =
     hd (order_by (\<lambda>m. - pm_CreatedAt m) (\<lambda>m. ans_rank an (pm_ID m))
          (filter (\<lambda>m. partner u m = p) (messages_of u d)))"

definition inbox_rows :: "answer \<Rightarrow> db \<Rightarrow> uuid \<Rightarrow> PMConversation list" where
  "inbox_rows an d u =
     List.map_filter (\<lambda>p. pm_with_user d p (newest_with an u d p))
       (sort (remdups (map (partner u) (messages_of u d))))"

definition MessageStore_Inbox :: "uuid \<Rightarrow> nat \<Rightarrow> nat \<Rightarrow> (PMConversation list \<times> nat) dbop" where
  "MessageStore_Inbox u limit offset =
     bindE (query [] (\<lambda>an d. length (remdups (map (partner u) (messages_of u d))))) (\<lambda>total.
     bindE (query [] (\<lambda>an d. page limit offset (inbox_rows an d u))) (\<lambda>rows.
     returnE (map (\<lambda>c. c\<lparr>pmc_Message := (pmc_Message c)\<lparr>pm_RecipientID := u\<rparr>\<rparr>) rows, total)))"

definition sql_messages_mark :: "uuid \<Rightarrow> uuid \<Rightarrow> nat stmt" where
  "sql_messages_mark i recipient a d =
     (let p = (\<lambda>m. pm_ID m = i \<and> pm_RecipientID m = recipient \<and> pm_ReadAt m = None)
      in Inr (count_rows p (private_messages d),
              d\<lparr>private_messages := update_rows p (\<lambda>m. m\<lparr>pm_ReadAt := Some (ans_now a)\<rparr>)
                                      (private_messages d)\<rparr>))"

definition MessageStore_MarkRead :: "uuid \<Rightarrow> uuid \<Rightarrow> unit dbop" where
  "MessageStore_MarkRead i recipient = need_rows (sql [] (sql_messages_mark i recipient))"

definition MessageStore_CountUnread :: "uuid \<Rightarrow> nat dbop" where
  "MessageStore_CountUnread u =
     query [] (\<lambda>a d. count_rows (\<lambda>m. pm_RecipientID m = u \<and> pm_ReadAt m = None) (private_messages d))"

section \<open>Notifications\<close>

definition sql_notifications_insert :: "uuid \<Rightarrow> string \<Rightarrow> json \<Rightarrow> Notification stmt" where
  "sql_notifications_insert u typ payload a d =
     (if \<not> jsonb_ok payload then Inl UntranslatableCharacter
      else if ans_uuid a \<in> notif_ID ` set (notifications d) then Inl UniqueViolation
      else if u \<notin> user_ids d then Inl ForeignKeyViolation
      else let n = \<lparr>notif_ID = ans_uuid a, notif_UserID = u, notif_Type = typ, notif_Payload = payload,
                    notif_ReadAt = None, notif_CreatedAt = ans_now a\<rparr>
           in Inr (n, d\<lparr>notifications := notifications d @ [n]\<rparr>))"

definition NotificationStore_Create :: "NewNotification \<Rightarrow> Notification dbop" where
  "NotificationStore_Create n =
     (let payload = (case newnotif_Payload n of None \<Rightarrow> JObject [] | Some p \<Rightarrow> p)
      in sql [newnotif_Type n] (sql_notifications_insert (newnotif_UserID n) (newnotif_Type n) payload))"

definition notification_rows :: "answer \<Rightarrow> db \<Rightarrow> uuid \<Rightarrow> Notification list" where
  "notification_rows an d u =
     order_by (\<lambda>n. - notif_CreatedAt n) (\<lambda>n. ans_rank an (notif_ID n))
       (filter (\<lambda>n. notif_UserID n = u) (notifications d))"

definition NotificationStore_List :: "uuid \<Rightarrow> nat \<Rightarrow> nat \<Rightarrow> (Notification list \<times> nat) dbop" where
  "NotificationStore_List u limit offset =
     bindE (query [] (\<lambda>an d. count_rows (\<lambda>n. notif_UserID n = u) (notifications d))) (\<lambda>total.
     bindE (query [] (\<lambda>an d. page limit offset (notification_rows an d u))) (\<lambda>items.
     returnE (items, total)))"

definition sql_notifications_mark :: "(Notification \<Rightarrow> bool) \<Rightarrow> nat stmt" where
  "sql_notifications_mark p a d =
     Inr (count_rows p (notifications d),
          d\<lparr>notifications := update_rows p (\<lambda>n. n\<lparr>notif_ReadAt := Some (ans_now a)\<rparr>) (notifications d)\<rparr>)"

definition NotificationStore_MarkRead :: "uuid \<Rightarrow> uuid \<Rightarrow> unit dbop" where
  "NotificationStore_MarkRead i u =
     need_rows (sql [] (sql_notifications_mark
       (\<lambda>n. notif_ID n = i \<and> notif_UserID n = u \<and> notif_ReadAt n = None)))"

definition NotificationStore_MarkAllRead :: "uuid \<Rightarrow> unit dbop" where
  "NotificationStore_MarkAllRead u =
     bindE (sql [] (sql_notifications_mark (\<lambda>n. notif_UserID n = u \<and> notif_ReadAt n = None)))
       (\<lambda>_. returnE ())"

definition NotificationStore_CountUnread :: "uuid \<Rightarrow> nat dbop" where
  "NotificationStore_CountUnread u =
     query [] (\<lambda>a d. count_rows (\<lambda>n. notif_UserID n = u \<and> notif_ReadAt n = None) (notifications d))"

lemmas message_store_defs =
  MessageStore_Send_def MessageStore_Conversation_def MessageStore_Inbox_def MessageStore_MarkRead_def
  MessageStore_CountUnread_def NotificationStore_Create_def NotificationStore_List_def
  NotificationStore_MarkRead_def NotificationStore_MarkAllRead_def NotificationStore_CountUnread_def

section \<open>The statements keep the schema\<close>

lemma sql_messages_mark_ok: "stmt_keeps (db_ok X) (sql_messages_mark i u)"
proof (rule stmt_keepsI)
  fix a d x d' assume ok: "db_ok X d" and r: "sql_messages_mark i u a d = Inr (x, d')"
  let ?ms = "update_rows (\<lambda>m. pm_ID m = i \<and> pm_RecipientID m = u \<and> pm_ReadAt m = None)
               (\<lambda>m. m\<lparr>pm_ReadAt := Some (ans_now a)\<rparr>) (private_messages d)"
  from r have d': "d' = d\<lparr>private_messages := ?ms\<rparr>" by (auto simp: sql_messages_mark_def Let_def)
  have "\<forall>m \<in> set ?ms. pm_SenderID m \<in> user_ids d \<and> pm_RecipientID m \<in> user_ids d"
    using ok by (auto simp: db_ok_def messages_ok_def elim!: in_update_rowsE)
  moreover have "map pm_ID ?ms = map pm_ID (private_messages d)" by (rule pmR.keys_kept)
  ultimately show "db_ok X d'" using ok by (simp add: d' db_ok_def messages_ok_def)
qed

lemma sql_notifications_mark_ok: "stmt_keeps (db_ok X) (sql_notifications_mark p)"
proof (rule stmt_keepsI)
  fix a d x d' assume ok: "db_ok X d" and r: "sql_notifications_mark p a d = Inr (x, d')"
  let ?ns = "update_rows p (\<lambda>n. n\<lparr>notif_ReadAt := Some (ans_now a)\<rparr>) (notifications d)"
  have m: "map notif_ID ?ns = map notif_ID (notifications d)" by (rule notifR.keys_kept)
  have "map notif_UserID ?ns = map notif_UserID (notifications d)" by (rule notifR.owners_kept)
  then have "notif_UserID ` set ?ns = notif_UserID ` set (notifications d)" by (metis set_map)
  moreover from r have "d' = d\<lparr>notifications := ?ns\<rparr>" by (simp add: sql_notifications_mark_def)
  ultimately show "db_ok X d'" using ok m by (simp add: db_ok_def notifications_ok_def)
qed

lemma sql_notifications_insert_ok: "stmt_keeps (db_ok X) (sql_notifications_insert u t p)"
proof (rule stmt_keepsI)
  fix a d x d' assume ok: "db_ok X d" and r: "sql_notifications_insert u t p a d = Inr (x, d')"
  then have "d' = d\<lparr>notifications := notifications d @ [x]\<rparr>"
    and "notif_ID x \<notin> notif_ID ` set (notifications d)" "notif_UserID x \<in> user_ids d"
    by (auto simp: sql_notifications_insert_def Let_def split: if_splits)
  with ok show "db_ok X d'" by (simp add: db_ok_def notifications_ok_def)
qed

lemma sql_messages_insert_ok: "stmt_keeps (db_ok X) (sql_messages_insert m)"
proof (rule stmt_keepsI)
  fix a d x d' assume ok: "db_ok X d" and r: "sql_messages_insert m a d = Inr (x, d')"
  then have "d' = d\<lparr>private_messages := private_messages d @ [x]\<rparr>"
    and "pm_ID x \<notin> pm_ID ` set (private_messages d)" "pm_SenderID x \<in> user_ids d" "pm_RecipientID x \<in> user_ids d"
    by (auto simp: sql_messages_insert_def Let_def split: if_splits)
  with ok show "db_ok X d'" by (simp add: db_ok_def messages_ok_def)
qed

lemma message_store_keeps_schema [keeps_intros]:
  "keeps (on_db (db_ok X)) (MessageStore_Send m)"
  "keeps (on_db (db_ok X)) (MessageStore_Conversation a b l k)"
  "keeps (on_db (db_ok X)) (MessageStore_Inbox a l k)"
  "keeps (on_db (db_ok X)) (MessageStore_MarkRead i a)"
  "keeps (on_db (db_ok X)) (MessageStore_CountUnread a)"
  "keeps (on_db (db_ok X)) (NotificationStore_Create n)"
  "keeps (on_db (db_ok X)) (NotificationStore_List a l k)"
  "keeps (on_db (db_ok X)) (NotificationStore_MarkRead i a)"
  "keeps (on_db (db_ok X)) (NotificationStore_MarkAllRead a)"
  "keeps (on_db (db_ok X)) (NotificationStore_CountUnread a)"
  unfolding message_store_defs Let_def
  by (intro keeps_intros sql_messages_mark_ok sql_notifications_mark_ok
        sql_notifications_insert_ok sql_messages_insert_ok)+

lemma message_store_keeps_calm [keeps_intros]:
  "keeps calm (MessageStore_Send m)" "keeps calm (MessageStore_Conversation a b l k)"
  "keeps calm (MessageStore_Inbox a l k)" "keeps calm (MessageStore_MarkRead i a)"
  "keeps calm (MessageStore_CountUnread a)" "keeps calm (NotificationStore_Create n)"
  "keeps calm (NotificationStore_List a l k)" "keeps calm (NotificationStore_MarkRead i a)"
  "keeps calm (NotificationStore_MarkAllRead a)" "keeps calm (NotificationStore_CountUnread a)"
  unfolding message_store_defs Let_def by (intro keeps_intros)+

end
