(* ===== verification/Message_Service.thy ===== *)
theory Message_Service
  imports User_Store Message_Store Forum_Service Samples
begin

text \<open>
  \<^verbatim>\<open>internal/services/message.go\<close>: private messages and notifications over the stores. The
  theory shows what a conversation and an inbox page contain, how the read markers and the
  unread counters move together, that the statement behind \<^verbatim>\<open>Send\<close> cannot succeed, and that
  the notification of a message reaches its recipient's list and counter.
\<close>

definition maxPMBodyLength :: nat where "maxPMBodyLength = 10000"

definition notifTypePM :: string where "notifTypePM = ''pm''"

section \<open>Operations\<close>

definition MessageService_Send :: "uuid \<Rightarrow> uuid \<Rightarrow> string \<Rightarrow> PrivateMessage dbop" where
  "MessageService_Send sender recipient body0 =
     (if sender = recipient then throwE ErrInvalidInput
      else let body = TrimSpace body0 in
        if body = [] \<or> RuneCountInString body > maxPMBodyLength then throwE ErrInvalidInput
        else
          bindE (mapErrE (notFoundAs ErrUserNotFound) (UserStore_GetByID recipient)) (\<lambda>_.
          MessageStore_Send \<lparr>newpm_SenderID = sender, newpm_RecipientID = recipient, newpm_Body = body\<rparr>))"

definition MessageService_Conversation ::
    "uuid \<Rightarrow> uuid \<Rightarrow> nat \<Rightarrow> nat \<Rightarrow> (PMConversation list \<times> nat) dbop" where
  "MessageService_Conversation a b limit offset = MessageStore_Conversation a b limit offset"

definition MessageService_Inbox :: "uuid \<Rightarrow> nat \<Rightarrow> nat \<Rightarrow> (PMConversation list \<times> nat) dbop" where
  "MessageService_Inbox userID limit offset = MessageStore_Inbox userID limit offset"

definition MessageService_MarkRead :: "uuid \<Rightarrow> uuid \<Rightarrow> unit dbop" where
  "MessageService_MarkRead i recipient = mapErrE (notFoundAs ErrNotFound) (MessageStore_MarkRead i recipient)"

definition MessageService_UnreadCount :: "uuid \<Rightarrow> nat dbop" where
  "MessageService_UnreadCount userID = MessageStore_CountUnread userID"

text \<open>The first 80 bytes and an ellipsis (the three bytes of U+2026).\<close>

definition preview :: "string \<Rightarrow> string" where
  "preview s = (if length s \<le> 80 then s else take 80 s @ EncodeRune 8230)"

text \<open>\<^verbatim>\<open>json.Marshal\<close> of a map writes its keys in order.\<close>

definition pm_payload :: "ext \<Rightarrow> PrivateMessage \<Rightarrow> json" where
  "pm_payload X msg =
     JObject [(''message_id'', json_string (uuid_String X (pm_ID msg))),
              (''preview'', json_string (preview (pm_Body msg))),
              (''sender_id'', json_string (uuid_String X (pm_SenderID msg)))]"

definition NotificationService_OnPrivateMessage :: "ext \<Rightarrow> PrivateMessage \<Rightarrow> Notification dbop" where
  "NotificationService_OnPrivateMessage X msg =
     NotificationStore_Create
       \<lparr>newnotif_UserID = pm_RecipientID msg, newnotif_Type = notifTypePM, newnotif_Payload = Some (pm_payload X msg)\<rparr>"

definition NotificationService_List :: "uuid \<Rightarrow> nat \<Rightarrow> nat \<Rightarrow> (Notification list \<times> nat) dbop" where
  "NotificationService_List userID limit offset = NotificationStore_List userID limit offset"

definition NotificationService_MarkRead :: "uuid \<Rightarrow> uuid \<Rightarrow> unit dbop" where
  "NotificationService_MarkRead i userID = mapErrE (notFoundAs ErrNotFound) (NotificationStore_MarkRead i userID)"

definition NotificationService_MarkAllRead :: "uuid \<Rightarrow> unit dbop" where
  "NotificationService_MarkAllRead userID = NotificationStore_MarkAllRead userID"

definition NotificationService_UnreadCount :: "uuid \<Rightarrow> nat dbop" where
  "NotificationService_UnreadCount userID = NotificationStore_CountUnread userID"

lemmas message_service_defs =
  MessageService_Send_def MessageService_Conversation_def MessageService_Inbox_def MessageService_MarkRead_def
  MessageService_UnreadCount_def NotificationService_OnPrivateMessage_def NotificationService_List_def
  NotificationService_MarkRead_def NotificationService_MarkAllRead_def NotificationService_UnreadCount_def

lemma message_service_keeps_schema [keeps_intros]:
  "keeps (on_db (db_ok X)) (MessageService_Send s r b)"
  "keeps (on_db (db_ok X)) (MessageService_Conversation a c l k)"
  "keeps (on_db (db_ok X)) (MessageService_Inbox a l k)"
  "keeps (on_db (db_ok X)) (MessageService_MarkRead i a)"
  "keeps (on_db (db_ok X)) (MessageService_UnreadCount a)"
  "keeps (on_db (db_ok X)) (NotificationService_OnPrivateMessage Y m)"
  "keeps (on_db (db_ok X)) (NotificationService_List a l k)"
  "keeps (on_db (db_ok X)) (NotificationService_MarkRead i a)"
  "keeps (on_db (db_ok X)) (NotificationService_MarkAllRead a)"
  "keeps (on_db (db_ok X)) (NotificationService_UnreadCount a)"
  unfolding message_service_defs Let_def by (intro keeps_intros)+

section \<open>Sending\<close>

lemma MessageStore_Send_fails: "\<exists>e. MessageStore_Send m w = (Inl (PgErr e), tick w)"
  by (auto simp: MessageStore_Send_def sql_def sql_messages_insert_def pmColumns_unresolved Let_def)

text \<open>C36: No private message is ever sent. Whatever the arguments and the environment,
  \<^verbatim>\<open>Send\<close> returns an error and changes no table; for a valid message to an existing user, in an
  environment that answers, the error is PostgreSQL's rejection of the \<^verbatim>\<open>RETURNING\<close> list.\<close>

theorem send_never_succeeds:
  "(\<exists>e w1. MessageService_Send s r b w = (Inl e, w1) \<and> w_db w1 = w_db w) \<and>
   (calm w \<and> s \<noteq> r \<and> TrimSpace b \<noteq> [] \<and> RuneCountInString (TrimSpace b) \<le> maxPMBodyLength \<and>
      pg_text (TrimSpace b) \<and> r \<in> user_ids (w_db w) \<longrightarrow>
    fst (MessageService_Send s r b w) = Inl (PgErr UndefinedTable))"
proof -
  let ?m = "\<lparr>newpm_SenderID = s, newpm_RecipientID = r, newpm_Body = TrimSpace b\<rparr>"
  have db: "\<exists>e w1. bindE (mapErrE (notFoundAs ErrUserNotFound) (UserStore_GetByID r)) (\<lambda>_. MessageStore_Send ?m) w
      = (Inl e, w1) \<and> w_db w1 = w_db w"
  proof -
    obtain x w1 where m: "bindE (mapErrE (notFoundAs ErrUserNotFound) (UserStore_GetByID r)) (\<lambda>_. MessageStore_Send ?m) w = (x, w1)"
      by fastforce
    from m [unfolded UserStore_GetByID_def] show ?thesis
      by (cases rule: bind_read_cases) (use m MessageStore_Send_fails [of ?m "tick w"] in auto)
  qed
  then show ?thesis
  proof (intro conjI impI)
    show "\<exists>e w1. MessageService_Send s r b w = (Inl e, w1) \<and> w_db w1 = w_db w"
      using db by (auto simp: MessageService_Send_def Let_def)
  next
    assume a: "calm w \<and> s \<noteq> r \<and> TrimSpace b \<noteq> [] \<and> RuneCountInString (TrimSpace b) \<le> maxPMBodyLength \<and>
      pg_text (TrimSpace b) \<and> r \<in> user_ids (w_db w)"
    then have "find_key user_ID r (users (w_db w)) \<noteq> None" by (simp add: userT.find_key_None)
    with a show "fst (MessageService_Send s r b w) = Inl (PgErr UndefinedTable)"
      by (auto simp: MessageService_Send_def Let_def bindE_def mapErrE_def handleE_def UserStore_GetByID_def
          scan_query_calm MessageStore_Send_def sql_calm sql_messages_insert_def pmColumns_unresolved)
  qed
qed

theorem send_never_succeeds_witness:
  "fst (MessageService_Send 1 2 ''hello'' (sample_world sample_db)) = Inl (PgErr UndefinedTable)"
proof -
  have "TrimSpace ''hello'' = ''hello''" by (rule TrimSpace_ascii_nospace) (simp add: IsSpace_def)
  moreover have "RuneCountInString ''hello'' = 5" "pg_text ''hello''" by (simp_all add: RuneCount_ascii pg_text_ascii)
  ultimately show ?thesis
    using send_never_succeeds [of 1 2 "''hello''" "sample_world sample_db"]
    by (simp add: maxPMBodyLength_def sample_db_def sample_rows)
qed

section \<open>Reading conversations\<close>

lemma map_filter_total: "(\<And>x. x \<in> set xs \<Longrightarrow> f x = Some (g x)) \<Longrightarrow> List.map_filter f xs = map g xs"
  by (induction xs) (auto simp: map_filter_simps)

definition row_of :: "db \<Rightarrow> uuid \<Rightarrow> PrivateMessage \<Rightarrow> PMConversation" where
  "row_of d uid m =
     (let u = the (find_key user_ID uid (users d))
      in \<lparr>pmc_Message = m, pmc_SenderUsername = user_Username u, pmc_SenderDisplay = user_DisplayName u\<rparr>)"

lemma pm_with_user_known: "uid \<in> user_ids d \<Longrightarrow> pm_with_user d uid m = Some (row_of d uid m)"
  by (cases "find_key user_ID uid (users d)")
     (auto simp: pm_with_user_def row_of_def Let_def userT.find_key_None)

lemma conversation_rows_ok:
  assumes "db_ok X d"
  shows "mset (conversation_rows an d a b) =
    mset (map (\<lambda>m. row_of d (pm_SenderID m) m) (filter (between a b) (private_messages d)))"
proof -
  have "pm_with_user d (pm_SenderID m) m = Some (row_of d (pm_SenderID m) m)" if "m \<in> set (private_messages d)" for m
    using assms that by (intro pm_with_user_known) (auto simp: db_ok_def messages_ok_def)
  then have "List.map_filter (\<lambda>m. pm_with_user d (pm_SenderID m) m) (filter (between a b) (private_messages d))
      = map (\<lambda>m. row_of d (pm_SenderID m) m) (filter (between a b) (private_messages d))"
    by (intro map_filter_total) simp
  then show ?thesis by (simp add: conversation_rows_def)
qed

text \<open>C37: A conversation request returns the requested page of the messages between the two
  users: of a list that has each of them once, oldest first, with its sender's name, and whose
  length is the total that is returned.\<close>

theorem conversation_page:
  assumes conv: "MessageService_Conversation a b limit offset w = (Inr (items, tot), w1)" and ok: "db_ok X (w_db w)"
  shows "\<exists>rows. items = page limit offset rows \<and> length rows = tot \<and>
    mset (map pmc_Message rows) = mset (filter (between a b) (private_messages (w_db w))) \<and>
    sorted (map (\<lambda>c. pm_CreatedAt (pmc_Message c)) rows) \<and>
    (\<forall>c \<in> set rows. c = row_of (w_db w) (pm_SenderID (pmc_Message c)) (pmc_Message c)) \<and> w_db w1 = w_db w"
proof -
  define an where "an = stmt_answer (tick w)"
  define rows where "rows = conversation_rows an (w_db w) a b"
  from conv have i: "items = page limit offset rows" "tot = count_rows (between a b) (private_messages (w_db w))"
    "w_db w1 = w_db w"
    by (auto simp: MessageService_Conversation_def MessageStore_Conversation_def bindE_Inr_iff rows_def an_def
        dest!: query_result)
  note R = conversation_rows_ok [OF ok, of an a b, folded rows_def]
  have set_rows: "set rows = (\<lambda>m. row_of (w_db w) (pm_SenderID m) m) ` set (filter (between a b) (private_messages (w_db w)))"
    using mset_eq_setD [OF R] by simp
  have "mset (map pmc_Message rows) = image_mset pmc_Message (mset rows)" by simp
  also have "\<dots> = mset (filter (between a b) (private_messages (w_db w)))"
    unfolding R by (simp add: row_of_def Let_def comp_def flip: mset_map)
  finally have m: "mset (map pmc_Message rows) = mset (filter (between a b) (private_messages (w_db w)))" .
  then have "length rows = tot" using mset_eq_length [OF m] i(2) by (simp add: count_rows_def)
  moreover have "sorted (map (\<lambda>c. pm_CreatedAt (pmc_Message c)) rows)"
    by (simp add: rows_def conversation_rows_def sorted_order_by)
  moreover have "\<forall>c \<in> set rows. c = row_of (w_db w) (pm_SenderID (pmc_Message c)) (pmc_Message c)"
    by (auto simp: set_rows row_of_def Let_def)
  ultimately show ?thesis using i m by blast
qed

lemma newest_with_spec:
  assumes "p \<in> partner u ` set (messages_of u d)"
  shows "newest_with an u d p \<in> set (messages_of u d) \<and> partner u (newest_with an u d p) = p \<and>
    (\<forall>m \<in> set (messages_of u d). partner u m = p \<longrightarrow> pm_CreatedAt m \<le> pm_CreatedAt (newest_with an u d p))"
proof -
  let ?ms = "filter (\<lambda>m. partner u m = p) (messages_of u d)"
  let ?o = "order_by (\<lambda>m. - pm_CreatedAt m) (\<lambda>m. ans_rank an (pm_ID m)) ?ms"
  have "?ms \<noteq> []" using assms by (auto simp: filter_empty_conv)
  then have "?o \<noteq> []" by (metis length_order_by length_0_conv)
  then obtain x xs where o: "?o = x # xs" by (cases ?o) auto
  then have x: "newest_with an u d p = x" by (simp add: newest_with_def)
  have "set ?o = set ?ms" by simp
  then have "x \<in> set ?ms" using o by (metis list.set_intros(1))
  moreover have "sorted (map (\<lambda>m. - pm_CreatedAt m) ?o)" by (rule sorted_order_by)
  then have "\<forall>m \<in> set xs. pm_CreatedAt m \<le> pm_CreatedAt x" using o by simp
  with \<open>set ?o = set ?ms\<close> o have "\<forall>m \<in> set ?ms. pm_CreatedAt m \<le> pm_CreatedAt x" by (metis order_refl set_ConsD)
  ultimately show ?thesis by (auto simp: x)
qed

lemma list_all2_page: "list_all2 P xs ys \<Longrightarrow> list_all2 P (page n k xs) (page n k ys)"
  by (simp add: page_def list_all2_takeI list_all2_dropI)

text \<open>C38: An inbox request returns one entry per partner, the newest message exchanged with
  that partner, under the partner's name; the partners come in the order of their ids, and the
  total is the number of partners. (The recipient shown is always the reader.)\<close>

theorem inbox_page:
  assumes inbox: "MessageService_Inbox u limit offset w = (Inr (items, tot), w1)" and ok: "db_ok X (w_db w)"
  shows "\<exists>ps. sorted ps \<and> distinct ps \<and> set ps = partner u ` set (messages_of u (w_db w)) \<and> length ps = tot \<and>
    list_all2 (\<lambda>p c. \<exists>m \<in> set (messages_of u (w_db w)). partner u m = p \<and>
        (\<forall>m' \<in> set (messages_of u (w_db w)). partner u m' = p \<longrightarrow> pm_CreatedAt m' \<le> pm_CreatedAt m) \<and>
        c = row_of (w_db w) p (m\<lparr>pm_RecipientID := u\<rparr>)) (page limit offset ps) items"
proof -
  define an where "an = stmt_answer (tick w)"
  define ps where "ps = sort (remdups (map (partner u) (messages_of u (w_db w))))"
  let ?fix = "\<lambda>c. c\<lparr>pmc_Message := (pmc_Message c)\<lparr>pm_RecipientID := u\<rparr>\<rparr>"
  from inbox have i: "items = map ?fix (page limit offset (inbox_rows an (w_db w) u))" "tot = length ps"
    by (auto simp: MessageService_Inbox_def MessageStore_Inbox_def bindE_Inr_iff an_def ps_def dest!: query_result)
  have set_ps: "set ps = partner u ` set (messages_of u (w_db w))" by (simp add: ps_def)
  have known: "p \<in> user_ids (w_db w)" if "p \<in> set ps" for p
    using that ok by (auto simp: set_ps messages_of_def partner_def db_ok_def messages_ok_def)
  then have "inbox_rows an (w_db w) u = map (\<lambda>p. row_of (w_db w) p (newest_with an u (w_db w) p)) ps"
    unfolding inbox_rows_def ps_def [symmetric] by (intro map_filter_total pm_with_user_known)
  then have "items = page limit offset (map (\<lambda>p. ?fix (row_of (w_db w) p (newest_with an u (w_db w) p))) ps)"
    by (simp add: i(1) page_def take_map drop_map)
  moreover have "list_all2 (\<lambda>p c. \<exists>m \<in> set (messages_of u (w_db w)). partner u m = p \<and>
        (\<forall>m' \<in> set (messages_of u (w_db w)). partner u m' = p \<longrightarrow> pm_CreatedAt m' \<le> pm_CreatedAt m) \<and>
        c = row_of (w_db w) p (m\<lparr>pm_RecipientID := u\<rparr>))
      ps (map (\<lambda>p. ?fix (row_of (w_db w) p (newest_with an u (w_db w) p))) ps)"
    unfolding list_all2_map2
  proof (rule list.rel_refl_strong)
    fix p assume "p \<in> set ps"
    with newest_with_spec [of p u "w_db w" an] set_ps
    show "\<exists>m \<in> set (messages_of u (w_db w)). partner u m = p \<and>
        (\<forall>m' \<in> set (messages_of u (w_db w)). partner u m' = p \<longrightarrow> pm_CreatedAt m' \<le> pm_CreatedAt m) \<and>
        ?fix (row_of (w_db w) p (newest_with an u (w_db w) p)) = row_of (w_db w) p (m\<lparr>pm_RecipientID := u\<rparr>)"
      by (intro bexI [of _ "newest_with an u (w_db w) p"]) (auto simp: row_of_def Let_def)
  qed
  ultimately show ?thesis using set_ps i(2)
    by (intro exI [of _ ps]) (simp add: ps_def list_all2_page)
qed

section \<open>Read markers and counters\<close>

definition unread_messages :: "uuid \<Rightarrow> db \<Rightarrow> nat" where
  "unread_messages u d = count_rows (\<lambda>m. pm_RecipientID m = u \<and> pm_ReadAt m = None) (private_messages d)"

definition unread_notifications :: "uuid \<Rightarrow> db \<Rightarrow> nat" where
  "unread_notifications u d = count_rows (\<lambda>n. notif_UserID n = u \<and> notif_ReadAt n = None) (notifications d)"

lemma UnreadCount_calm:
  "calm w \<Longrightarrow> MessageService_UnreadCount u w = (Inr (unread_messages u (w_db w)), tick w)"
  "calm w \<Longrightarrow> NotificationService_UnreadCount u w = (Inr (unread_notifications u (w_db w)), tick w)"
  by (simp_all add: message_service_defs message_store_defs query_calm unread_messages_def unread_notifications_def)

lemma need_rows_Inr:
  "need_rows (sql args f) w = (Inr (), w1) \<Longrightarrow>
     \<exists>n. f (stmt_answer w) (w_db w) = Inr (n, w_db w1) \<and> n \<noteq> 0"
  by (erule need_rows_cases) auto

lemma need_rows_none:
  assumes "calm w" "list_all pg_text args" "f (stmt_answer w) (w_db w) = Inr (0, d)"
  shows "fst (need_rows (sql args f) w) = Inl StoreErrNotFound"
  using assms by (simp add: need_rows_def bindE_def sql_calm throwE_def)

text \<open>C39: Marking a message read takes exactly one message out of its recipient's unread
  count, changes nobody else's, and works once: a second request, in an environment that
  answers, is told that there is no such message.\<close>

theorem mark_message_read:
  assumes mark: "MessageService_MarkRead i u w = (Inr (), w1)" and ok: "db_ok X (w_db w)"
  shows "unread_messages u (w_db w) = Suc (unread_messages u (w_db w1)) \<and>
    (\<forall>v. v \<noteq> u \<longrightarrow> unread_messages v (w_db w1) = unread_messages v (w_db w)) \<and>
    (\<forall>w2. calm w2 \<and> w_db w2 = w_db w1 \<longrightarrow> fst (MessageService_MarkRead i u w2) = Inl ErrNotFound)"
proof -
  let ?p = "pmR.markable i u" and ?ms = "private_messages (w_db w)"
  let ?t = "ans_now (stmt_answer w)"
  from mark obtain k where "sql_messages_mark i u (stmt_answer w) (w_db w) = Inr (k, w_db w1)" "k \<noteq> 0"
    by (auto simp: MessageService_MarkRead_def mapErrE_Inr_iff MessageStore_MarkRead_def dest!: need_rows_Inr)
  then have n: "count_rows ?p ?ms \<noteq> 0"
    and ms: "private_messages (w_db w1) = update_rows ?p (\<lambda>m. m\<lparr>pm_ReadAt := Some ?t\<rparr>) ?ms"
    by (auto simp: sql_messages_mark_def Let_def dest!: sym [of _ "w_db w1"])
  have dist: "distinct (map pm_ID ?ms)" using ok by (simp add: db_ok_def messages_ok_def)
  from pmR.markable_at_most_one [OF dist, of i u] n have one: "count_rows ?p ?ms = 1" by simp
  have "count_rows ?p ?ms \<le> count_rows (pmR.unread u) ?ms" by (rule count_rows_mono) simp
  with pmR.unread_after_mark [OF dist, of u i ?t] one
  have "unread_messages u (w_db w) = Suc (unread_messages u (w_db w1))" by (simp add: unread_messages_def ms)
  moreover have "unread_messages v (w_db w1) = unread_messages v (w_db w)" if "v \<noteq> u" for v
    unfolding unread_messages_def ms using that by (intro pmR.unread_others) auto
  moreover have "fst (MessageService_MarkRead i u w2) = Inl ErrNotFound" if "calm w2" "w_db w2 = w_db w1" for w2
  proof -
    have "count_rows ?p (private_messages (w_db w2)) = 0" by (simp add: that ms pmR.mark_again_none)
    then have "fst (MessageStore_MarkRead i u w2) = Inl StoreErrNotFound"
      unfolding MessageStore_MarkRead_def using that(1) by (intro need_rows_none) (auto simp: sql_messages_mark_def Let_def)
    then show ?thesis
      by (cases "MessageStore_MarkRead i u w2") (simp add: MessageService_MarkRead_def mapErrE_def handleE_def throwE_def notFoundAs_def)
  qed
  ultimately show ?thesis by blast
qed

section \<open>Notifications\<close>

lemma preview_length: "length (preview s) \<le> 83"
  by (simp add: preview_def EncodeRune_def)

text \<open>The notification of a private message reaches its recipient: when it is recorded it is
  stored unread under the recipient with the type of private messages and a preview of at most
  83 bytes; the recipient's unread count grows by one and nobody else's changes; and marking all
  read afterwards, in an environment that answers, brings the count to zero and no other count
  down.\<close>

theorem notification_delivered:
  assumes rec: "NotificationService_OnPrivateMessage X msg w = (Inr n, w1)"
  shows "notifications (w_db w1) = notifications (w_db w) @ [n] \<and> notif_UserID n = pm_RecipientID msg \<and>
    notif_Type n = notifTypePM \<and> notif_ReadAt n = None \<and> notif_Payload n = pm_payload X msg \<and>
    length (preview (pm_Body msg)) \<le> 83 \<and>
    unread_notifications (pm_RecipientID msg) (w_db w1) = Suc (unread_notifications (pm_RecipientID msg) (w_db w)) \<and>
    (\<forall>v. v \<noteq> pm_RecipientID msg \<longrightarrow> unread_notifications v (w_db w1) = unread_notifications v (w_db w)) \<and>
    (\<forall>w2. calm w2 \<and> w_db w2 = w_db w1 \<longrightarrow>
       (\<exists>w3. NotificationService_MarkAllRead (pm_RecipientID msg) w2 = (Inr (), w3) \<and>
          unread_notifications (pm_RecipientID msg) (w_db w3) = 0 \<and>
          (\<forall>v. v \<noteq> pm_RecipientID msg \<longrightarrow> unread_notifications v (w_db w3) = unread_notifications v (w_db w1))))"
proof -
  let ?r = "pm_RecipientID msg"
  from rec have n: "notifications (w_db w1) = notifications (w_db w) @ [n]" "notif_UserID n = ?r"
    "notif_Type n = notifTypePM" "notif_ReadAt n = None" "notif_Payload n = pm_payload X msg"
    by (auto simp: NotificationService_OnPrivateMessage_def NotificationStore_Create_def sql_notifications_insert_def
        Let_def dest!: sql_Inr split: if_splits)
  have "\<exists>w3. NotificationService_MarkAllRead ?r w2 = (Inr (), w3) \<and> unread_notifications ?r (w_db w3) = 0 \<and>
      (\<forall>v. v \<noteq> ?r \<longrightarrow> unread_notifications v (w_db w3) = unread_notifications v (w_db w1))"
    if "calm w2" "w_db w2 = w_db w1" for w2
  proof -
    let ?ns = "update_rows (notifR.unread ?r) (\<lambda>n. n\<lparr>notif_ReadAt := Some (ans_now (stmt_answer w2))\<rparr>) (notifications (w_db w1))"
    have "NotificationService_MarkAllRead ?r w2 = (Inr (), (tick w2)\<lparr>w_db := (w_db w1)\<lparr>notifications := ?ns\<rparr>\<rparr>)"
      using that by (simp add: message_service_defs message_store_defs bindE_def sql_calm sql_notifications_mark_def returnE_def)
    moreover have "count_rows (notifR.unread ?r) ?ns = 0" by (rule notifR.mark_all_unread)
    moreover have "count_rows (notifR.unread v) ?ns = count_rows (notifR.unread v) (notifications (w_db w1))" if "v \<noteq> ?r" for v
      using that by (intro notifR.unread_others) auto
    ultimately show ?thesis by (simp add: unread_notifications_def)
  qed
  with n show ?thesis by (simp add: unread_notifications_def preview_length)
qed

section \<open>Witnesses\<close>

lemma sample_pm: "private_messages sample_db = [sample_message]" "messages_of 2 sample_db = [sample_message]"
  "find_key user_ID 1 (users sample_db) = Some alice" "notifications sample_db = [sample_notification]"
  by (simp_all add: sample_db_def messages_of_def sample_rows find_key_def)

theorem conversation_page_witness:
  "\<exists>items w1. MessageService_Conversation 1 2 20 0 (sample_world sample_db) = (Inr (items, 1), w1) \<and>
     map pmc_Message items = [sample_message]"
proof -
  have b: "between 1 2 sample_message" by (simp add: between_def sample_message_def)
  obtain items w1 where c: "MessageService_Conversation 1 2 20 0 (sample_world sample_db) = (Inr (items, 1), w1)"
    using b by (simp add: MessageService_Conversation_def MessageStore_Conversation_def bindE_def query_calm returnE_def
        sample_pm count_rows_def)
  from conversation_page [OF c, of sample_ext] sample_db_ok obtain rows where "items = page 20 0 rows" "length rows = 1"
    "mset (map pmc_Message rows) = mset [sample_message]" by (auto simp: sample_pm b simp del: One_nat_def)
  moreover from this have "map pmc_Message rows = [sample_message]" by (cases rows) auto
  ultimately show ?thesis using c by (simp add: page_all)
qed

theorem inbox_page_witness:
  "\<exists>items w1. MessageService_Inbox 2 20 0 (sample_world sample_db) = (Inr (items, 1), w1) \<and>
     map pmc_Message items = [sample_message] \<and> map pmc_SenderUsername items = [''alice'']"
proof -
  have p: "partner 2 sample_message = 1" "sample_message\<lparr>pm_RecipientID := 2\<rparr> = sample_message"
    by (simp_all add: partner_def sample_message_def)
  obtain items w1 where c: "MessageService_Inbox 2 20 0 (sample_world sample_db) = (Inr (items, 1), w1)"
    by (simp add: MessageService_Inbox_def MessageStore_Inbox_def bindE_def query_calm returnE_def sample_pm)
  from inbox_page [OF c, of sample_ext] sample_db_ok obtain ps where "set ps = {1}" "length ps = 1"
    "list_all2 (\<lambda>q m. q = 1 \<and> m = row_of sample_db q sample_message) (page 20 0 ps) items"
    by (auto simp: sample_pm p simp del: One_nat_def)
  moreover from this have "ps = [1]" by (cases ps) auto
  ultimately have "items = [row_of sample_db 1 sample_message]" by (simp add: page_def list_all2_Cons1)
  then show ?thesis using c by (simp add: row_of_def Let_def sample_pm alice_def del: One_nat_def)
qed

theorem mark_message_read_witness:
  "\<exists>w1. MessageService_MarkRead 71 2 (sample_world sample_db) = (Inr (), w1) \<and>
     unread_messages 2 sample_db = 1 \<and> unread_messages 2 (w_db w1) = 0"
proof -
  obtain w1 where m: "MessageService_MarkRead 71 2 (sample_world sample_db) = (Inr (), w1)"
    by (simp add: MessageService_MarkRead_def MessageStore_MarkRead_def mapErrE_def handleE_def need_rows_def bindE_def
        sql_calm sql_messages_mark_def sample_pm count_rows_def sample_message_def returnE_def)
  moreover have "unread_messages 2 sample_db = 1" by (simp add: unread_messages_def sample_pm count_rows_def sample_message_def)
  ultimately show ?thesis using mark_message_read [OF m, of sample_ext] sample_db_ok by simp
qed

theorem notification_delivered_witness:
  "\<exists>n w1. NotificationService_OnPrivateMessage sample_ext sample_message (sample_world sample_db) = (Inr n, w1) \<and>
     unread_notifications 2 sample_db = 1 \<and> unread_notifications 2 (w_db w1) = 2"
proof -
  have z: "CHR 0x00 \<notin> set (to_valid_utf8 s)" if "pg_text s" for s
    using that by (simp add: pg_text_def to_valid_utf8_id)
  have "pg_text (uuid_String sample_ext k)" for k
    using dec_digits_all [of k]
    by (intro pg_text_ascii) (auto simp: sample_ext_def ascii_def list_all_iff)
  then have "jsonb_ok (pm_payload sample_ext sample_message)"
    by (simp add: pm_payload_def json_string_def z preview_def sample_message_def pg_text_ascii)
  then obtain n w1 where m: "NotificationService_OnPrivateMessage sample_ext sample_message (sample_world sample_db) = (Inr n, w1)"
    by (simp add: NotificationService_OnPrivateMessage_def NotificationStore_Create_def sql_calm notifTypePM_def pg_text_ascii
        sql_notifications_insert_def Let_def sample_db_def sample_rows stmt_answer_def sample_answer_def)
  moreover have "unread_notifications 2 sample_db = 1"
    by (simp add: unread_notifications_def sample_pm count_rows_def sample_notification_def)
  ultimately show ?thesis using notification_delivered [OF m] by (simp add: sample_message_def)
qed

end
