(* ===== verification/Media_Service.thy ===== *)
theory Media_Service
  imports User_Store Forum_Store Forum_Service Config Samples
begin

text \<open>
  \<^verbatim>\<open>internal/services/media.go\<close> and \<^verbatim>\<open>internal/storage\<close>: avatars and attachments. An object
  store request is a call of the environment that can fail before or after it took effect; the
  calls that took effect are logged in the world, and the objects that exist are computed from
  the log. The theory shows the shape of storage keys and file names, the bounds on sizes, that
  every attachment row has its object as long as no deletion stops half-way, and who may delete.
\<close>

section \<open>Storage keys\<close>

definition avatarDir :: string where "avatarDir = ''avatars''"
definition attachDir :: string where "attachDir = ''attachments''"
definition extMaxLen :: nat where "extMaxLen = 8"

definition sanitizeExt :: "ext \<Rightarrow> string \<Rightarrow> string" where
  "sanitizeExt X filename =
     (let e = ToLower (uni_lower X) (path_Ext filename)
      in if length e > extMaxLen then take extMaxLen e else e)"

definition AvatarKey :: "ext \<Rightarrow> uuid \<Rightarrow> string \<Rightarrow> string dbop" where
  "AvatarKey X userID filename =
     bindE uuid_New (\<lambda>u.
     returnE (avatarDir @ ''/'' @ uuid_String X userID @ ''/'' @ uuid_String X u @ sanitizeExt X filename))"

definition AttachmentKey :: "ext \<Rightarrow> string \<Rightarrow> string dbop" where
  "AttachmentKey X filename =
     bindE uuid_New (\<lambda>u. returnE (attachDir @ ''/'' @ uuid_String X u @ sanitizeExt X filename))"

section \<open>The object store\<close>

definition S3_Bucket :: "Config \<Rightarrow> string" where
  "S3_Bucket cfg = cfg_S3Bucket cfg"

definition S3_Upload :: "string \<Rightarrow> int \<Rightarrow> string \<Rightarrow> unit dbop" where
  "S3_Upload key sz contentType = s3_do (PutObject key sz contentType)"

definition S3_Open :: "string \<Rightarrow> unit dbop" where
  "S3_Open key = s3_do (GetObject key)"

definition S3_Remove :: "string \<Rightarrow> unit dbop" where
  "S3_Remove key = s3_do (RemoveObject key)"

section \<open>The media service\<close>

definition maxAvatarSize :: int where "maxAvatarSize = push_bit 20 2"
definition maxAttachmentSize :: int where "maxAttachmentSize = push_bit 20 20"
definition maxFilenameLength :: nat where "maxFilenameLength = 160"

lemma media_limits: "maxAvatarSize = 2 * 1024 * 1024" "maxAttachmentSize = 20 * 1024 * 1024"
  by (simp_all add: maxAvatarSize_def maxAttachmentSize_def push_bit_eq_mult)

definition mediaURL :: "Config \<Rightarrow> string \<Rightarrow> string" where
  "mediaURL cfg key = TrimRightSlash (cfg_MediaBaseURL cfg) @ ''/'' @ S3_Bucket cfg @ ''/'' @ key"

definition sanitizeFilename :: "string \<Rightarrow> string" where
  "sanitizeFilename name0 =
     (let name = path_Base (TrimSpace name0) in
      if name = [] \<or> name = ''.'' \<or> name = ''/'' then ''file''
      else if length name > maxFilenameLength then take maxFilenameLength name else name)"

definition HasPrefix :: "string \<Rightarrow> string \<Rightarrow> bool" where
  "HasPrefix s p \<longleftrightarrow> take (length p) s = p"

definition MediaService_UploadAvatar ::
    "ext \<Rightarrow> Config \<Rightarrow> uuid \<Rightarrow> string \<Rightarrow> string \<Rightarrow> int \<Rightarrow> User dbop" where
  "MediaService_UploadAvatar X cfg userID filename contentType0 sz =
     (if sz \<le> 0 then throwE ErrInvalidInput
      else if sz > maxAvatarSize then throwE ErrFileTooLarge
      else let contentType = TrimSpace contentType0 in
        if \<not> HasPrefix contentType ''image/'' then throwE ErrUnsupportedType
        else
          bindE (AvatarKey X userID filename) (\<lambda>key.
          bindE (S3_Upload key sz contentType) (\<lambda>_.
          UserStore_UpdateAvatar userID (mediaURL cfg key))))"

definition MediaService_UploadAttachment ::
    "ext \<Rightarrow> Config \<Rightarrow> uuid \<Rightarrow> uuid option \<Rightarrow> string \<Rightarrow> string \<Rightarrow> int \<Rightarrow> Attachment dbop" where
  "MediaService_UploadAttachment X cfg userID postID filename contentType0 sz =
     (if sz \<le> 0 then throwE ErrInvalidInput
      else if sz > maxAttachmentSize then throwE ErrFileTooLarge
      else
        bindE (case postID of
                 None \<Rightarrow> returnE ()
               | Some p \<Rightarrow> bindE (mapErrE (notFoundAs ErrPostNotFound) (PostStore_GetByID p)) (\<lambda>_. returnE ())) (\<lambda>_.
        let contentType = (if contentType0 = [] then ''application/octet-stream'' else contentType0) in
        bindE (AttachmentKey X filename) (\<lambda>key.
        bindE (S3_Upload key sz contentType) (\<lambda>_.
        AttachmentStore_Create
          \<lparr>newatt_OwnerID = userID, newatt_PostID = postID, newatt_Filename = sanitizeFilename filename,
           newatt_ContentType = contentType, newatt_SizeBytes = sz, newatt_StorageKey = key,
           newatt_PublicURL = mediaURL cfg key\<rparr>))))"

definition MediaService_DeleteAttachment :: "uuid \<Rightarrow> uuid \<Rightarrow> string list \<Rightarrow> unit dbop" where
  "MediaService_DeleteAttachment i callerID rs =
     bindE (mapErrE (notFoundAs ErrAttachmentNotFound) (AttachmentStore_GetByID i)) (\<lambda>a.
     if att_OwnerID a \<noteq> callerID \<and> \<not> hasRole rs [RoleAdmin, RoleModerator] then throwE ErrForbidden
     else
       bindE (S3_Remove (att_StorageKey a)) (\<lambda>_.
       AttachmentStore_Delete i))"

lemmas media_defs =
  AvatarKey_def AttachmentKey_def S3_Upload_def S3_Open_def S3_Remove_def MediaService_UploadAvatar_def
  MediaService_UploadAttachment_def MediaService_DeleteAttachment_def

lemma media_keeps_schema [keeps_intros]:
  "keeps (on_db (db_ok X)) (AvatarKey Y u f)" "keeps (on_db (db_ok X)) (AttachmentKey Y f)"
  "keeps (on_db (db_ok X)) (S3_Upload k n c)" "keeps (on_db (db_ok X)) (S3_Open k)"
  "keeps (on_db (db_ok X)) (S3_Remove k)"
  "keeps (on_db (db_ok X)) (MediaService_UploadAvatar Y cfg u f c n)"
  "keeps (on_db (db_ok X)) (MediaService_UploadAttachment Y cfg u p f c n)"
  "keeps (on_db (db_ok X)) (MediaService_DeleteAttachment i u rs)"
  unfolding media_defs Let_def by (intro keeps_intros)+

interpretation attDel: owned_deletion "\<lambda>i d. find_key att_ID i (attachments d)" att_OwnerID ErrAttachmentNotFound
    "\<lambda>i a. bindE (S3_Remove (att_StorageKey a)) (\<lambda>_. AttachmentStore_Delete i)" MediaService_DeleteAttachment
  by unfold_locales (simp add: MediaService_DeleteAttachment_def AttachmentStore_GetByID_def)

section \<open>File names and keys\<close>

lemma sanitizeFilename_bounds:
  "sanitizeFilename s \<noteq> [] \<and> length (sanitizeFilename s) \<le> 160 \<and> CHR ''/'' \<notin> set (sanitizeFilename s)"
proof (cases "path_Base (TrimSpace s) = ''/''")
  case False
  then have "CHR ''/'' \<notin> set (path_Base (TrimSpace s))" by (rule path_Base_no_slash)
  then have "CHR ''/'' \<notin> set (take 160 (path_Base (TrimSpace s)))" by (meson in_set_takeD)
  with \<open>CHR ''/'' \<notin> set (path_Base (TrimSpace s))\<close> show ?thesis
    by (simp add: sanitizeFilename_def Let_def maxFilenameLength_def path_Base_nonempty)
qed (simp add: sanitizeFilename_def)

lemma small_rune_byte: "r \<in> set (runes s) \<Longrightarrow> r < 128 \<Longrightarrow> \<exists>c \<in> set s. byte_of c = r"
proof (induction s rule: runes.induct)
  case (2 c cs)
  obtain x n where d: "DecodeRuneInString (c # cs) = (x, n)" by fastforce
  from "2.prems" d consider "r = x" | "r \<in> set (runes (drop (n - 1) cs))" by (auto simp: Let_def)
  then show ?case
  proof cases
    case 1
    with d "2.prems"(2) show ?thesis by (auto dest: decode_small)
  next
    case 2
    then obtain c' where "c' \<in> set (drop (n - 1) cs)" "byte_of c' = r" using "2.IH" d "2.prems"(2) by auto
    then show ?thesis by (auto dest: in_set_dropD)
  qed
qed simp

text \<open>The Unicode case table maps nothing but the solidus to the solidus.\<close>

definition case_table_lawful :: "ext \<Rightarrow> bool" where
  "case_table_lawful X \<longleftrightarrow> (\<forall>r. uni_lower X r = 47 \<longrightarrow> r = 47)"

lemma EncodeRune_slash: "CHR ''/'' \<in> set (EncodeRune r) \<Longrightarrow> r = 47"
proof -
  assume a: "CHR ''/'' \<in> set (EncodeRune r)"
  have m: "r mod 64 < 64" "r div 64 mod 64 < 64" "r div 4096 mod 64 < 64" by simp_all
  show ?thesis
  proof (cases "r < 128")
    case True
    with a show ?thesis by (auto simp: EncodeRune_def char_of_eq_iff take_bit_eq_mod eq_commute [of "CHR ''/''"])
  next
    case False
    with a m show ?thesis
      by (auto simp: EncodeRune_def char_of_eq_iff take_bit_eq_mod eq_commute [of "CHR ''/''"] split: if_splits)
  qed
qed

lemma ToLower_slash:
  assumes "case_table_lawful X" "CHR ''/'' \<notin> set s"
  shows "CHR ''/'' \<notin> set (ToLower (uni_lower X) s)"
proof
  assume a: "CHR ''/'' \<in> set (ToLower (uni_lower X) s)"
  have no47: "byte_of c \<noteq> 47" if "c \<in> set s" for c
  proof
    assume "byte_of c = 47"
    then have "byte_of c = byte_of CHR ''/''" by simp
    then have "c = CHR ''/''" by (simp only: of_char_eq_iff)
    with assms(2) that show False by simp
  qed
  show False
  proof (cases "ascii s")
    case True
    with a obtain c where "c \<in> set s" "char_of (lower_byte (byte_of c)) = CHR ''/''"
      by (auto simp: ToLower_def ascii_lower_def)
    moreover from this True have "byte_of c < 128" by (auto simp: ascii_def list_all_iff)
    ultimately have "byte_of c = 47"
      by (auto simp: lower_byte_def char_of_eq_iff take_bit_eq_mod split: if_splits)
    with no47 \<open>c \<in> set s\<close> show ?thesis by blast
  next
    case False
    with a obtain r where r: "r \<in> set (runes s)" "CHR ''/'' \<in> set (EncodeRune (if r < 128 then lower_byte r else uni_lower X r))"
      by (auto simp: ToLower_def)
    then have "(if r < 128 then lower_byte r else uni_lower X r) = 47" by (intro EncodeRune_slash)
    then have "r = 47" using assms(1) by (auto simp: lower_byte_def case_table_lawful_def split: if_splits)
    with small_rune_byte [OF r(1)] no47 show ?thesis by auto
  qed
qed

lemma after_last_subset: "after_last c q = Some r \<Longrightarrow> set r \<subseteq> set q"
  by (induction q) (auto split: option.splits if_splits)

lemma path_Ext_no_slash: "CHR ''/'' \<notin> set (path_Ext p)"
proof -
  define e where "e = (case after_last CHR ''/'' p of Some r \<Rightarrow> r | None \<Rightarrow> p)"
  have "CHR ''/'' \<notin> set e" by (auto simp: e_def after_last_no dest: after_last_notin split: option.split)
  moreover have "set (path_Ext p) \<subseteq> insert CHR ''.'' (set e)"
    unfolding path_Ext_def e_def [symmetric] Let_def 
    using after_last_subset [of "CHR ''.''" e] by (cases "after_last CHR ''.'' e") auto
  ultimately show ?thesis by auto
qed

lemma sanitizeExt_bounds:
  "length (sanitizeExt X f) \<le> 8 \<and> (case_table_lawful X \<longrightarrow> CHR ''/'' \<notin> set (sanitizeExt X f))"
  using ToLower_slash [OF _ path_Ext_no_slash, of X f]
  by (auto simp: sanitizeExt_def Let_def extMaxLen_def dest: in_set_takeD)

section \<open>Objects and rows\<close>

primrec apply_call :: "s3_call \<Rightarrow> string set \<Rightarrow> string set" where
  "apply_call (PutObject k n c) S = insert k S"
| "apply_call (RemoveObject k) S = S - {k}"
| "apply_call (GetObject k) S = S"

definition objects :: "s3_call list \<Rightarrow> string set" where
  "objects cs = fold apply_call cs {}"

lemma objects_snoc [simp]: "objects (cs @ [c]) = apply_call c (objects cs)"
  by (simp add: objects_def)

definition rows_stored :: "db \<Rightarrow> string set \<Rightarrow> bool" where
  "rows_stored d S \<longleftrightarrow> att_StorageKey ` set (attachments d) \<subseteq> S"

definition stored :: "world \<Rightarrow> bool" where
  "stored w \<longleftrightarrow> rows_stored (w_db w) (objects (w_s3 w))"

lemma s3_do_cases:
  assumes "s3_do c w = (r, w1)"
  obtains (nothing) "r = Inl ErrStorage" "w1 = tick w"
  | (applied) "w1 = (tick w)\<lparr>w_s3 := w_s3 w @ [c]\<rparr>" "r = Inr () \<or> r = Inl ErrStorage"
  using assms by (auto simp: s3_do_def Let_def split: if_splits)

lemma s3_do_calm: "calm w \<Longrightarrow> s3_do c w = (Inr (), (tick w)\<lparr>w_s3 := w_s3 w @ [c]\<rparr>)"
  by (simp add: s3_do_def calm_now Let_def)

lemma keeps_stored_sql:
  assumes "\<And>S. stmt_keeps (\<lambda>d. rows_stored d S) f"
  shows "keeps stored (sql args f)"
proof (rule keepsI)
  fix w assume st: "stored w"
  obtain r w1 where e: "sql args f w = (r, w1)" by fastforce
  then have "stored w1"
  proof (cases rule: sql_cases)
    case (ran x d)
    with st assms [of "objects (w_s3 w)"] show ?thesis by (simp add: stored_def stmt_keeps_def)
  qed (use st in \<open>simp add: stored_def\<close>)
  with e show "stored (snd (sql args f w))" by simp
qed

lemma keeps_stored_query: "keeps stored (query args f)"
  unfolding query_def by (rule keeps_stored_sql) simp

lemma keeps_stored_uuid [keeps_intros]: "keeps stored uuid_New"
  by (simp add: keeps_def stored_def uuid_New_def)

lemma keeps_stored_put [keeps_intros]: "keeps stored (S3_Upload k n c)"
  by (auto simp: keeps_def stored_def rows_stored_def S3_Upload_def s3_do_def Let_def)

text \<open>The object is stored before the row that names it.\<close>

lemma upload_create_stored:
  assumes "newatt_StorageKey na = key"
  shows "keeps stored (bindE (S3_Upload key n ct) (\<lambda>_. AttachmentStore_Create na))"
proof (rule keepsI)
  fix w assume "stored w"
  obtain r v1 where u: "S3_Upload key n ct w = (r, v1)" by fastforce
  from keeps_resultD [OF keeps_stored_put \<open>stored w\<close> u] have v1: "stored v1" .
  show "stored (snd (bindE (S3_Upload key n ct) (\<lambda>_. AttachmentStore_Create na) w))"
  proof (cases r)
    case (Inr x)
    with u have key: "key \<in> objects (w_s3 v1)" by (auto simp: S3_Upload_def elim!: s3_do_cases)
    obtain r2 v2 where c: "AttachmentStore_Create na v1 = (r2, v2)" by fastforce
    then have "stored v2" unfolding AttachmentStore_Create_def
    proof (cases rule: sql_cases)
      case (ran x d)
      then have "set (attachments d) = insert x (set (attachments (w_db v1)))" "att_StorageKey x = key"
        using assms by (auto simp: sql_attachments_insert_def Let_def split: if_splits)
      with ran(3) v1 key show ?thesis by (simp add: stored_def rows_stored_def)
    qed (use v1 in \<open>simp add: stored_def\<close>)
    with u Inr c show ?thesis by (simp add: bindE_def)
  qed (use u v1 in \<open>simp add: bindE_def\<close>)
qed

lemma UploadAttachment_stored: "keeps stored (MediaService_UploadAttachment X cfg u p f c n)"
  unfolding MediaService_UploadAttachment_def AttachmentKey_def PostStore_GetByID_def scan_defs Let_def
  by (intro upload_create_stored keeps_stored_query keeps_intros) simp

lemma UploadAvatar_stored: "keeps stored (MediaService_UploadAvatar X cfg u f c n)"
proof -
  have "stmt_keeps (\<lambda>d. rows_stored d S) (sql_users_update i g)" for S i g
    by (auto simp: stmt_keeps_def rows_stored_def sql_users_update_def Let_def)
  then show ?thesis
    unfolding MediaService_UploadAvatar_def AvatarKey_def UserStore_UpdateAvatar_def Let_def
    by (intro keeps_stored_sql keeps_intros)
qed

text \<open>A deletion removes the object and then the row: whatever fails, only the row it was asked to
  delete can be left without an object.\<close>

definition stored_but :: "uuid \<Rightarrow> world \<Rightarrow> bool" where
  "stored_but i w \<longleftrightarrow> (\<forall>a \<in> set (attachments (w_db w)). att_ID a \<noteq> i \<longrightarrow> att_StorageKey a \<in> objects (w_s3 w))"

lemma remove_then_delete:
  assumes "bindE (S3_Remove (att_StorageKey a)) (\<lambda>_. AttachmentStore_Delete i) w = (r, w1)"
    and st: "stored w" and ok: "db_ok X (w_db w)" and a: "a \<in> set (attachments (w_db w))" "att_ID a = i"
  shows "stored_but i w1 \<and> (r = Inr () \<longrightarrow> stored w1)"
proof -
  obtain r0 v where s: "S3_Remove (att_StorageKey a) w = (r0, v)" by fastforce
  have inj: "inj_on att_StorageKey (set (attachments (w_db w)))"
    using ok by (simp add: db_ok_def attachments_ok_def distinct_map)
  have v: "stored_but i v" "w_db v = w_db w"
    using s unfolding S3_Remove_def
    by (cases rule: s3_do_cases;
        use st a inj in \<open>auto simp: stored_def rows_stored_def stored_but_def dest: inj_onD\<close>)+
  show ?thesis
  proof (cases r0)
    case (Inl e)
    with s assms(1) v show ?thesis by (auto simp: bindE_def)
  next
    case (Inr x)
    with s assms(1) have "AttachmentStore_Delete i v = (r, w1)" by (simp add: bindE_def)
    then show ?thesis unfolding AttachmentStore_Delete_def
    proof (cases rule: need_rows_cases)
      case (ran n d)
      then have "stored w1" using v by (auto simp: sql_attachments_delete_def stored_def rows_stored_def stored_but_def)
      then show ?thesis by (auto simp: stored_def rows_stored_def stored_but_def)
    qed (use v in \<open>auto simp: stored_but_def\<close>)
  qed
qed

lemma DeleteAttachment_stored:
  assumes del: "MediaService_DeleteAttachment i c rs w = (r, w1)" and st: "stored w" and ok: "db_ok X (w_db w)"
  shows "stored_but i w1 \<and> (r = Inr () \<longrightarrow> stored w1)"
proof -
  have same: "stored_but i (tick w)" "stored (tick w)" using st by (auto simp: stored_def rows_stored_def stored_but_def)
  from del [unfolded MediaService_DeleteAttachment_def AttachmentStore_GetByID_def scan_defs] show ?thesis
  proof (cases rule: bind_read_cases)
    case (found a)
    then have a: "a \<in> set (attachments (w_db (tick w)))" "att_ID a = i" by (auto dest: attT.find_key_Some)
    show ?thesis
    proof (cases "att_OwnerID a \<noteq> c \<and> \<not> moderator rs")
      case True
      with found same show ?thesis by auto
    next
      case False
      with found remove_then_delete [OF _ same(2) _ a, of r w1 X] ok show ?thesis by simp
    qed
  qed (use same in auto)
qed

text \<open>C33: Every attachment row has its object. Uploads keep this under every failure, since the
  object is stored before the row; a deletion that reports success keeps it; and a deletion that
  stops half-way can leave only the row it was asked to delete without an object.\<close>

theorem attachments_have_objects:
  "keeps stored (MediaService_UploadAttachment X cfg u p f c n) \<and>
   keeps stored (MediaService_UploadAvatar X cfg u f c n) \<and>
   (MediaService_DeleteAttachment i caller rs w = (r, w1) \<and> stored w \<and> db_ok X (w_db w) \<longrightarrow>
      stored_but i w1 \<and> (r = Inr () \<longrightarrow> stored w1))"
  using UploadAttachment_stored UploadAvatar_stored DeleteAttachment_stored by blast

lemma DeleteAttachment_calm:
  assumes "calm w" "db_ok X (w_db w)" "a \<in> set (attachments (w_db w))" "att_ID a = i" "att_OwnerID a = c \<or> moderator rs"
  shows "\<exists>w1. MediaService_DeleteAttachment i c rs w = (Inr (), w1) \<and>
    w_db w1 = (w_db w)\<lparr>attachments := delete_rows (\<lambda>r. att_ID r = i) (attachments (w_db w))\<rparr> \<and>
    objects (w_s3 w1) = objects (w_s3 w) - {att_StorageKey a}"
proof -
  have "find_key att_ID i (attachments (w_db w)) = Some a"
    using assms(2-4) by (simp add: attT.find_key_eq db_ok_def attachments_ok_def)
  from attDel.permitted_runs [OF assms(1) this assms(5)] have
    "MediaService_DeleteAttachment i c rs w = bindE (S3_Remove (att_StorageKey a)) (\<lambda>_. AttachmentStore_Delete i) (tick w)" .
  moreover have "count_rows (\<lambda>r. att_ID r = i) (attachments (w_db w)) \<noteq> 0" using assms(3,4) by (auto simp: count_rows_0_iff)
  ultimately show ?thesis using assms(1)
    by (simp add: bindE_def S3_Remove_def s3_do_calm AttachmentStore_Delete_def need_rows_def sql_calm
        sql_attachments_delete_def returnE_def)
qed

text \<open>C34: An attachment that the caller owns, or that a moderator deletes, is gone afterwards, row
  and object, when the environment answers, and nothing else changed. This holds whether or not
  the object still existed, so a deletion that stopped half-way is completed by repeating it.\<close>

theorem delete_attachment_works:
  assumes "calm w" "db_ok X (w_db w)" "a \<in> set (attachments (w_db w))" "att_ID a = i" "att_OwnerID a = c \<or> moderator rs"
  shows "\<exists>w1. MediaService_DeleteAttachment i c rs w = (Inr (), w1) \<and>
    w_db w1 = (w_db w)\<lparr>attachments := delete_rows (\<lambda>r. att_ID r = i) (attachments (w_db w))\<rparr> \<and>
    objects (w_s3 w1) = objects (w_s3 w) - {att_StorageKey a}"
  using assms by (rule DeleteAttachment_calm)

lemma UploadAttachment_Inr:
  assumes "MediaService_UploadAttachment X cfg u p f c n w = (Inr a, w1)"
  obtains key where
    "key = attachDir @ ''/'' @ uuid_String X (ans_uuid (w_env w (w_tick w + (if p = None then 0 else 1)))) @ sanitizeExt X f"
    "att_StorageKey a \<notin> att_StorageKey ` set (attachments (w_db w))" "0 < n" "n \<le> maxAttachmentSize"
    "w_s3 w1 = w_s3 w @ [PutObject key n (att_ContentType a)]"
    "attachments (w_db w1) = attachments (w_db w) @ [a]" "set_option p \<subseteq> post_ids (w_db w)"
    "att_OwnerID a = u" "att_PostID a = p" "att_Filename a = sanitizeFilename f" "att_SizeBytes a = n" "att_StorageKey a = key"
    "att_PublicURL a = mediaURL cfg key"
    "att_ContentType a = (if c = [] then ''application/octet-stream'' else c)"
proof -
  let ?ct = "if c = [] then ''application/octet-stream'' else c"
  let ?na = "\<lambda>key. \<lparr>newatt_OwnerID = u, newatt_PostID = p, newatt_Filename = sanitizeFilename f,
           newatt_ContentType = ?ct, newatt_SizeBytes = n, newatt_StorageKey = key, newatt_PublicURL = mediaURL cfg key\<rparr>"
  from assms obtain wa key wb wc where n: "0 < n" "n \<le> maxAttachmentSize"
    and p: "(case p of None \<Rightarrow> returnE () | Some q \<Rightarrow>
        bindE (mapErrE (notFoundAs ErrPostNotFound) (PostStore_GetByID q)) (\<lambda>_. returnE ())) w = (Inr (), wa)"
    and k: "AttachmentKey X f wa = (Inr key, wb)" and s: "S3_Upload key n ?ct wb = (Inr (), wc)"
    and c: "AttachmentStore_Create (?na key) wc = (Inr a, w1)"
    unfolding MediaService_UploadAttachment_def Let_def
    by (force simp: bindE_Inr_iff not_le not_less split: if_splits)
  from p have pa: "wa = (if p = None then w else tick w)"
    by (cases p) (auto simp: bindE_Inr_iff mapErrE_Inr_iff PostStore_GetByID_def dest!: scan_query_result)
  from k have "key = attachDir @ ''/'' @ uuid_String X (ans_uuid (w_env wa (w_tick wa))) @ sanitizeExt X f" "wb = tick wa"
    by (auto simp: AttachmentKey_def bindE_Inr_iff uuid_New_def)
  with pa have key: "key = attachDir @ ''/'' @ uuid_String X (ans_uuid (w_env w (w_tick w + (if p = None then 0 else 1)))) @ sanitizeExt X f"
    "wb = tick wa" by simp_all
  from s have sc: "wc = (tick wb)\<lparr>w_s3 := w_s3 wb @ [PutObject key n ?ct]\<rparr>" by (auto simp: S3_Upload_def elim!: s3_do_cases)
  from c obtain d where "sql_attachments_insert (?na key) (stmt_answer wc) (w_db wc) = Inr (a, d)" "w1 = (tick wc)\<lparr>w_db := d\<rparr>"
    by (auto simp: AttachmentStore_Create_def dest!: sql_Inr)
  then show ?thesis using that [OF key(1) _ n] pa key(2) sc
    by (auto simp: sql_attachments_insert_def Let_def split: if_splits option.splits)
qed

text \<open>C35: An upload that succeeds had between 1 byte and 20 MiB and named an existing post or
  none; it stored one object, under the key \<^verbatim>\<open>attachments/<uuid><ext>\<close> of the id that was generated
  for this upload, whose extension is that of the file name, has at most 8 bytes and adds no path
  separator. No other row has this key, so no attachment's object was overwritten. It appended one
  row for the object, owned by the caller, with a file name of 1 to 160 bytes without path
  separators.\<close>

theorem upload_attachment_exact:
  assumes up: "MediaService_UploadAttachment X cfg u p f c n w = (Inr a, w1)" and tab: "case_table_lawful X"
  shows "1 \<le> n \<and> n \<le> 20971520 \<and> set_option p \<subseteq> post_ids (w_db w) \<and>
    att_StorageKey a = ''attachments/'' @
      uuid_String X (ans_uuid (w_env w (w_tick w + (if p = None then 0 else 1)))) @ sanitizeExt X f \<and>
    length (sanitizeExt X f) \<le> 8 \<and> CHR ''/'' \<notin> set (sanitizeExt X f) \<and>
    att_StorageKey a \<notin> att_StorageKey ` set (attachments (w_db w)) \<and>
    w_s3 w1 = w_s3 w @ [PutObject (att_StorageKey a) n (att_ContentType a)] \<and>
    attachments (w_db w1) = attachments (w_db w) @ [a] \<and> att_OwnerID a = u \<and> att_PostID a = p \<and> att_SizeBytes a = n \<and>
    att_PublicURL a = mediaURL cfg (att_StorageKey a) \<and>
    att_Filename a \<noteq> [] \<and> length (att_Filename a) \<le> 160 \<and> CHR ''/'' \<notin> set (att_Filename a)"
proof -
  from up show ?thesis
  proof (rule UploadAttachment_Inr)
    fix key
    assume key: "key = attachDir @ ''/'' @ uuid_String X (ans_uuid (w_env w (w_tick w + (if p = None then 0 else 1)))) @ sanitizeExt X f"
      and fresh: "att_StorageKey a \<notin> att_StorageKey ` set (attachments (w_db w))" and n: "0 < n" "n \<le> maxAttachmentSize"
      and rest: "w_s3 w1 = w_s3 w @ [PutObject key n (att_ContentType a)]" "attachments (w_db w1) = attachments (w_db w) @ [a]"
      "set_option p \<subseteq> post_ids (w_db w)" "att_OwnerID a = u" "att_PostID a = p" "att_Filename a = sanitizeFilename f"
      "att_SizeBytes a = n" "att_StorageKey a = key" "att_PublicURL a = mediaURL cfg key"
    then show ?thesis using fresh sanitizeExt_bounds [of X f] tab sanitizeFilename_bounds [of f]
      by (simp add: media_limits attachDir_def)
  qed
qed

section \<open>Witnesses\<close>

definition media_world :: world where
  "media_world = (sample_world sample_db)\<lparr>w_s3 := [PutObject ''attachments/k'' 3 ''text/plain'']\<rparr>"

lemma media_world_facts: "calm media_world" "w_db media_world = sample_db" "stored media_world"
  "sample_attachment \<in> set (attachments sample_db)"
  by (simp_all add: media_world_def stored_def rows_stored_def objects_def sample_db_def sample_attachment_def)

lemma sample_attachment_keys: "att_ID sample_attachment = 61" "att_OwnerID sample_attachment = 2"
  "att_StorageKey sample_attachment = ''attachments/k''" "attachments sample_db = [sample_attachment]"
  by (simp_all add: sample_attachment_def sample_db_def)

lemma media_objects: "objects (w_s3 media_world) = {''attachments/k''}"
  by (simp add: media_world_def objects_def)

theorem delete_attachment_works_witness:
  "\<exists>w1. MediaService_DeleteAttachment 61 2 [] media_world = (Inr (), w1) \<and> attachments (w_db w1) = [] \<and>
     objects (w_s3 w1) = {}"
  using delete_attachment_works [of media_world sample_ext sample_attachment 61 2 "[]"] sample_db_ok
  by (auto simp: media_world_facts sample_attachment_keys media_objects delete_rows_def)

theorem attachments_have_objects_witness:
  "\<exists>w1. MediaService_DeleteAttachment 61 2 [] media_world = (Inr (), w1) \<and> stored w1"
proof -
  from DeleteAttachment_calm [of media_world sample_ext sample_attachment 61 2 "[]"] sample_db_ok
  obtain w1 where "MediaService_DeleteAttachment 61 2 [] media_world = (Inr (), w1)"
    by (auto simp: media_world_facts sample_attachment_keys)
  with attachments_have_objects [of sample_ext _ _ _ _ _ _ 61 2 "[]" media_world "Inr ()" w1] sample_db_ok media_world_facts
  show ?thesis by auto
qed

lemma UploadAttachment_calm:
  fixes w X f
  defines "key \<equiv> attachDir @ ''/'' @ uuid_String X (ans_uuid (w_env w (Suc (w_tick w)))) @ sanitizeExt X f"
  assumes "calm w" "0 < n" "n \<le> maxAttachmentSize" "q \<in> post_ids (w_db w)" "u \<in> user_ids (w_db w)" "c \<noteq> []"
    and "list_all pg_text [sanitizeFilename f, c, key, mediaURL cfg key]"
    and "key \<notin> att_StorageKey ` set (attachments (w_db w))"
    and "ans_uuid (w_env w (w_tick w + 3)) \<notin> att_ID ` set (attachments (w_db w))"
  shows "\<exists>a w1. MediaService_UploadAttachment X cfg u (Some q) f c n w = (Inr a, w1)"
proof -
  let ?w3 = "(tick (tick (tick w)))\<lparr>w_s3 := w_s3 w @ [PutObject key n c]\<rparr>"
  let ?na = "\<lparr>newatt_OwnerID = u, newatt_PostID = Some q, newatt_Filename = sanitizeFilename f,
           newatt_ContentType = c, newatt_SizeBytes = n, newatt_StorageKey = key, newatt_PublicURL = mediaURL cfg key\<rparr>"
  have "find_key post_ID q (posts (w_db w)) \<noteq> None" using assms(5) by (simp add: postT.find_key_None)
  then obtain po where "PostStore_GetByID q w = (Inr po, tick w)"
    using assms(2) by (auto simp: PostStore_GetByID_def scan_query_calm)
  moreover have "AttachmentKey X f (tick w) = (Inr key, tick (tick w))"
    by (simp add: AttachmentKey_def bindE_def uuid_New_def returnE_def key_def)
  moreover have "S3_Upload key n c (tick (tick w)) = (Inr (), ?w3)" using assms(2) by (simp add: S3_Upload_def s3_do_calm)
  moreover have "ans_uuid (stmt_answer ?w3) = ans_uuid (w_env w (w_tick w + 3))"
    by (simp add: stmt_answer_def Let_def eval_nat_numeral)
  then have "\<exists>a d. sql_attachments_insert ?na (stmt_answer ?w3) (w_db w) = Inr (a, d)"
    using assms(3-6,9,10) by (auto simp: sql_attachments_insert_def Let_def int8_def media_limits)
  then have "\<exists>a w1. AttachmentStore_Create ?na ?w3 = (Inr a, w1)"
    using assms(2,8) by (auto simp: AttachmentStore_Create_def sql_calm)
  ultimately show ?thesis using assms(3,4,7)
    by (simp add: MediaService_UploadAttachment_def bindE_def mapErrE_def handleE_def returnE_def)
qed

lemma sample_upload:
  "\<exists>a w1. MediaService_UploadAttachment sample_ext (Load (\<lambda>_. [])) 1 (Some 41) ''notes.txt'' ''text/plain'' 5 media_world = (Inr a, w1)"
proof -
  have "TrimSpace ''notes.txt'' = ''notes.txt''" by (rule TrimSpace_ascii_nospace) (simp add: IsSpace_def)
  then have f: "sanitizeFilename ''notes.txt'' = ''notes.txt''"
    by (simp add: sanitizeFilename_def path_Base_def TrimRightSlash_def Let_def maxFilenameLength_def)
  have e: "sanitizeExt sample_ext ''notes.txt'' = ''.txt''"
    by (simp add: sanitizeExt_def Let_def path_Ext_def ToLower_ascii ascii_lower_def lower_byte_def char_of_eq_iff
        take_bit_eq_mod extMaxLen_def)
  have "ascii (uuid_String sample_ext k) \<and> CHR 0x00 \<notin> set (uuid_String sample_ext k)" for k
    using dec_digits_all [of k] by (auto simp: ascii_def list_all_iff sample_ext_def)
  moreover have "uuid_String sample_ext k @ ''.txt'' \<noteq> ''k''" for k
    using arg_cong [of "uuid_String sample_ext k @ ''.txt''" "''k''" last] by auto
  ultimately show ?thesis
    by (intro UploadAttachment_calm)
       (simp_all add: media_world_facts media_limits f e pg_text_ascii attachDir_def mediaURL_def S3_Bucket_def Load_def
         getenv_def sample_attachment_keys TrimRightSlash_def,
        simp_all add: media_world_def sample_db_def sample_rows sample_answer_def)
qed

lemma sample_case_table: "case_table_lawful sample_ext"
  by (simp add: case_table_lawful_def sample_ext_def)

theorem upload_attachment_exact_witness:
  "\<exists>a w1. MediaService_UploadAttachment sample_ext (Load (\<lambda>_. [])) 1 (Some 41) ''notes.txt'' ''text/plain'' 5 media_world = (Inr a, w1) \<and>
     attachments (w_db w1) = [sample_attachment, a] \<and> att_OwnerID a = 1 \<and> att_SizeBytes a = 5 \<and>
     att_StorageKey a = ''attachments/'' @ dec_digits 1001 @ sanitizeExt sample_ext ''notes.txt''"
proof -
  from sample_upload obtain a w1 where
    u: "MediaService_UploadAttachment sample_ext (Load (\<lambda>_. [])) 1 (Some 41) ''notes.txt'' ''text/plain'' 5 media_world = (Inr a, w1)"
    by blast
  have "ans_uuid (w_env media_world (w_tick media_world + 1)) = 1001" "uuid_String sample_ext = dec_digits"
    by (simp_all add: media_world_def sample_answer_def sample_ext_def)
  with upload_attachment_exact [OF u sample_case_table] u show ?thesis
    by (simp add: media_world_facts sample_attachment_keys)
qed

end
