(* ===== verification/Hub.thy ===== *)
theory Hub
  imports Database
begin

text \<open>
  \<^verbatim>\<open>internal/ws\<close>: the hub of live connections. The hub's goroutine, the goroutine of each
  connection (registration, reading, teardown) and its writer run concurrently; the model is a
  step relation in which a critical section of the hub's lock is one step, a delivery holds the
  read lock over one step per recipient, and sends and receives on the bounded channels are
  steps of their own. The theory shows that no goroutine ever sends on or closes a closed
  channel, that presence is exactly having a registered connection, that the channels keep
  their bounds, that each client gets its accepted events in order, that the hub always drains
  its queue, and that presence announcements can arrive in the wrong order.
\<close>

section \<open>Transition systems\<close>

inductive reach :: "('s \<Rightarrow> bool) \<Rightarrow> ('s \<Rightarrow> 's \<Rightarrow> bool) \<Rightarrow> 's \<Rightarrow> bool"
  for init :: "'s \<Rightarrow> bool" and step :: "'s \<Rightarrow> 's \<Rightarrow> bool" where
  reach_init: "init s \<Longrightarrow> reach init step s"
| reach_step: "reach init step s \<Longrightarrow> step s t \<Longrightarrow> reach init step t"

locale safe_system =
  fixes init :: "'s \<Rightarrow> bool" and step :: "'s \<Rightarrow> 's \<Rightarrow> bool" and inv :: "'s \<Rightarrow> bool"
  assumes inv_init: "init s \<Longrightarrow> inv s"
    and inv_step: "inv s \<Longrightarrow> step s t \<Longrightarrow> inv t"
begin

lemma reach_inv: "reach init step s \<Longrightarrow> inv s"
  by (induction rule: reach.induct) (auto intro: inv_init inv_step)

lemma steps_inv: "step\<^sup>*\<^sup>* s t \<Longrightarrow> inv s \<Longrightarrow> inv t"
  by (induction rule: rtranclp_induct) (auto intro: inv_step)

end

section \<open>The hub\<close>

type_synonym cid = nat

record hub =
  hub_clients :: "uuid \<rightharpoonup> cid set"
  hub_online :: "uuid set"
  hub_notifyCh :: "notify list"

definition notifyCap :: nat where "notifyCap = 256"
definition sendBuffer :: nat where "sendBuffer = 64"

definition NewHub :: hub where
  "NewHub = \<lparr>hub_clients = Map.empty, hub_online = {}, hub_notifyCh = []\<rparr>"

text \<open>The critical section of \<^verbatim>\<open>register\<close>, with whether the user came online.\<close>

definition hub_register :: "cid \<Rightarrow> uuid \<Rightarrow> hub \<Rightarrow> hub \<times> bool" where
  "hub_register c u h =
     (let conns = (case hub_clients h u of None \<Rightarrow> {} | Some S \<Rightarrow> S);
          already = u \<in> hub_online h
      in (h\<lparr>hub_clients := (hub_clients h)(u \<mapsto> insert c conns), hub_online := insert u (hub_online h)\<rparr>,
          \<not> already))"

text \<open>The critical section of \<^verbatim>\<open>unregister\<close>, with whether the user went offline.\<close>

definition hub_unregister :: "cid \<Rightarrow> uuid \<Rightarrow> hub \<Rightarrow> hub \<times> bool" where
  "hub_unregister c u h =
     (let clients = (case hub_clients h u of
                       None \<Rightarrow> hub_clients h
                     | Some S \<Rightarrow> if S - {c} = {} then (hub_clients h)(u := None)
                                 else (hub_clients h)(u \<mapsto> S - {c}));
          stillOnline = u \<in> hub_online h
      in if stillOnline \<and> (case clients u of None \<Rightarrow> True | Some S \<Rightarrow> S = {})
         then (h\<lparr>hub_clients := clients, hub_online := hub_online h - {u}\<rparr>, True)
         else (h\<lparr>hub_clients := clients\<rparr>, False))"

definition IsOnline :: "uuid \<Rightarrow> hub \<Rightarrow> bool" where
  "IsOnline u h \<longleftrightarrow> u \<in> hub_online h"

definition OnlineUsers :: "hub \<Rightarrow> uuid set" where
  "OnlineUsers h = hub_online h"

text \<open>\<^verbatim>\<open>Notify\<close> and \<^verbatim>\<open>Broadcast\<close> send on the channel: they can only go on when it has room.\<close>

definition can_notify :: "hub \<Rightarrow> bool" where
  "can_notify h \<longleftrightarrow> length (hub_notifyCh h) < notifyCap"

definition hub_Notify :: "uuid \<Rightarrow> Event \<Rightarrow> hub \<Rightarrow> hub" where
  "hub_Notify u ev h = h\<lparr>hub_notifyCh := hub_notifyCh h @ [\<lparr>notify_userID = u, notify_event = ev\<rparr>]\<rparr>"

definition hub_Broadcast :: "Event \<Rightarrow> hub \<Rightarrow> hub" where
  "hub_Broadcast ev h = hub_Notify uuid_Nil ev h"

definition presence_event :: "uuid \<Rightarrow> bool \<Rightarrow> Event" where
  "presence_event u online = \<lparr>event_Type = ''presence'', event_Data = DataPresence u online\<rparr>"

definition broadcastPresence :: "uuid \<Rightarrow> bool \<Rightarrow> hub \<Rightarrow> hub" where
  "broadcastPresence u online h = hub_Broadcast (presence_event u online) h"

text \<open>The connections \<^verbatim>\<open>deliver\<close> loops over.\<close>

definition recipients :: "notify \<Rightarrow> hub \<Rightarrow> cid set" where
  "recipients n h =
     (if notify_userID n = uuid_Nil then \<Union> (ran (hub_clients h))
      else (case hub_clients h (notify_userID n) of None \<Rightarrow> {} | Some S \<Rightarrow> S))"

section \<open>Connections\<close>

text \<open>
  Where the goroutine of a connection is: before \<^verbatim>\<open>register\<close>, before the announcement that the
  user came online or went offline, in \<^verbatim>\<open>ReadPump\<close>, in \<^verbatim>\<open>Close\<close> before \<^verbatim>\<open>unregister\<close>, before
  \<^verbatim>\<open>close(c.send)\<close>, and done.
\<close>

datatype conn_pc = Fresh | Announce bool | Reading | Closing | Unregistered | Done

text \<open>\<^verbatim>\<open>cl_accepted\<close> and \<^verbatim>\<open>cl_out\<close> record what entered the send channel and what was written to the
  connection.\<close>

record client =
  cl_userID :: uuid
  cl_send :: "Event list"
  cl_closed :: bool
  cl_pc :: conn_pc
  cl_writing :: bool
  cl_accepted :: "Event list"
  cl_out :: "Event list"

definition NewClient :: "uuid \<Rightarrow> client" where
  "NewClient u = \<lparr>cl_userID = u, cl_send = [], cl_closed = False, cl_pc = Fresh, cl_writing = False,
     cl_accepted = [], cl_out = []\<rparr>"

text \<open>\<^verbatim>\<open>queue\<close>: a full buffer drops the event; none is the panic of a send on a closed channel.\<close>

definition queue :: "Event \<Rightarrow> client \<Rightarrow> client option" where
  "queue ev c =
     (if cl_closed c then None
      else if length (cl_send c) < sendBuffer
      then Some (c\<lparr>cl_send := cl_send c @ [ev], cl_accepted := cl_accepted c @ [ev]\<rparr>)
      else Some c)"

definition close_send :: "client \<Rightarrow> client option" where
  "close_send c = (if cl_closed c then None else Some (c\<lparr>cl_closed := True, cl_pc := Done\<rparr>))"

section \<open>The system\<close>

text \<open>\<open>ws_taken\<close> is the notification that the hub's goroutine has received and not begun to deliver,
  \<open>ws_job\<close> the delivery in progress, which holds the read lock.\<close>

record ws =
  ws_hub :: hub
  ws_conns :: "cid \<rightharpoonup> client"
  ws_taken :: "notify option"
  ws_job :: "(Event \<times> cid set) option"
  ws_running :: bool
  ws_panic :: bool

definition set_pc :: "cid \<Rightarrow> conn_pc \<Rightarrow> ws \<Rightarrow> ws" where
  "set_pc c p s = s\<lparr>ws_conns := (ws_conns s)(c := map_option (\<lambda>cl. cl\<lparr>cl_pc := p\<rparr>) (ws_conns s c))\<rparr>"

definition put_conn :: "cid \<Rightarrow> client option \<Rightarrow> ws \<Rightarrow> ws" where
  "put_conn c r s = (case r of None \<Rightarrow> s\<lparr>ws_panic := True\<rparr> | Some cl \<Rightarrow> s\<lparr>ws_conns := (ws_conns s)(c \<mapsto> cl)\<rparr>)"

definition ws_init :: "ws \<Rightarrow> bool" where
  "ws_init s \<longleftrightarrow> s = \<lparr>ws_hub = NewHub, ws_conns = Map.empty, ws_taken = None, ws_job = None, ws_running = True, ws_panic = False\<rparr>"

text \<open>The steps of the hub's goroutine: the receive in \<^verbatim>\<open>Run\<close>, the lock and the loop of \<^verbatim>\<open>deliver\<close>,
  and \<^verbatim>\<open>queue\<close>.\<close>

inductive hub_step :: "ws \<Rightarrow> ws \<Rightarrow> bool" where
  take_notify: "ws_running s \<Longrightarrow> ws_taken s = None \<Longrightarrow> ws_job s = None \<Longrightarrow> hub_notifyCh (ws_hub s) = n # rest \<Longrightarrow>
    hub_step s (s\<lparr>ws_hub := (ws_hub s)\<lparr>hub_notifyCh := rest\<rparr>, ws_taken := Some n\<rparr>)"
| deliver_start: "ws_taken s = Some n \<Longrightarrow> ws_job s = None \<Longrightarrow>
    hub_step s (s\<lparr>ws_taken := None, ws_job := Some (notify_event n, recipients n (ws_hub s))\<rparr>)"
| queue_one: "ws_job s = Some (ev, R) \<Longrightarrow> c \<in> R \<Longrightarrow> ws_conns s c = Some cl \<Longrightarrow>
    hub_step s ((put_conn c (queue ev cl) s)\<lparr>ws_job := Some (ev, R - {c})\<rparr>)"
| deliver_done: "ws_job s = Some (ev, {}) \<Longrightarrow> hub_step s (s\<lparr>ws_job := None\<rparr>)"

text \<open>The steps of the goroutine of a connection: registration in \<^verbatim>\<open>NewClient\<close>, the end of
  \<^verbatim>\<open>ReadPump\<close> and the teardown in \<^verbatim>\<open>Close\<close>.\<close>

inductive conn_step :: "ws \<Rightarrow> ws \<Rightarrow> bool" where
  register: "ws_conns s c = Some cl \<Longrightarrow> cl_pc cl = Fresh \<Longrightarrow> ws_job s = None \<Longrightarrow>
    hub_register c (cl_userID cl) (ws_hub s) = (h, first) \<Longrightarrow>
    conn_step s (s\<lparr>ws_hub := h, ws_conns := (ws_conns s)(c \<mapsto> cl\<lparr>cl_pc := if first then Announce True else Reading,
                                                               cl_writing := \<not> first\<rparr>)\<rparr>)"
| announce: "ws_conns s c = Some cl \<Longrightarrow> cl_pc cl = Announce on \<Longrightarrow> can_notify (ws_hub s) \<Longrightarrow>
    conn_step s (s\<lparr>ws_hub := broadcastPresence (cl_userID cl) on (ws_hub s),
                   ws_conns := (ws_conns s)(c \<mapsto> cl\<lparr>cl_pc := if on then Reading else Unregistered,
                                                     cl_writing := on \<or> cl_writing cl\<rparr>)\<rparr>)"
| read_end: "ws_conns s c = Some cl \<Longrightarrow> cl_pc cl = Reading \<Longrightarrow> conn_step s (set_pc c Closing s)"
| unregister: "ws_conns s c = Some cl \<Longrightarrow> cl_pc cl = Closing \<Longrightarrow> ws_job s = None \<Longrightarrow>
    hub_unregister c (cl_userID cl) (ws_hub s) = (h, gone) \<Longrightarrow>
    conn_step s (s\<lparr>ws_hub := h, ws_conns := (ws_conns s)(c \<mapsto> cl\<lparr>cl_pc := if gone then Announce False else Unregistered\<rparr>)\<rparr>)"
| close: "ws_conns s c = Some cl \<Longrightarrow> cl_pc cl = Unregistered \<Longrightarrow> conn_step s (put_conn c (close_send cl) s)"

text \<open>The steps of \<^verbatim>\<open>WritePump\<close>.\<close>

inductive write_step :: "ws \<Rightarrow> ws \<Rightarrow> bool" where
  write_event: "ws_conns s c = Some cl \<Longrightarrow> cl_writing cl \<Longrightarrow> cl_send cl = ev # rest \<Longrightarrow>
    write_step s (s\<lparr>ws_conns := (ws_conns s)(c \<mapsto> cl\<lparr>cl_send := rest, cl_out := cl_out cl @ [ev]\<rparr>)\<rparr>)"
| write_error: "ws_conns s c = Some cl \<Longrightarrow> cl_writing cl \<Longrightarrow> cl_send cl = ev # rest \<Longrightarrow>
    write_step s (s\<lparr>ws_conns := (ws_conns s)(c \<mapsto> cl\<lparr>cl_send := rest, cl_writing := False\<rparr>)\<rparr>)"
| ping_error: "ws_conns s c = Some cl \<Longrightarrow> cl_writing cl \<Longrightarrow>
    write_step s (s\<lparr>ws_conns := (ws_conns s)(c \<mapsto> cl\<lparr>cl_writing := False\<rparr>)\<rparr>)"
| write_end: "ws_conns s c = Some cl \<Longrightarrow> cl_writing cl \<Longrightarrow> cl_send cl = [] \<Longrightarrow> cl_closed cl \<Longrightarrow>
    write_step s (s\<lparr>ws_conns := (ws_conns s)(c \<mapsto> cl\<lparr>cl_writing := False\<rparr>)\<rparr>)"

text \<open>What comes from outside: a new connection, a handler that notifies, and the end of the hub's
  context.\<close>

inductive env_step :: "ws \<Rightarrow> ws \<Rightarrow> bool" where
  connect: "ws_conns s c = None \<Longrightarrow> env_step s (s\<lparr>ws_conns := (ws_conns s)(c \<mapsto> NewClient u)\<rparr>)"
| notify: "can_notify (ws_hub s) \<Longrightarrow> env_step s (s\<lparr>ws_hub := hub_Notify u ev (ws_hub s)\<rparr>)"
| cancel: "env_step s (s\<lparr>ws_running := False\<rparr>)"

definition ws_step :: "ws \<Rightarrow> ws \<Rightarrow> bool" where
  "ws_step s t \<longleftrightarrow> hub_step s t \<or> conn_step s t \<or> write_step s t \<or> env_step s t"

section \<open>The invariant\<close>

definition registered :: "client \<Rightarrow> bool" where
  "registered cl \<longleftrightarrow> cl_pc cl \<in> {Announce True, Reading, Closing}"

text \<open>The connections a user has in the hub's map.\<close>

definition conns_of :: "uuid \<Rightarrow> hub \<Rightarrow> cid set" where
  "conns_of u h = (case hub_clients h u of None \<Rightarrow> {} | Some S \<Rightarrow> S)"

definition client_ok :: "client \<Rightarrow> bool" where
  "client_ok cl \<longleftrightarrow>
     (cl_closed cl \<longleftrightarrow> cl_pc cl = Done) \<and> length (cl_send cl) \<le> sendBuffer \<and>
     prefix (cl_out cl) (cl_accepted cl) \<and>
     (cl_pc cl \<in> {Fresh, Announce True} \<longrightarrow> \<not> cl_writing cl \<and> cl_out cl @ cl_send cl = cl_accepted cl) \<and>
     (cl_writing cl \<longrightarrow> cl_out cl @ cl_send cl = cl_accepted cl)"

definition hub_ok :: "hub \<Rightarrow> bool" where
  "hub_ok h \<longleftrightarrow>
     dom (hub_clients h) = hub_online h \<and> {} \<notin> ran (hub_clients h) \<and>
     (\<forall>u. finite (conns_of u h)) \<and> length (hub_notifyCh h) \<le> notifyCap"

definition conns_ok :: "hub \<Rightarrow> (cid \<rightharpoonup> client) \<Rightarrow> bool" where
  "conns_ok h m \<longleftrightarrow>
     (\<forall>c cl. m c = Some cl \<longrightarrow> client_ok cl) \<and>
     (\<forall>u c. c \<in> conns_of u h \<longleftrightarrow> (\<exists>cl. m c = Some cl \<and> cl_userID cl = u \<and> registered cl))"

definition job_ok :: "ws \<Rightarrow> bool" where
  "job_ok s \<longleftrightarrow> (\<forall>ev R. ws_job s = Some (ev, R) \<longrightarrow>
     finite R \<and> (\<forall>c \<in> R. \<exists>cl. ws_conns s c = Some cl \<and> registered cl))"

definition ws_inv :: "ws \<Rightarrow> bool" where
  "ws_inv s \<longleftrightarrow> hub_ok (ws_hub s) \<and> conns_ok (ws_hub s) (ws_conns s) \<and> job_ok s \<and> \<not> ws_panic s \<and> finite (dom (ws_conns s))"

inductive_cases hub_stepE: "hub_step s t"
inductive_cases conn_stepE: "conn_step s t"
inductive_cases write_stepE: "write_step s t"
inductive_cases env_stepE: "env_step s t"

lemmas channel_caps = notifyCap_def sendBuffer_def

lemma register_conns:
  assumes "hub_register c u h = (h', first)"
  shows "conns_of v h' = (if v = u then insert c (conns_of u h) else conns_of v h)" "first \<longleftrightarrow> u \<notin> hub_online h"
    "hub_notifyCh h' = hub_notifyCh h" "hub_online h' = insert u (hub_online h)"
  using assms by (auto simp: hub_register_def Let_def conns_of_def split: option.splits)

lemma hub_ok_register: "hub_ok h \<Longrightarrow> hub_register c u h = (h', first) \<Longrightarrow> hub_ok h'"
proof -
  assume ok: "hub_ok h" and r: "hub_register c u h = (h', first)"
  have m: "hub_clients h' = (hub_clients h)(u \<mapsto> insert c (conns_of u h))" "hub_online h' = insert u (hub_online h)"
    using r by (auto simp: hub_register_def Let_def conns_of_def)
  have "ran (hub_clients h') \<subseteq> insert (insert c (conns_of u h)) (ran (hub_clients h))"
    by (auto simp: m ran_def)
  with ok have "{} \<notin> ran (hub_clients h')" by (auto simp: hub_ok_def)
  moreover have "finite (conns_of v h')" for v using ok register_conns(1) [OF r, of v] by (simp add: hub_ok_def)
  ultimately show ?thesis using ok m register_conns(3) [OF r] by (auto simp: hub_ok_def)
qed

lemma unregister_conns:
  assumes "hub_ok h" "hub_unregister c u h = (h', gone)"
  shows "conns_of v h' = (if v = u then conns_of u h - {c} else conns_of v h)"
    "gone \<longleftrightarrow> u \<in> hub_online h \<and> conns_of u h - {c} = {}" "hub_notifyCh h' = hub_notifyCh h"
    "hub_clients h' = (hub_clients h)(u := (if conns_of u h - {c} = {} then None else Some (conns_of u h - {c})))"
    "hub_online h' = (if conns_of u h - {c} = {} then hub_online h - {u} else hub_online h)"
proof -
  have ne: "hub_clients h u \<noteq> Some {}" using assms(1) by (auto simp: hub_ok_def ran_def)
  have dom: "u \<in> hub_online h \<longleftrightarrow> hub_clients h u \<noteq> None" using assms(1) by (auto simp: hub_ok_def)
  show "conns_of v h' = (if v = u then conns_of u h - {c} else conns_of v h)"
    "gone \<longleftrightarrow> u \<in> hub_online h \<and> conns_of u h - {c} = {}" "hub_notifyCh h' = hub_notifyCh h"
    "hub_clients h' = (hub_clients h)(u := (if conns_of u h - {c} = {} then None else Some (conns_of u h - {c})))"
    "hub_online h' = (if conns_of u h - {c} = {} then hub_online h - {u} else hub_online h)"
    using assms(2) ne dom
    by (auto simp: hub_unregister_def Let_def conns_of_def fun_eq_iff split: option.splits if_splits)
qed

lemma hub_ok_unregister: "hub_ok h \<Longrightarrow> hub_unregister c u h = (h', gone) \<Longrightarrow> hub_ok h'"
proof -
  assume ok: "hub_ok h" and r: "hub_unregister c u h = (h', gone)"
  note U = unregister_conns [OF ok r]
  have "ran (hub_clients h') \<subseteq> ran (hub_clients h) \<union> {S. S = conns_of u h - {c} \<and> S \<noteq> {}}"
    by (auto simp: U(4) ran_def)
  with ok have "{} \<notin> ran (hub_clients h')" by (auto simp: hub_ok_def)
  moreover have "dom (hub_clients h') = hub_online h'"
  proof (cases "conns_of u h - {c} = {}")
    case True
    with ok show ?thesis by (auto simp: U(4,5) hub_ok_def)
  next
    case False
    then have "u \<in> dom (hub_clients h)" by (auto simp: conns_of_def split: option.splits)
    with ok False show ?thesis by (auto simp: U(4,5) hub_ok_def split: if_splits)
  qed
  moreover have "finite (conns_of v h')" for v using ok U(1) [of v] by (simp add: hub_ok_def)
  ultimately show ?thesis using ok U(3) by (simp add: hub_ok_def)
qed

text \<open>A change of one connection, with the hub's map following its registration.\<close>

lemma conns_ok_change:
  assumes ok: "conns_ok h m" and c: "case m c of None \<Rightarrow> True | Some cl \<Rightarrow> cl_userID cl = cl_userID cl'"
    and cl': "client_ok cl'"
    and map: "\<And>v. conns_of v h' = (if v = cl_userID cl' then
        (if registered cl' then insert c (conns_of v h) else conns_of v h - {c}) else conns_of v h)"
  shows "conns_ok h' (m(c \<mapsto> cl'))"
  unfolding conns_ok_def
proof (intro conjI allI)
  fix u d
  have old: "d \<in> conns_of u h \<longleftrightarrow> (\<exists>cl. m d = Some cl \<and> cl_userID cl = u \<and> registered cl)"
    using ok by (simp add: conns_ok_def)
  show "d \<in> conns_of u h' \<longleftrightarrow> (\<exists>cl. (m(c \<mapsto> cl')) d = Some cl \<and> cl_userID cl = u \<and> registered cl)"
  proof (cases "d = c")
    case True
    have "c \<notin> conns_of v h" if "v \<noteq> cl_userID cl'" for v
      using ok c that by (auto simp: conns_ok_def split: option.splits)
    then show ?thesis using True by (auto simp: map)
  next
    case False
    then have "d \<in> conns_of u h' \<longleftrightarrow> d \<in> conns_of u h" by (auto simp: map)
    with old False show ?thesis by simp
  qed
qed (use ok cl' in \<open>auto simp: conns_ok_def split: if_splits\<close>)

lemma conns_ok_same:
  assumes "conns_ok h m" "m c = Some cl" "cl_userID cl' = cl_userID cl" "registered cl' = registered cl" "client_ok cl'"
  shows "conns_ok h (m(c \<mapsto> cl'))"
proof (rule conns_ok_change [OF assms(1)])
  fix v
  have "c \<in> conns_of (cl_userID cl) h \<longleftrightarrow> registered cl" using assms(1,2) by (auto simp: conns_ok_def)
  then show "conns_of v h = (if v = cl_userID cl' then
        (if registered cl' then insert c (conns_of v h) else conns_of v h - {c}) else conns_of v h)"
    using assms(3,4) by auto
qed (use assms in auto)

lemma recipients_conns:
  "recipients n h = (if notify_userID n = uuid_Nil then \<Union>u. conns_of u h else conns_of (notify_userID n) h)"
proof -
  have "\<Union> (ran (hub_clients h)) = (\<Union>u. conns_of u h)"
  proof (intro set_eqI iffI)
    fix c assume "c \<in> \<Union> (ran (hub_clients h))"
    then obtain u S where "hub_clients h u = Some S" "c \<in> S" by (auto simp: ran_def)
    then have "c \<in> conns_of u h" by (simp add: conns_of_def)
    then show "c \<in> (\<Union>u. conns_of u h)" by blast
  next
    fix c assume "c \<in> (\<Union>u. conns_of u h)"
    then show "c \<in> \<Union> (ran (hub_clients h))" by (auto simp: conns_of_def ran_def split: option.splits)
  qed
  then show ?thesis by (simp add: recipients_def conns_of_def)
qed

lemma recipients_registered:
  assumes "conns_ok h m" "c \<in> recipients n h"
  shows "\<exists>cl. m c = Some cl \<and> registered cl"
  using assms by (auto simp: recipients_conns conns_ok_def split: if_splits)

lemma recipients_finite:
  assumes "conns_ok h m" "finite (dom m)"
  shows "finite (recipients n h)"
proof (rule finite_subset [OF _ assms(2)])
  show "recipients n h \<subseteq> dom m" using recipients_registered [OF assms(1), of _ n] by blast
qed

section \<open>The invariant holds\<close>

lemma queue_ok:
  assumes "client_ok cl" "registered cl"
  shows "\<exists>cl'. queue ev cl = Some cl' \<and> client_ok cl' \<and> cl_userID cl' = cl_userID cl \<and> registered cl'"
proof -
  have "\<not> cl_closed cl" using assms by (auto simp: client_ok_def registered_def)
  with assms show ?thesis by (auto simp: queue_def client_ok_def registered_def)
qed

lemma hub_step_inv:
  assumes "ws_inv s" "hub_step s t"
  shows "ws_inv t"
  using assms(2)
proof cases
  case (take_notify n rest)
  have "hub_ok ((ws_hub s)\<lparr>hub_notifyCh := rest\<rparr>)" "conns_ok ((ws_hub s)\<lparr>hub_notifyCh := rest\<rparr>) (ws_conns s)"
    using assms(1) take_notify by (auto simp: ws_inv_def hub_ok_def conns_ok_def conns_of_def)
  then show ?thesis using assms(1) take_notify(1) by (simp add: ws_inv_def job_ok_def)
next
  case (deliver_start n)
  have "finite (recipients n (ws_hub s))"
    using assms(1) by (auto simp: ws_inv_def intro: recipients_finite)
  moreover have "\<forall>c \<in> recipients n (ws_hub s). \<exists>cl. ws_conns s c = Some cl \<and> registered cl"
    using assms(1) recipients_registered by (auto simp: ws_inv_def)
  ultimately show ?thesis using assms(1) deliver_start(1) by (simp add: ws_inv_def job_ok_def)
next
  case (queue_one ev R c cl)
  have cl: "client_ok cl" "registered cl"
    using assms(1) queue_one by (auto simp: ws_inv_def conns_ok_def job_ok_def)
  from queue_ok [OF this, of ev] obtain cl' where q: "queue ev cl = Some cl'" "client_ok cl'" "cl_userID cl' = cl_userID cl" "registered cl'"
    by blast
  then have "conns_ok (ws_hub s) ((ws_conns s)(c \<mapsto> cl'))"
    using assms(1) queue_one(4) cl by (intro conns_ok_same [of _ _ c cl]) (auto simp: ws_inv_def)
  moreover have "\<forall>d \<in> R - {c}. \<exists>k. ((ws_conns s)(c \<mapsto> cl')) d = Some k \<and> registered k" "finite R"
    using assms(1) queue_one(2) by (auto simp: ws_inv_def job_ok_def)
  ultimately show ?thesis using assms(1) queue_one(1) q(1) by (simp add: ws_inv_def job_ok_def put_conn_def)
next
  case (deliver_done ev)
  then show ?thesis using assms(1) by (simp add: ws_inv_def job_ok_def)
qed

text \<open>A step that changes one connection and keeps its registration.\<close>

lemma ws_inv_same:
  assumes "ws_inv s" "ws_conns s c = Some cl" "cl_userID cl' = cl_userID cl" "registered cl' = registered cl" "client_ok cl'"
  shows "ws_inv (s\<lparr>ws_conns := (ws_conns s)(c \<mapsto> cl')\<rparr>)"
proof -
  have "conns_ok (ws_hub s) ((ws_conns s)(c \<mapsto> cl'))"
    using assms by (intro conns_ok_same [of _ _ c cl]) (auto simp: ws_inv_def)
  moreover have "job_ok (s\<lparr>ws_conns := (ws_conns s)(c \<mapsto> cl')\<rparr>)"
    using assms by (fastforce simp: ws_inv_def job_ok_def)
  ultimately show ?thesis using assms(1) by (simp add: ws_inv_def)
qed

text \<open>A send on the notification channel.\<close>

lemma ws_inv_push:
  assumes "ws_inv s" "can_notify (ws_hub s)"
  shows "ws_inv (s\<lparr>ws_hub := hub_Notify u ev (ws_hub s)\<rparr>)"
  using assms by (auto simp: ws_inv_def hub_ok_def conns_ok_def conns_of_def job_ok_def hub_Notify_def can_notify_def)

lemma client_of:
  assumes "ws_inv s" "ws_conns s c = Some cl"
  shows "client_ok cl"
  using assms by (auto simp: ws_inv_def conns_ok_def)

lemma ws_inv_register:
  assumes inv: "ws_inv s" and c: "ws_conns s c = Some cl" "cl_pc cl = Fresh" "ws_job s = None"
    and r: "hub_register c (cl_userID cl) (ws_hub s) = (h, first)"
  shows "ws_inv (s\<lparr>ws_hub := h, ws_conns := (ws_conns s)(c \<mapsto> cl\<lparr>cl_pc := if first then Announce True else Reading,
                                                               cl_writing := \<not> first\<rparr>)\<rparr>)"
proof -
  let ?cl = "cl\<lparr>cl_pc := if first then Announce True else Reading, cl_writing := \<not> first\<rparr>"
  have "conns_ok h ((ws_conns s)(c \<mapsto> ?cl))"
  proof (rule conns_ok_change [of "ws_hub s"])
    show "client_ok ?cl" using client_of [OF inv c(1)] c(2) by (auto simp: client_ok_def)
    show "conns_of v h = (if v = cl_userID ?cl then
        (if registered ?cl then insert c (conns_of v (ws_hub s)) else conns_of v (ws_hub s) - {c}) else conns_of v (ws_hub s))" for v
      using register_conns(1) [OF r, of v] by (simp add: registered_def)
  qed (use inv c in \<open>auto simp: ws_inv_def\<close>)
  moreover have "hub_ok h" using inv r by (auto simp: ws_inv_def intro: hub_ok_register)
  ultimately show ?thesis using inv c by (simp add: ws_inv_def job_ok_def)
qed

lemma ws_inv_unregister:
  assumes inv: "ws_inv s" and c: "ws_conns s c = Some cl" "cl_pc cl = Closing" "ws_job s = None"
    and r: "hub_unregister c (cl_userID cl) (ws_hub s) = (h, gone)"
  shows "ws_inv (s\<lparr>ws_hub := h, ws_conns := (ws_conns s)(c \<mapsto> cl\<lparr>cl_pc := if gone then Announce False else Unregistered\<rparr>)\<rparr>)"
proof -
  let ?cl = "cl\<lparr>cl_pc := if gone then Announce False else Unregistered\<rparr>"
  have ok: "hub_ok (ws_hub s)" using inv by (simp add: ws_inv_def)
  have "conns_ok h ((ws_conns s)(c \<mapsto> ?cl))"
  proof (rule conns_ok_change [of "ws_hub s"])
    show "client_ok ?cl" using client_of [OF inv c(1)] c(2) by (auto simp: client_ok_def)
    show "conns_of v h = (if v = cl_userID ?cl then
        (if registered ?cl then insert c (conns_of v (ws_hub s)) else conns_of v (ws_hub s) - {c}) else conns_of v (ws_hub s))" for v
      using unregister_conns(1) [OF ok r, of v] by (simp add: registered_def)
  qed (use inv c in \<open>auto simp: ws_inv_def\<close>)
  moreover have "hub_ok h" using hub_ok_unregister [OF ok r] .
  ultimately show ?thesis using inv c by (simp add: ws_inv_def job_ok_def)
qed

lemma ws_inv_connect:
  assumes "ws_inv s" "ws_conns s c = None"
  shows "ws_inv (s\<lparr>ws_conns := (ws_conns s)(c \<mapsto> NewClient u)\<rparr>)"
proof -
  have c: "c \<notin> conns_of v (ws_hub s)" for v using assms by (auto simp: ws_inv_def conns_ok_def)
  have "conns_ok (ws_hub s) ((ws_conns s)(c \<mapsto> NewClient u))"
    using assms c by (intro conns_ok_change [of "ws_hub s"]) (auto simp: ws_inv_def client_ok_def NewClient_def registered_def)
  moreover have "job_ok (s\<lparr>ws_conns := (ws_conns s)(c \<mapsto> NewClient u)\<rparr>)"
    using assms by (fastforce simp: ws_inv_def job_ok_def)
  ultimately show ?thesis using assms(1) by (simp add: ws_inv_def)
qed

lemma conn_step_inv:
  assumes inv: "ws_inv s" and step: "conn_step s t"
  shows "ws_inv t"
  using step
proof cases
  case (register c cl h first)
  with inv show ?thesis by (simp add: ws_inv_register)
next
  case (announce c cl on)
  let ?s = "s\<lparr>ws_hub := broadcastPresence (cl_userID cl) on (ws_hub s)\<rparr>"
  let ?cl = "cl\<lparr>cl_pc := if on then Reading else Unregistered, cl_writing := on \<or> cl_writing cl\<rparr>"
  have "ws_inv ?s" using ws_inv_push [OF inv announce(4)] by (simp add: broadcastPresence_def hub_Broadcast_def)
  then have "ws_inv (?s\<lparr>ws_conns := (ws_conns ?s)(c \<mapsto> ?cl)\<rparr>)"
    by (rule ws_inv_same [of ?s c cl]) (use announce client_of [OF inv announce(2)] in \<open>auto simp: registered_def client_ok_def\<close>)
  with announce(1) show ?thesis by simp
next
  case (read_end c cl)
  then have "set_pc c Closing s = s\<lparr>ws_conns := (ws_conns s)(c \<mapsto> cl\<lparr>cl_pc := Closing\<rparr>)\<rparr>" by (simp add: set_pc_def)
  moreover have "ws_inv (s\<lparr>ws_conns := (ws_conns s)(c \<mapsto> cl\<lparr>cl_pc := Closing\<rparr>)\<rparr>)"
    using inv read_end client_of [OF inv read_end(2)]
    by (intro ws_inv_same [of s c cl]) (auto simp: registered_def client_ok_def)
  ultimately show ?thesis using read_end(1) by simp
next
  case (unregister c cl h gone)
  with inv show ?thesis by (simp add: ws_inv_unregister)
next
  case (close c cl)
  have ok: "client_ok cl" by (rule client_of [OF inv close(2)])
  then have open_ch: "\<not> cl_closed cl" using close by (auto simp: client_ok_def)
  have "ws_inv (s\<lparr>ws_conns := (ws_conns s)(c \<mapsto> cl\<lparr>cl_closed := True, cl_pc := Done\<rparr>)\<rparr>)"
    using inv close ok by (intro ws_inv_same [of s c cl]) (auto simp: registered_def client_ok_def)
  with close(1) open_ch show ?thesis by (simp add: put_conn_def close_send_def)
qed

lemma write_step_inv:
  assumes inv: "ws_inv s" and step: "write_step s t"
  shows "ws_inv t"
  using step
proof cases
  case (write_event c cl ev rest)
  have "cl_accepted cl = (cl_out cl @ [ev]) @ rest" using client_of [OF inv write_event(2)] write_event by (simp add: client_ok_def)
  then have "prefix (cl_out cl @ [ev]) (cl_accepted cl)" by (rule prefixI)
  with write_event inv client_of [OF inv write_event(2)] show ?thesis
    by (simp, intro ws_inv_same [of s c cl]) (auto simp: registered_def client_ok_def)
next
  case (write_error c cl ev rest)
  with inv client_of [OF inv write_error(2)] show ?thesis
    by (simp, intro ws_inv_same [of s c cl]) (auto simp: registered_def client_ok_def)
next
  case (ping_error c cl)
  with inv client_of [OF inv ping_error(2)] show ?thesis
    by (simp, intro ws_inv_same [of s c cl]) (auto simp: registered_def client_ok_def)
next
  case (write_end c cl)
  with inv client_of [OF inv write_end(2)] show ?thesis
    by (simp, intro ws_inv_same [of s c cl]) (auto simp: registered_def client_ok_def)
qed

lemma env_step_inv:
  assumes inv: "ws_inv s" and step: "env_step s t"
  shows "ws_inv t"
  using step
proof cases
  case (connect c u)
  with inv show ?thesis by (simp add: ws_inv_connect)
next
  case (notify u ev)
  with inv show ?thesis by (simp add: ws_inv_push)
next
  case cancel
  with inv show ?thesis by (simp add: ws_inv_def job_ok_def)
qed

lemma ws_inv_init: "ws_init s \<Longrightarrow> ws_inv s"
  by (auto simp: ws_init_def ws_inv_def hub_ok_def conns_ok_def conns_of_def job_ok_def NewHub_def)

interpretation wsS: safe_system ws_init ws_step ws_inv
proof unfold_locales
  show "ws_inv t" if "ws_inv s" "ws_step s t" for s t
    using that hub_step_inv conn_step_inv write_step_inv env_step_inv unfolding ws_step_def by blast
qed (rule ws_inv_init)

abbreviation ws_reachable :: "ws \<Rightarrow> bool" where
  "ws_reachable \<equiv> reach ws_init ws_step"

text \<open>Whatever the interleaving of the hub, the connections, their writers and the handlers,
  no goroutine sends on a closed channel or closes one twice: the hub never panics.\<close>

lemma hub_never_panics:
  assumes "ws_reachable s"
  shows "\<not> ws_panic s"
  using wsS.reach_inv [OF assms] by (simp add: ws_inv_def)

lemma online_registered:
  assumes inv: "ws_inv s"
  shows "IsOnline u (ws_hub s) \<longleftrightarrow> (\<exists>c cl. ws_conns s c = Some cl \<and> cl_userID cl = u \<and> registered cl)"
proof -
  have "u \<in> hub_online (ws_hub s) \<longleftrightarrow> conns_of u (ws_hub s) \<noteq> {}"
    using inv by (auto simp: ws_inv_def hub_ok_def conns_of_def ran_def split: option.splits)
  also have "\<dots> \<longleftrightarrow> (\<exists>c. c \<in> conns_of u (ws_hub s))" by blast
  finally show ?thesis using inv by (simp add: IsOnline_def ws_inv_def conns_ok_def)
qed

text \<open>C29: A user is online for the hub exactly when one of the user's connections is registered,
  and an event for the user, or a broadcast, is addressed to exactly the registered connections
  of the user, or of everyone.\<close>

theorem presence_exact:
  assumes "ws_reachable s"
  shows "(IsOnline u (ws_hub s) \<longleftrightarrow> (\<exists>c cl. ws_conns s c = Some cl \<and> cl_userID cl = u \<and> registered cl)) \<and>
    recipients n (ws_hub s) =
      {c. \<exists>cl. ws_conns s c = Some cl \<and> registered cl \<and> (notify_userID n = uuid_Nil \<or> cl_userID cl = notify_userID n)}"
proof -
  have inv: "ws_inv s" by (rule wsS.reach_inv [OF assms])
  then have "c \<in> conns_of v (ws_hub s) \<longleftrightarrow> (\<exists>cl. ws_conns s c = Some cl \<and> cl_userID cl = v \<and> registered cl)" for c v
    by (simp add: ws_inv_def conns_ok_def)
  with online_registered [OF inv] show ?thesis by (auto simp: recipients_conns)
qed

text \<open>C32: The channels keep their capacities, 256 for the hub and 64 for a connection, and a
  connection's events are written in the order they were accepted: what was written is a prefix
  of what was accepted, and while the writer runs the rest is exactly what is buffered.\<close>

theorem channels_bounded_fifo:
  assumes "ws_reachable s"
  shows "length (hub_notifyCh (ws_hub s)) \<le> 256 \<and>
    (ws_conns s c = Some cl \<longrightarrow> length (cl_send cl) \<le> 64 \<and> prefix (cl_out cl) (cl_accepted cl) \<and>
       (cl_writing cl \<longrightarrow> cl_out cl @ cl_send cl = cl_accepted cl))"
  using wsS.reach_inv [OF assms]
  by (auto simp: ws_inv_def hub_ok_def conns_ok_def client_ok_def channel_caps)

section \<open>The hub drains its queue\<close>

text \<open>What the hub still has to do: notifications to receive, then whether one waits for its
  delivery, then recipients to serve.\<close>

definition hub_work :: "ws \<Rightarrow> nat \<times> nat \<times> nat" where
  "hub_work s = (length (hub_notifyCh (ws_hub s)), case ws_taken s of None \<Rightarrow> 0 | Some n \<Rightarrow> 1,
     case ws_job s of None \<Rightarrow> 0 | Some (ev, R) \<Rightarrow> Suc (card R))"

definition hub_order :: "(ws \<times> ws) set" where
  "hub_order = inv_image (less_than <*lex*> less_than <*lex*> less_than) hub_work"

lemma wf_hub_order: "wf hub_order"
  by (simp add: hub_order_def wf_inv_image wf_lex_prod)

lemma hub_step_decreases:
  assumes "hub_step s t" "ws_inv s"
  shows "(t, s) \<in> hub_order"
  using assms(1)
proof cases
  case (queue_one ev R c cl)
  have "finite R" using assms(2) queue_one by (auto simp: ws_inv_def job_ok_def)
  with queue_one have "card (R - {c}) < card R" by (intro card_Diff1_less)
  then show ?thesis using queue_one by (auto simp: hub_order_def hub_work_def put_conn_def split: option.split)
qed (auto simp: hub_order_def hub_work_def)

lemma hub_step_running: "hub_step s t \<Longrightarrow> ws_running t = ws_running s"
  by (auto simp: put_conn_def split: option.splits elim!: hub_stepE)

definition hub_idle :: "ws \<Rightarrow> bool" where
  "hub_idle s \<longleftrightarrow> ws_taken s = None \<and> ws_job s = None"

lemma hub_job_goes_on:
  assumes "ws_inv s" "ws_job s \<noteq> None"
  shows "\<exists>t. hub_step s t"
proof -
  obtain ev R where job: "ws_job s = Some (ev, R)" using assms(2) by auto
  show ?thesis
  proof (cases "R = {}")
    case True
    with job show ?thesis by (blast intro: deliver_done)
  next
    case False
    then obtain c where "c \<in> R" by blast
    moreover from this job assms(1) obtain cl where "ws_conns s c = Some cl" by (auto simp: ws_inv_def job_ok_def)
    ultimately show ?thesis using job by (blast intro: queue_one)
  qed
qed

lemma hub_not_stuck:
  assumes "ws_inv s" "ws_running s" "\<not> hub_idle s \<or> hub_notifyCh (ws_hub s) \<noteq> []"
  shows "\<exists>t. hub_step s t"
proof (cases "ws_job s")
  case None
  show ?thesis
  proof (cases "ws_taken s")
    case None
    with \<open>ws_job s = None\<close> assms(3) obtain n rest where "hub_notifyCh (ws_hub s) = n # rest"
      by (cases "hub_notifyCh (ws_hub s)") (auto simp: hub_idle_def)
    with None \<open>ws_job s = None\<close> assms(2) show ?thesis by (blast intro: take_notify)
  next
    case (Some n)
    with \<open>ws_job s = None\<close> show ?thesis by (blast intro: deliver_start)
  qed
qed (simp add: hub_job_goes_on [OF assms(1)])

lemma hub_drains_from:
  assumes "ws_inv s" "ws_running s"
  shows "\<exists>t. hub_step\<^sup>*\<^sup>* s t \<and> hub_idle t \<and> hub_notifyCh (ws_hub t) = []"
  using assms
proof (induction s rule: wf_induct_rule [OF wf_hub_order])
  case (1 s)
  show ?case
  proof (cases "\<not> hub_idle s \<or> hub_notifyCh (ws_hub s) \<noteq> []")
    case True
    with 1 obtain t where t: "hub_step s t" using hub_not_stuck by blast
    then have "\<exists>t'. hub_step\<^sup>*\<^sup>* t t' \<and> hub_idle t' \<and> hub_notifyCh (ws_hub t') = []"
      using 1 hub_step_decreases hub_step_inv hub_step_running by (intro "1.IH") auto
    with t show ?thesis by (meson converse_rtranclp_into_rtranclp)
  next
    case False
    then have "hub_idle s \<and> hub_notifyCh (ws_hub s) = []" by blast
    then show ?thesis by blast
  qed
qed

text \<open>C31: The hub never gets stuck and never works forever: as long as its context lives, from
  every reachable state its own steps alone end, every run of them, in a state with an empty
  channel and nothing left to deliver, in which a blocked notification can proceed.\<close>

theorem hub_drains:
  assumes "ws_reachable s" "ws_running s"
  shows "(\<exists>t. hub_step\<^sup>*\<^sup>* s t \<and> ws_taken t = None \<and> ws_job t = None \<and> hub_notifyCh (ws_hub t) = [] \<and> can_notify (ws_hub t)) \<and>
    (\<forall>t. hub_step\<^sup>*\<^sup>* s t \<longrightarrow> (\<nexists>t'. hub_step t t') \<longrightarrow> ws_taken t = None \<and> ws_job t = None \<and> hub_notifyCh (ws_hub t) = []) \<and>
    wf {(t', t). hub_step\<^sup>*\<^sup>* s t \<and> hub_step t t'}"
proof -
  have inv: "ws_inv s" by (rule wsS.reach_inv [OF assms(1)])
  have along: "ws_inv t \<and> ws_running t" if "hub_step\<^sup>*\<^sup>* s t" for t
    using that by (induction rule: rtranclp_induct) (use inv assms(2) hub_step_inv hub_step_running in auto)
  from hub_drains_from [OF inv assms(2)] have
    "\<exists>t. hub_step\<^sup>*\<^sup>* s t \<and> ws_taken t = None \<and> ws_job t = None \<and> hub_notifyCh (ws_hub t) = [] \<and> can_notify (ws_hub t)"
    by (auto simp: hub_idle_def can_notify_def channel_caps)
  moreover have "ws_taken t = None \<and> ws_job t = None \<and> hub_notifyCh (ws_hub t) = []"
    if "hub_step\<^sup>*\<^sup>* s t" "\<nexists>t'. hub_step t t'" for t
    using along [OF that(1)] hub_not_stuck [of t] that(2) unfolding hub_idle_def by blast
  moreover have "wf {(t', t). hub_step\<^sup>*\<^sup>* s t \<and> hub_step t t'}"
    by (rule wf_subset [OF wf_hub_order]) (use along hub_step_decreases in blast)
  ultimately show ?thesis by blast
qed

section \<open>Deliveries\<close>

text \<open>
  A delivery begins when the hub's goroutine has the read lock and ends when it gives it back. In
  between the other goroutines go on: connections are opened, announce themselves, are written to
  and stop reading, and handlers notify. \<open>during\<close> is one step of any goroutine inside a delivery.
\<close>

definition during :: "ws \<Rightarrow> ws \<Rightarrow> bool" where
  "during s t \<longleftrightarrow> ws_job s \<noteq> None \<and> ws_step s t"

text \<open>What a delivery promises, from the state \<open>s\<close> in which the lock is taken to the state \<open>t\<close> in
  which it is given back: the registrations are the same, every connection of the addressee
  accepted the event once, unless its buffer was full, and nobody else accepted anything.\<close>

definition offered :: "Event \<Rightarrow> client \<Rightarrow> client \<Rightarrow> bool" where
  "offered ev cl cl' \<longleftrightarrow>
     cl_accepted cl' = cl_accepted cl @ [ev] \<or> length (cl_send cl) = sendBuffer \<and> cl_accepted cl' = cl_accepted cl"

definition delivered :: "notify \<Rightarrow> ws \<Rightarrow> ws \<Rightarrow> bool" where
  "delivered n s t \<longleftrightarrow>
     hub_clients (ws_hub t) = hub_clients (ws_hub s) \<and> hub_online (ws_hub t) = hub_online (ws_hub s) \<and>
     (\<exists>new. hub_notifyCh (ws_hub t) = hub_notifyCh (ws_hub s) @ new) \<and>
     (\<forall>c cl. ws_conns s c = Some cl \<longrightarrow> (\<exists>cl'. ws_conns t c = Some cl' \<and> cl_userID cl' = cl_userID cl \<and>
        (if c \<in> recipients n (ws_hub s) then registered cl' \<and> offered (notify_event n) cl cl'
         else cl_accepted cl' = cl_accepted cl))) \<and>
     (\<forall>c cl'. ws_conns s c = None \<longrightarrow> ws_conns t c = Some cl' \<longrightarrow> cl_accepted cl' = [])"

lemma deliveredD:
  assumes "delivered n s t" "c \<in> recipients n (ws_hub s)" "ws_conns s c = Some cl" "ws_conns t c = Some cl'"
  shows "offered (notify_event n) cl cl'"
  using assms unfolding delivered_def by fastforce

text \<open>What the steps of the other goroutines leave alone while the lock is held.\<close>

definition undisturbed :: "client \<Rightarrow> client \<Rightarrow> bool" where
  "undisturbed cl cl' \<longleftrightarrow> cl_userID cl' = cl_userID cl \<and> cl_accepted cl' = cl_accepted cl \<and>
     (registered cl \<longrightarrow> registered cl') \<and> length (cl_send cl') \<le> length (cl_send cl)"

definition quiet :: "ws \<Rightarrow> ws \<Rightarrow> bool" where
  "quiet s t \<longleftrightarrow>
     ws_job t = ws_job s \<and> ws_taken t = ws_taken s \<and>
     hub_clients (ws_hub t) = hub_clients (ws_hub s) \<and> hub_online (ws_hub t) = hub_online (ws_hub s) \<and>
     (\<exists>new. hub_notifyCh (ws_hub t) = hub_notifyCh (ws_hub s) @ new) \<and>
     (\<forall>c cl. ws_conns s c = Some cl \<longrightarrow> (\<exists>cl'. ws_conns t c = Some cl' \<and> undisturbed cl cl')) \<and>
     (\<forall>c cl'. ws_conns s c = None \<longrightarrow> ws_conns t c = Some cl' \<longrightarrow> cl_accepted cl' = [])"

lemma undisturbed_refl [simp]: "undisturbed cl cl"
  by (simp add: undisturbed_def)

lemma quiet_change:
  assumes "ws_conns s c = Some cl" "undisturbed cl cl'" "h = ws_hub s \<or> h = hub_Notify u ev (ws_hub s)"
  shows "quiet s (s\<lparr>ws_hub := h, ws_conns := (ws_conns s)(c \<mapsto> cl')\<rparr>)"
  using assms by (auto simp: quiet_def hub_Notify_def)

lemma other_steps_quiet:
  assumes "ws_job s \<noteq> None" "conn_step s t \<or> write_step s t \<or> env_step s t"
  shows "quiet s t"
  using assms(2)
proof (elim disjE)
  assume "conn_step s t"
  then show ?thesis
  proof cases
    case (announce c cl on)
    then show ?thesis
      using quiet_change [of s c cl "cl\<lparr>cl_pc := if on then Reading else Unregistered, cl_writing := on \<or> cl_writing cl\<rparr>"
          "broadcastPresence (cl_userID cl) on (ws_hub s)" uuid_Nil "presence_event (cl_userID cl) on"]
      by (simp add: undisturbed_def registered_def broadcastPresence_def hub_Broadcast_def)
  next
    case (read_end c cl)
    then show ?thesis
      using quiet_change [of s c cl "cl\<lparr>cl_pc := Closing\<rparr>" "ws_hub s"]
      by (simp add: set_pc_def undisturbed_def registered_def)
  next
    case (close c cl)
    then show ?thesis
      using quiet_change [of s c cl "cl\<lparr>cl_closed := True, cl_pc := Done\<rparr>" "ws_hub s"]
      by (auto simp: put_conn_def close_send_def undisturbed_def registered_def quiet_def split: option.split)
  qed (use assms(1) in simp_all)
next
  assume "write_step s t"
  then show ?thesis
    by cases (use quiet_change [where s = s and h = "ws_hub s"] in \<open>auto simp: undisturbed_def registered_def\<close>)
next
  assume "env_step s t"
  then show ?thesis
    by cases (auto simp: quiet_def hub_Notify_def NewClient_def)
qed

text \<open>The states inside a delivery: the recipients in \<open>R\<close> are still to be served.\<close>

definition halfway :: "notify \<Rightarrow> ws \<Rightarrow> cid set \<Rightarrow> ws \<Rightarrow> bool" where
  "halfway n s R t \<longleftrightarrow>
     ws_job t = Some (notify_event n, R) \<and> R \<subseteq> recipients n (ws_hub s) \<and>
     hub_clients (ws_hub t) = hub_clients (ws_hub s) \<and> hub_online (ws_hub t) = hub_online (ws_hub s) \<and>
     (\<exists>new. hub_notifyCh (ws_hub t) = hub_notifyCh (ws_hub s) @ new) \<and>
     (\<forall>c cl. ws_conns s c = Some cl \<longrightarrow> (\<exists>cl'. ws_conns t c = Some cl' \<and> cl_userID cl' = cl_userID cl \<and>
        (if c \<in> R then undisturbed cl cl'
         else if c \<in> recipients n (ws_hub s) then offered (notify_event n) cl cl'
         else cl_accepted cl' = cl_accepted cl))) \<and>
     (\<forall>c cl'. ws_conns s c = None \<longrightarrow> ws_conns t c = Some cl' \<longrightarrow> cl_accepted cl' = []) \<and>
     (\<forall>c \<in> recipients n (ws_hub s). \<exists>cl'. ws_conns t c = Some cl' \<and> registered cl')"

lemma halfway_start:
  assumes "ws_inv s"
  shows "halfway n s (recipients n (ws_hub s)) (s\<lparr>ws_taken := None, ws_job := Some (notify_event n, recipients n (ws_hub s))\<rparr>)"
  using assms recipients_registered [of "ws_hub s" "ws_conns s" _ n] by (auto simp: halfway_def ws_inv_def)

lemma halfway_quiet:
  assumes h: "halfway n s R t" and q: "quiet t t'"
  shows "halfway n s R t'"
  unfolding halfway_def
proof (intro conjI allI impI ballI)
  fix c cl assume "ws_conns s c = Some cl"
  with h obtain k where k: "ws_conns t c = Some k" "cl_userID k = cl_userID cl"
    "if c \<in> R then undisturbed cl k else if c \<in> recipients n (ws_hub s) then offered (notify_event n) cl k
     else cl_accepted k = cl_accepted cl"
    unfolding halfway_def by blast
  from q k(1) obtain cl' where "ws_conns t' c = Some cl'" "undisturbed k cl'" unfolding quiet_def by blast
  with k show "\<exists>cl'. ws_conns t' c = Some cl' \<and> cl_userID cl' = cl_userID cl \<and>
      (if c \<in> R then undisturbed cl cl' else if c \<in> recipients n (ws_hub s) then offered (notify_event n) cl cl'
       else cl_accepted cl' = cl_accepted cl)"
    by (auto simp: undisturbed_def offered_def split: if_splits)
next
  fix c cl' assume new: "ws_conns s c = None" "ws_conns t' c = Some cl'"
  show "cl_accepted cl' = []"
  proof (cases "ws_conns t c")
    case None
    with q new show ?thesis by (simp add: quiet_def)
  next
    case (Some k)
    with q new(2) obtain "undisturbed k cl'" by (fastforce simp: quiet_def)
    moreover have "cl_accepted k = []" using h new(1) Some by (simp add: halfway_def)
    ultimately show ?thesis by (simp add: undisturbed_def)
  qed
next
  fix c assume "c \<in> recipients n (ws_hub s)"
  with h obtain k where "ws_conns t c = Some k" "registered k" unfolding halfway_def by blast
  with q show "\<exists>cl'. ws_conns t' c = Some cl' \<and> registered cl'" by (fastforce simp: quiet_def undisturbed_def)
next
  from h obtain a where "hub_notifyCh (ws_hub t) = hub_notifyCh (ws_hub s) @ a" by (auto simp: halfway_def)
  moreover from q obtain b where "hub_notifyCh (ws_hub t') = hub_notifyCh (ws_hub t) @ b" by (auto simp: quiet_def)
  ultimately show "\<exists>new. hub_notifyCh (ws_hub t') = hub_notifyCh (ws_hub s) @ new" by simp
qed (use h q in \<open>simp_all add: halfway_def quiet_def\<close>)

text \<open>One recipient is served: its channel is open, because it is registered.\<close>

lemma queue_offers:
  assumes "client_ok cl" "client_ok k" "registered k" "undisturbed cl k"
  shows "\<exists>k'. queue ev k = Some k' \<and> cl_userID k' = cl_userID k \<and> registered k' \<and> offered ev cl k'"
proof -
  have "\<not> cl_closed k" using assms(2,3) by (auto simp: client_ok_def registered_def)
  with assms show ?thesis by (auto simp: queue_def undisturbed_def registered_def offered_def client_ok_def)
qed

lemma halfway_queue:
  assumes h: "halfway n s R t" and inv: "ws_inv s" "ws_inv t" and c: "c \<in> R" "ws_conns t c = Some k"
  shows "halfway n s (R - {c}) ((put_conn c (queue (notify_event n) k) t)\<lparr>ws_job := Some (notify_event n, R - {c})\<rparr>)"
proof -
  have rcp: "c \<in> recipients n (ws_hub s)" using h c(1) by (auto simp: halfway_def)
  with inv(1) obtain cl where cl: "ws_conns s c = Some cl"
    using recipients_registered [of "ws_hub s" "ws_conns s" c n] by (auto simp: ws_inv_def)
  have "undisturbed cl k" "registered k" using h c cl rcp by (fastforce simp: halfway_def)+
  from queue_offers [OF client_of [OF inv(1) cl] client_of [OF inv(2) c(2)] this(2,1), of "notify_event n"]
  obtain k' where k': "queue (notify_event n) k = Some k'" "cl_userID k' = cl_userID k" "registered k'"
    "offered (notify_event n) cl k'"
    by blast
  moreover have "cl_userID k = cl_userID cl" using \<open>undisturbed cl k\<close> by (simp add: undisturbed_def)
  ultimately show ?thesis
    using h rcp c cl unfolding halfway_def by (simp add: put_conn_def) blast
qed

lemma halfway_done:
  assumes "halfway n s {} t"
  shows "delivered n s (t\<lparr>ws_job := None\<rparr>)"
  unfolding delivered_def
proof (intro conjI allI impI)
  fix c cl assume cl: "ws_conns s c = Some cl"
  then obtain cl' where cl': "ws_conns t c = Some cl'" "cl_userID cl' = cl_userID cl"
    "if c \<in> recipients n (ws_hub s) then offered (notify_event n) cl cl' else cl_accepted cl' = cl_accepted cl"
    using assms unfolding halfway_def by (metis empty_iff)
  moreover have "registered cl'" if "c \<in> recipients n (ws_hub s)"
    using assms that cl'(1) by (fastforce simp: halfway_def)
  ultimately show "\<exists>cl'. ws_conns (t\<lparr>ws_job := None\<rparr>) c = Some cl' \<and> cl_userID cl' = cl_userID cl \<and>
      (if c \<in> recipients n (ws_hub s) then registered cl' \<and> offered (notify_event n) cl cl'
       else cl_accepted cl' = cl_accepted cl)"
    by (auto split: if_splits)
qed (use assms in \<open>auto simp: halfway_def\<close>)

lemma during_halfway:
  assumes "during\<^sup>*\<^sup>* s0 t" "ws_inv s" "ws_inv s0" "halfway n s R0 s0"
  shows "ws_inv t \<and> (ws_job t = None \<and> delivered n s t \<or> (\<exists>R. halfway n s R t))"
  using assms(1)
proof (induction rule: rtranclp_induct)
  case base
  with assms show ?case by blast
next
  case (step t t')
  then have inv: "ws_inv t" "ws_inv t'" using wsS.inv_step by (auto simp: during_def)
  from step obtain R where h: "halfway n s R t" by (auto simp: during_def)
  then have job: "ws_job t = Some (notify_event n, R)" by (simp add: halfway_def)
  from step.hyps(2) consider "hub_step t t'" | "conn_step t t' \<or> write_step t t' \<or> env_step t t'"
    by (auto simp: during_def ws_step_def)
  then show ?case
  proof cases
    case 1
    then show ?thesis
    proof cases
      case (queue_one ev R' c k)
      then show ?thesis using job inv halfway_queue [OF h assms(2) inv(1)] by auto
    next
      case (deliver_done ev)
      then show ?thesis using job inv h halfway_done by auto
    qed (use job in simp_all)
  next
    case 2
    with job have "quiet t t'" by (intro other_steps_quiet) simp_all
    with inv h halfway_quiet show ?thesis by blast
  qed
qed

text \<open>The hub can always end the delivery by itself.\<close>

lemma delivery_ends:
  assumes "ws_inv s" "ws_job s \<noteq> None"
  shows "\<exists>t. hub_step\<^sup>*\<^sup>* s t \<and> ws_job t = None"
  using assms
proof (induction s rule: wf_induct_rule [OF wf_hub_order])
  case (1 s)
  then obtain t where t: "hub_step s t" using hub_job_goes_on by blast
  show ?case
  proof (cases "ws_job t = None")
    case False
    with 1 t have "\<exists>t'. hub_step\<^sup>*\<^sup>* t t' \<and> ws_job t' = None"
      using hub_step_decreases hub_step_inv by (intro "1.IH") auto
    with t show ?thesis by (meson converse_rtranclp_into_rtranclp)
  qed (use t in blast)
qed

text \<open>C30: However the other goroutines interleave their steps with the delivery loop, connecting,
  announcing, writing, closing and notifying while the hub holds the read lock, the loop does what
  one atomic delivery does: when the lock is given back, the registrations are those of the moment
  it was taken, every connection that was addressed then is still registered and has accepted the
  event exactly once, unless its buffer was full, and nobody else has accepted anything. From every
  point inside the delivery the hub can end it by itself.\<close>

theorem delivery_exact:
  assumes "ws_reachable s" "ws_taken s = Some n" "ws_job s = None" "hub_step s s0" "during\<^sup>*\<^sup>* s0 t"
  shows "(ws_job t = None \<longrightarrow> delivered n s t) \<and> (\<exists>t'. hub_step\<^sup>*\<^sup>* t t' \<and> ws_job t' = None)"
proof -
  have inv: "ws_inv s" by (rule wsS.reach_inv [OF assms(1)])
  from assms(4) have s0: "s0 = s\<lparr>ws_taken := None, ws_job := Some (notify_event n, recipients n (ws_hub s))\<rparr>"
    by cases (use assms(2,3) in auto)
  have "ws_inv t \<and> (ws_job t = None \<and> delivered n s t \<or> (\<exists>R. halfway n s R t))"
    using during_halfway [OF assms(5) inv hub_step_inv [OF inv assms(4)]] halfway_start [OF inv, of n] s0 by simp
  moreover from this have "\<exists>t'. hub_step\<^sup>*\<^sup>* t t' \<and> ws_job t' = None" using delivery_ends by blast
  ultimately show ?thesis by (auto simp: halfway_def)
qed

section \<open>A run: two connections of one user\<close>

definition ws_state :: "(uuid \<rightharpoonup> cid set) \<Rightarrow> bool list \<Rightarrow> (cid \<rightharpoonup> client) \<Rightarrow> ws" where
  "ws_state clients ann conns =
     \<lparr>ws_hub = \<lparr>hub_clients = clients, hub_online = dom clients,
                hub_notifyCh = map (\<lambda>b. \<lparr>notify_userID = uuid_Nil, notify_event = presence_event 7 b\<rparr>) ann\<rparr>,
      ws_conns = conns, ws_taken = None, ws_job = None, ws_running = True, ws_panic = False\<rparr>"

definition sample_client :: "conn_pc \<Rightarrow> bool \<Rightarrow> client" where
  "sample_client p wr = \<lparr>cl_userID = 7, cl_send = [], cl_closed = (p = Done), cl_pc = p, cl_writing = wr,
     cl_accepted = [], cl_out = []\<rparr>"

lemmas sample_state_defs = ws_state_def sample_client_def

lemma reach_conn: "ws_reachable s \<Longrightarrow> conn_step s t \<Longrightarrow> ws_reachable t"
  by (rule reach_step) (auto simp: ws_step_def)

lemma reach_env: "ws_reachable s \<Longrightarrow> env_step s t \<Longrightarrow> ws_reachable t"
  by (rule reach_step) (auto simp: ws_step_def)

lemma ws_state_init: "ws_reachable (ws_state Map.empty [] Map.empty)"
  by (rule reach_init) (simp add: ws_init_def ws_state_def NewHub_def)

text \<open>The first connection comes online and announces it.\<close>

lemma run_online: "ws_reachable (ws_state [7 \<mapsto> {1}] [True] [1 \<mapsto> sample_client Reading True])"
proof -
  have "ws_reachable (ws_state Map.empty [] [1 \<mapsto> sample_client Fresh False])"
    using reach_env [OF ws_state_init connect [of _ 1 7]] by (simp add: sample_state_defs NewClient_def)
  from reach_conn [OF this register [of _ 1 "sample_client Fresh False"]]
  have "ws_reachable (ws_state [7 \<mapsto> {1}] [] [1 \<mapsto> sample_client (Announce True) False])"
    by (simp add: sample_state_defs hub_register_def)
  from reach_conn [OF this announce [of _ 1 "sample_client (Announce True) False" True]] show ?thesis
    by (simp add: sample_state_defs can_notify_def channel_caps broadcastPresence_def hub_Broadcast_def hub_Notify_def)
qed

text \<open>It goes offline; before it announces that, a second connection of the user comes online and
  announces itself.\<close>

lemma run_crossed: "ws_reachable (ws_state [7 \<mapsto> {2}] [True, True] [1 \<mapsto> sample_client (Announce False) True, 2 \<mapsto> sample_client Reading True])"
proof -
  from reach_conn [OF run_online read_end [of _ 1 "sample_client Reading True"]]
  have "ws_reachable (ws_state [7 \<mapsto> {1}] [True] [1 \<mapsto> sample_client Closing True])"
    by (simp add: sample_state_defs set_pc_def)
  from reach_conn [OF this unregister [of _ 1 "sample_client Closing True"]]
  have "ws_reachable (ws_state Map.empty [True] [1 \<mapsto> sample_client (Announce False) True])"
    by (simp add: sample_state_defs hub_unregister_def)
  from reach_env [OF this connect [of _ 2 7]]
  have "ws_reachable (ws_state Map.empty [True] [1 \<mapsto> sample_client (Announce False) True, 2 \<mapsto> sample_client Fresh False])"
    by (simp add: sample_state_defs NewClient_def)
  from reach_conn [OF this register [of _ 2 "sample_client Fresh False"]]
  have "ws_reachable (ws_state [7 \<mapsto> {2}] [True] [1 \<mapsto> sample_client (Announce False) True, 2 \<mapsto> sample_client (Announce True) False])"
    by (simp add: sample_state_defs hub_register_def)
  from reach_conn [OF this announce [of _ 2 "sample_client (Announce True) False" True]] show ?thesis
    by (simp add: sample_state_defs can_notify_def channel_caps broadcastPresence_def hub_Broadcast_def hub_Notify_def)
qed

text \<open>Presence announcements can be out of order: the announcement is sent after the lock is
  released, so a user who reconnects while an old connection is torn down can end up online and
  connected while the last announcement everybody receives says offline.\<close>

lemma presence_out_of_order:
  "\<exists>s c1 c2. ws_reachable s \<and> IsOnline 7 (ws_hub s) \<and>
     ws_conns s 1 = Some c1 \<and> cl_pc c1 = Done \<and> ws_conns s 2 = Some c2 \<and> cl_userID c2 = 7 \<and> cl_pc c2 = Reading \<and>
     map notify_event (hub_notifyCh (ws_hub s)) = [presence_event 7 True, presence_event 7 True, presence_event 7 False]"
proof -
  from reach_conn [OF run_crossed announce [of _ 1 "sample_client (Announce False) True" False]]
  have "ws_reachable (ws_state [7 \<mapsto> {2}] [True, True, False] [2 \<mapsto> sample_client Reading True, 1 \<mapsto> sample_client Unregistered True])"
    by (simp add: sample_state_defs can_notify_def channel_caps broadcastPresence_def hub_Broadcast_def hub_Notify_def fun_upd_twist)
  from reach_conn [OF this close [of _ 1 "sample_client Unregistered True"]]
  have "ws_reachable (ws_state [7 \<mapsto> {2}] [True, True, False] [2 \<mapsto> sample_client Reading True, 1 \<mapsto> sample_client Done True])"
    by (simp add: sample_state_defs put_conn_def close_send_def)
  then show ?thesis
    by (intro exI [of _ "ws_state [7 \<mapsto> {2}] [True, True, False] [2 \<mapsto> sample_client Reading True, 1 \<mapsto> sample_client Done True]"]
          exI [of _ "sample_client Done True"] exI [of _ "sample_client Reading True"])
       (simp add: sample_client_def, simp add: ws_state_def IsOnline_def)
qed

theorem hub_never_panics_witness: "\<not> ws_panic (ws_state [7 \<mapsto> {2}] [True, True] [1 \<mapsto> sample_client (Announce False) True, 2 \<mapsto> sample_client Reading True])"
  by (rule hub_never_panics [OF run_crossed])

theorem presence_exact_witness:
  "IsOnline 7 (ws_hub (ws_state [7 \<mapsto> {1}] [True] [1 \<mapsto> sample_client Reading True])) \<and>
   recipients \<lparr>notify_userID = 7, notify_event = presence_event 7 True\<rparr>
     (ws_hub (ws_state [7 \<mapsto> {1}] [True] [1 \<mapsto> sample_client Reading True])) = {1}"
  using presence_exact [OF run_online, of 7 "\<lparr>notify_userID = 7, notify_event = presence_event 7 True\<rparr>"]
  by (auto simp: sample_state_defs registered_def split: if_splits)

theorem channels_bounded_fifo_witness:
  "cl_out (sample_client Reading True) @ cl_send (sample_client Reading True) = cl_accepted (sample_client Reading True)"
  using channels_bounded_fifo [OF run_online, of 1 "sample_client Reading True"] by (simp add: ws_state_def sample_client_def)

theorem hub_drains_witness:
  "\<exists>t. hub_step\<^sup>*\<^sup>* (ws_state [7 \<mapsto> {1}] [True] [1 \<mapsto> sample_client Reading True]) t \<and> hub_notifyCh (ws_hub t) = []"
  using hub_drains [OF run_online] by (auto simp: ws_state_def)

text \<open>The announcement is delivered while the connection stops reading.\<close>

abbreviation run_notify :: notify where
  "run_notify \<equiv> \<lparr>notify_userID = 0, notify_event = presence_event 7 True\<rparr>"

abbreviation run_delivery :: "ws \<Rightarrow> ws" where
  "run_delivery s \<equiv> s\<lparr>ws_job := Some (presence_event 7 True, {1})\<rparr>"

lemma run_taken: "ws_reachable ((ws_state [7 \<mapsto> {1}] [] [1 \<mapsto> sample_client Reading True])\<lparr>ws_taken := Some run_notify\<rparr>)"
proof -
  have "hub_step (ws_state [7 \<mapsto> {1}] [True] [1 \<mapsto> sample_client Reading True])
     ((ws_state [7 \<mapsto> {1}] [] [1 \<mapsto> sample_client Reading True])\<lparr>ws_taken := Some run_notify\<rparr>)"
    using take_notify [of "ws_state [7 \<mapsto> {1}] [True] [1 \<mapsto> sample_client Reading True]" run_notify "[]"]
    by (simp add: ws_state_def)
  then show ?thesis by (intro reach_step [OF run_online]) (simp add: ws_step_def)
qed

lemma run_start:
  "hub_step ((ws_state [7 \<mapsto> {1}] [] [1 \<mapsto> sample_client Reading True])\<lparr>ws_taken := Some run_notify\<rparr>)
     (run_delivery (ws_state [7 \<mapsto> {1}] [] [1 \<mapsto> sample_client Reading True]))"
  using deliver_start [of "(ws_state [7 \<mapsto> {1}] [] [1 \<mapsto> sample_client Reading True])\<lparr>ws_taken := Some run_notify\<rparr>" run_notify]
  by (simp add: ws_state_def recipients_def)

lemma run_during:
  "\<exists>t. during\<^sup>*\<^sup>* (run_delivery (ws_state [7 \<mapsto> {1}] [] [1 \<mapsto> sample_client Reading True])) t \<and> ws_job t = None \<and>
     (\<exists>cl. ws_conns t 1 = Some cl \<and> cl_pc cl = Closing)"
proof -
  let ?a = "ws_state [7 \<mapsto> {1}] [] [1 \<mapsto> sample_client Reading True]"
  let ?b = "ws_state [7 \<mapsto> {1}] [] [1 \<mapsto> sample_client Closing True]"
  let ?k = "(sample_client Closing True)\<lparr>cl_send := [presence_event 7 True], cl_accepted := [presence_event 7 True]\<rparr>"
  let ?c = "ws_state [7 \<mapsto> {1}] [] [1 \<mapsto> ?k]"
  have "conn_step (run_delivery ?a) (run_delivery ?b)"
    using read_end [of "run_delivery ?a" 1 "sample_client Reading True"] by (simp add: sample_state_defs set_pc_def)
  then have "during (run_delivery ?a) (run_delivery ?b)" by (simp add: during_def ws_step_def)
  moreover have "hub_step (run_delivery ?b) (?c\<lparr>ws_job := Some (presence_event 7 True, {})\<rparr>)"
    using queue_one [of "run_delivery ?b" "presence_event 7 True" "{1}" 1 "sample_client Closing True"]
    by (simp add: sample_state_defs queue_def put_conn_def channel_caps)
  then have "during (run_delivery ?b) (?c\<lparr>ws_job := Some (presence_event 7 True, {})\<rparr>)" by (simp add: during_def ws_step_def)
  moreover have "hub_step (?c\<lparr>ws_job := Some (presence_event 7 True, {})\<rparr>) ?c"
    using deliver_done [of "?c\<lparr>ws_job := Some (presence_event 7 True, {})\<rparr>" "presence_event 7 True"] by (simp add: ws_state_def)
  then have "during (?c\<lparr>ws_job := Some (presence_event 7 True, {})\<rparr>) ?c" by (simp add: during_def ws_step_def)
  ultimately have "during\<^sup>*\<^sup>* (run_delivery ?a) ?c" by (meson converse_rtranclp_into_rtranclp rtranclp.rtrancl_refl)
  moreover have "ws_job ?c = None" "\<exists>cl. ws_conns ?c 1 = Some cl \<and> cl_pc cl = Closing" by (simp_all add: sample_state_defs)
  ultimately show ?thesis by blast
qed

theorem delivery_exact_witness:
  "\<exists>t. during\<^sup>*\<^sup>* (run_delivery (ws_state [7 \<mapsto> {1}] [] [1 \<mapsto> sample_client Reading True])) t \<and>
     (\<exists>cl. ws_conns t 1 = Some cl \<and> cl_pc cl = Closing \<and> cl_accepted cl = [presence_event 7 True])"
proof -
  obtain t cl where t: "during\<^sup>*\<^sup>* (run_delivery (ws_state [7 \<mapsto> {1}] [] [1 \<mapsto> sample_client Reading True])) t" "ws_job t = None"
    "ws_conns t 1 = Some cl" "cl_pc cl = Closing"
    using run_during by blast
  have "delivered run_notify ((ws_state [7 \<mapsto> {1}] [] [1 \<mapsto> sample_client Reading True])\<lparr>ws_taken := Some run_notify\<rparr>) t"
    using delivery_exact [OF run_taken _ _ run_start t(1)] t(2) by (simp add: ws_state_def)
  then have "offered (presence_event 7 True) (sample_client Reading True) cl"
    using deliveredD [of run_notify _ t 1 "sample_client Reading True" cl] t(3) by (simp add: ws_state_def recipients_def)
  with t show ?thesis by (auto simp: offered_def sample_client_def channel_caps)
qed

end
