(* ===== verification/Handlers.thy ===== *)
theory Handlers
  imports Http_Core Admin_Install Message_Service Media_Service Hub
begin

text \<open>
  The handlers of \<^verbatim>\<open>internal/handlers\<close>: each reads its path, query and body, calls its service
  and maps the result to a response, in the order of the code. A handler that needs the hub gets
  the state the hub is in when it is asked; the events it sends to the hub are logged in the
  world.
\<close>

section \<open>Authentication: \<^verbatim>\<open>auth.go\<close>\<close>

record registerRequest =
  rr_Username :: string
  rr_Email :: string
  rr_Password :: string

definition decode_registerRequest :: "request \<Rightarrow> registerRequest option" where
  "decode_registerRequest r =
     Option.bind (decodeJSON r) (\<lambda>kvs.
     Option.bind (str_field ''username'' kvs) (\<lambda>u.
     Option.bind (str_field ''email'' kvs) (\<lambda>e.
     Option.bind (str_field ''password'' kvs) (\<lambda>p.
     Some \<lparr>rr_Username = u, rr_Email = e, rr_Password = p\<rparr>))))"

definition decode_loginRequest :: "request \<Rightarrow> (string \<times> string) option" where
  "decode_loginRequest r =
     Option.bind (decodeJSON r) (\<lambda>kvs.
     Option.bind (str_field ''identifier'' kvs) (\<lambda>i.
     Option.bind (str_field ''password'' kvs) (\<lambda>p.
     Some (i, p))))"

text \<open>\<^verbatim>\<open>int(h.cfg.RefreshTTL.Seconds())\<close>: seconds, cut towards zero.\<close>

definition setRefreshCookie :: "Config \<Rightarrow> string \<Rightarrow> response \<Rightarrow> response" where
  "setRefreshCookie cfg value r =
     r\<lparr>resp_Cookie := Some \<lparr>ck_Name = cfg_RefreshCookieName cfg, ck_Value = value,
        ck_MaxAge = (let d = sint (cfg_RefreshTTL cfg)
                     in if 0 \<le> d then d div 1000000000 else - ((- d) div 1000000000)),
        ck_HttpOnly = True, ck_Secure = SecureCookies cfg\<rparr>\<rparr>"

definition clearRefreshCookie :: "Config \<Rightarrow> response \<Rightarrow> response" where
  "clearRefreshCookie cfg r =
     r\<lparr>resp_Cookie := Some \<lparr>ck_Name = cfg_RefreshCookieName cfg, ck_Value = [], ck_MaxAge = -1,
        ck_HttpOnly = True, ck_Secure = SecureCookies cfg\<rparr>\<rparr>"

definition clientIP :: "request \<Rightarrow> string" where
  "clientIP r = (case SplitHostPort (rq_RemoteAddr r) of Some (ip, _) \<Rightarrow> ip | None \<Rightarrow> rq_RemoteAddr r)"

definition Auth_Register :: "ext \<Rightarrow> AuthService \<Rightarrow> request \<Rightarrow> handler" where
  "Auth_Register X svc r =
     (case decode_registerRequest r of
        None \<Rightarrow> returnE (writeError 400 ''malformed_request'' ''request body is invalid'')
      | Some req \<Rightarrow>
          respond (AuthService_Register X svc (rr_Username req) (rr_Email req) (rr_Password req))
            (\<lambda>err. case err of
                     ErrValidation detail \<Rightarrow> writeError 400 ''validation_error'' (''validation failed: '' @ detail)
                   | _ \<Rightarrow> if err = ErrUsernameTaken \<or> err = ErrEmailTaken
                          then writeError 409 ''user_exists'' ''username or email is already registered''
                          else writeServerError err)
            (\<lambda>user. writeJSON 201 (UserBody user)))"

definition Auth_Login :: "ext \<Rightarrow> AuthService \<Rightarrow> request \<Rightarrow> handler" where
  "Auth_Login X svc r =
     (case decode_loginRequest r of
        None \<Rightarrow> returnE (writeError 400 ''malformed_request'' ''request body is invalid'')
      | Some (identifier, password) \<Rightarrow>
          respond (AuthService_Login X svc identifier password (rq_UserAgent r) (clientIP r))
            (\<lambda>err. if err = ErrInvalidCredentials
                   then writeError 401 ''invalid_credentials'' ''username or password is incorrect''
                   else if err = ErrUserNotActive
                   then writeError 403 ''account_disabled'' ''account is not active''
                   else writeServerError err)
            (\<lambda>t. setRefreshCookie (as_cfg svc) (tok_RefreshToken t)
                   (writeJSON 200 (LoginBody (tok_AccessToken t) (tok_User t) (tok_Roles t)))))"

definition Auth_Refresh :: "ext \<Rightarrow> AuthService \<Rightarrow> request \<Rightarrow> handler" where
  "Auth_Refresh X svc r =
     (case rq_Cookie r (cfg_RefreshCookieName (as_cfg svc)) of
        None \<Rightarrow> returnE (writeError 401 ''invalid_refresh_token'' ''refresh token is missing'')
      | Some v \<Rightarrow>
          if v = [] then returnE (writeError 401 ''invalid_refresh_token'' ''refresh token is missing'')
          else
            respond (AuthService_Refresh X svc v (rq_UserAgent r) (clientIP r))
              (\<lambda>err. if err = ErrInvalidRefresh
                     then clearRefreshCookie (as_cfg svc)
                            (writeError 401 ''invalid_refresh_token'' ''refresh token is invalid or expired'')
                     else if err = ErrUserNotActive
                     then clearRefreshCookie (as_cfg svc) (writeError 403 ''account_disabled'' ''account is not active'')
                     else writeServerError err)
              (\<lambda>t. setRefreshCookie (as_cfg svc) (tok_RefreshToken t) (writeJSON 200 (AccessTokenBody (tok_AccessToken t)))))"

definition Auth_Logout :: "ext \<Rightarrow> AuthService \<Rightarrow> request \<Rightarrow> handler" where
  "Auth_Logout X svc r =
     bindE (case rq_Cookie r (cfg_RefreshCookieName (as_cfg svc)) of
              None \<Rightarrow> returnE ()
            | Some v \<Rightarrow> if v \<noteq> [] then ignoreE (AuthService_Logout X v) else returnE ()) (\<lambda>_.
     returnE (clearRefreshCookie (as_cfg svc) no_content))"

definition Auth_Me :: "ext \<Rightarrow> UserInfo option \<Rightarrow> handler" where
  "Auth_Me X ctx =
     with_user ctx (\<lambda>info.
       respond (AuthService_Profile X (ui_ID info))
         (\<lambda>err. if err = ErrUserNotFound then writeError 404 ''user_not_found'' ''user does not exist''
                else writeServerError err)
         (\<lambda>(user, rs). writeJSON 200 (ProfileBody user rs)))"

section \<open>Groups, threads and posts\<close>

definition bad_id :: "string \<Rightarrow> response" where
  "bad_id message = writeError 400 ''invalid_id'' message"

definition bad_json :: response where
  "bad_json = writeError 400 ''invalid_json'' ''Invalid request body''"

definition decode_groupRequest :: "ext \<Rightarrow> request \<Rightarrow> GroupInput option" where
  "decode_groupRequest X r =
     Option.bind (decodeJSON r) (\<lambda>kvs.
     Option.bind (str_field ''name'' kvs) (\<lambda>n.
     Option.bind (str_field ''slug'' kvs) (\<lambda>s.
     Option.bind (str_field ''description'' kvs) (\<lambda>d.
     Option.bind (set_field (json_ptr (json_uuid X uuid_Nil)) ''parent_id'' None kvs) (\<lambda>p.
     Option.bind (set_field json_int ''sort_order'' 0 kvs) (\<lambda>o1.
     Some \<lparr>gi_Name = n, gi_Slug = s, gi_Description = d, gi_ParentID = p, gi_SortOrder = o1\<rparr>))))))"

definition Groups_List :: "ext \<Rightarrow> handler" where
  "Groups_List X = respond (GroupService_List X) writeCoreError (\<lambda>gs. writeJSON 200 (GroupList gs))"

definition Groups_Create :: "ext \<Rightarrow> request \<Rightarrow> handler" where
  "Groups_Create X r =
     (case decode_groupRequest X r of
        None \<Rightarrow> returnE bad_json
      | Some inp \<Rightarrow> respond (GroupService_Create inp) writeCoreError (\<lambda>g. writeJSON 201 (GroupBody g)))"

definition Groups_Get :: "ext \<Rightarrow> request \<Rightarrow> handler" where
  "Groups_Get X r =
     (case pathID X r ''groupID'' of
        None \<Rightarrow> returnE (bad_id ''Invalid group id'')
      | Some i \<Rightarrow> respond (GroupService_Get i) writeCoreError (\<lambda>g. writeJSON 200 (GroupBody g)))"

definition Groups_Update :: "ext \<Rightarrow> request \<Rightarrow> handler" where
  "Groups_Update X r =
     (case pathID X r ''groupID'' of
        None \<Rightarrow> returnE (bad_id ''Invalid group id'')
      | Some i \<Rightarrow>
          (case decode_groupRequest X r of
             None \<Rightarrow> returnE bad_json
           | Some inp \<Rightarrow> respond (GroupService_Update i inp) writeCoreError (\<lambda>g. writeJSON 200 (GroupBody g))))"

definition Groups_Delete :: "ext \<Rightarrow> request \<Rightarrow> handler" where
  "Groups_Delete X r =
     (case pathID X r ''groupID'' of
        None \<Rightarrow> returnE (bad_id ''Invalid group id'')
      | Some i \<Rightarrow> respond (GroupService_Delete i) writeCoreError (\<lambda>_. no_content))"

definition decode_createThreadRequest :: "request \<Rightarrow> (string \<times> string) option" where
  "decode_createThreadRequest r =
     Option.bind (decodeJSON r) (\<lambda>kvs.
     Option.bind (str_field ''title'' kvs) (\<lambda>t.
     Option.bind (str_field ''body'' kvs) (\<lambda>b.
     Some (t, b))))"

definition decode_updateThreadRequest :: "request \<Rightarrow> UpdateThreadInput option" where
  "decode_updateThreadRequest r =
     Option.bind (decodeJSON r) (\<lambda>kvs.
     Option.bind (set_field (json_ptr (json_str [])) ''title'' None kvs) (\<lambda>t.
     Option.bind (set_field (json_ptr json_bool) ''pinned'' None kvs) (\<lambda>p.
     Option.bind (set_field (json_ptr json_bool) ''locked'' None kvs) (\<lambda>l.
     Some \<lparr>uti_Title = t, uti_Pinned = p, uti_Locked = l\<rparr>))))"

definition Threads_ListByGroup :: "ext \<Rightarrow> request \<Rightarrow> handler" where
  "Threads_ListByGroup X r =
     (case pathID X r ''groupID'' of
        None \<Rightarrow> returnE (bad_id ''Invalid group id'')
      | Some i \<Rightarrow>
          (case pagination r of (limit, offset) \<Rightarrow>
             respond (ThreadService_ListByGroup i limit offset) writeCoreError
               (\<lambda>(items, n). writeJSON 200 (ThreadPage items n limit offset))))"

definition Threads_Create :: "ext \<Rightarrow> UserInfo option \<Rightarrow> request \<Rightarrow> handler" where
  "Threads_Create X ctx r =
     (case pathID X r ''groupID'' of
        None \<Rightarrow> returnE (bad_id ''Invalid group id'')
      | Some i \<Rightarrow>
          with_user ctx (\<lambda>user.
            case decode_createThreadRequest r of
              None \<Rightarrow> returnE bad_json
            | Some (title, body) \<Rightarrow>
                respond (ThreadService_Create
                    \<lparr>cti_GroupID = i, cti_AuthorID = ui_ID user, cti_Title = title, cti_Body = body\<rparr>)
                  writeCoreError (\<lambda>th. writeJSON 201 (ThreadBody th))))"

definition Threads_Get :: "ext \<Rightarrow> request \<Rightarrow> handler" where
  "Threads_Get X r =
     (case pathID X r ''threadID'' of
        None \<Rightarrow> returnE (bad_id ''Invalid thread id'')
      | Some i \<Rightarrow> respond (ThreadService_Get i) writeCoreError (\<lambda>th. writeJSON 200 (ThreadBody th)))"

definition Threads_Update :: "ext \<Rightarrow> UserInfo option \<Rightarrow> request \<Rightarrow> handler" where
  "Threads_Update X ctx r =
     (case pathID X r ''threadID'' of
        None \<Rightarrow> returnE (bad_id ''Invalid thread id'')
      | Some i \<Rightarrow>
          with_user ctx (\<lambda>user.
            case decode_updateThreadRequest r of
              None \<Rightarrow> returnE bad_json
            | Some inp \<Rightarrow>
                respond (ThreadService_Update i inp (ui_ID user) (ui_Roles user)) writeCoreError
                  (\<lambda>th. writeJSON 200 (ThreadBody th))))"

definition Threads_Delete :: "ext \<Rightarrow> UserInfo option \<Rightarrow> request \<Rightarrow> handler" where
  "Threads_Delete X ctx r =
     (case pathID X r ''threadID'' of
        None \<Rightarrow> returnE (bad_id ''Invalid thread id'')
      | Some i \<Rightarrow>
          with_user ctx (\<lambda>user.
            respond (ThreadService_Delete i (ui_ID user) (ui_Roles user)) writeCoreError (\<lambda>_. no_content)))"

definition decode_postRequest :: "request \<Rightarrow> string option" where
  "decode_postRequest r = Option.bind (decodeJSON r) (str_field ''body'')"

definition Posts_ListByThread :: "ext \<Rightarrow> request \<Rightarrow> handler" where
  "Posts_ListByThread X r =
     (case pathID X r ''threadID'' of
        None \<Rightarrow> returnE (bad_id ''Invalid thread id'')
      | Some i \<Rightarrow>
          (case pagination r of (limit, offset) \<Rightarrow>
             respond (PostService_ListByThread i limit offset) writeCoreError
               (\<lambda>(items, n). writeJSON 200 (PostPage items n limit offset))))"

definition Posts_Create :: "ext \<Rightarrow> UserInfo option \<Rightarrow> request \<Rightarrow> handler" where
  "Posts_Create X ctx r =
     (case pathID X r ''threadID'' of
        None \<Rightarrow> returnE (bad_id ''Invalid thread id'')
      | Some i \<Rightarrow>
          with_user ctx (\<lambda>user.
            case decode_postRequest r of
              None \<Rightarrow> returnE bad_json
            | Some body \<Rightarrow>
                respond (PostService_Create i (ui_ID user) body) writeCoreError (\<lambda>p. writeJSON 201 (PostBody p))))"

definition Posts_Update :: "ext \<Rightarrow> UserInfo option \<Rightarrow> request \<Rightarrow> handler" where
  "Posts_Update X ctx r =
     (case pathID X r ''postID'' of
        None \<Rightarrow> returnE (bad_id ''Invalid post id'')
      | Some i \<Rightarrow>
          with_user ctx (\<lambda>user.
            case decode_postRequest r of
              None \<Rightarrow> returnE bad_json
            | Some body \<Rightarrow>
                respond (PostService_Update i (ui_ID user) body) writeCoreError (\<lambda>p. writeJSON 200 (PostBody p))))"

definition Posts_Delete :: "ext \<Rightarrow> UserInfo option \<Rightarrow> request \<Rightarrow> handler" where
  "Posts_Delete X ctx r =
     (case pathID X r ''postID'' of
        None \<Rightarrow> returnE (bad_id ''Invalid post id'')
      | Some i \<Rightarrow>
          with_user ctx (\<lambda>user.
            respond (PostService_Delete i (ui_ID user) (ui_Roles user)) writeCoreError (\<lambda>_. no_content)))"

section \<open>Administration and setup\<close>

definition decode_updateUserRequest :: "request \<Rightarrow> (string list option \<times> string option) option" where
  "decode_updateUserRequest r =
     Option.bind (decodeJSON r) (\<lambda>kvs.
     Option.bind (set_field (json_ptr json_strings) ''roles'' None kvs) (\<lambda>rs.
     Option.bind (set_field (json_ptr (json_str [])) ''status'' None kvs) (\<lambda>st.
     Some (rs, st))))"

definition decode_updateSettingsRequest :: "request \<Rightarrow> string option" where
  "decode_updateSettingsRequest r = Option.bind (decodeJSON r) (str_field ''forum_name'')"

definition malformed :: response where
  "malformed = writeError 400 ''malformed_request'' ''Malformed request body''"

definition Admin_ListUsers :: "ext \<Rightarrow> request \<Rightarrow> handler" where
  "Admin_ListUsers X r =
     (case pagination r of (limit, offset) \<Rightarrow>
        respond (AdminService_ListUsers X limit offset) writeCoreError
          (\<lambda>(items, n). writeJSON 200 (UserPage items n limit offset)))"

definition Admin_UpdateUser :: "ext \<Rightarrow> request \<Rightarrow> handler" where
  "Admin_UpdateUser X r =
     (case pathID X r ''userID'' of
        None \<Rightarrow> returnE (bad_id ''Invalid user id'')
      | Some i \<Rightarrow>
          (case decode_updateUserRequest r of
             None \<Rightarrow> returnE malformed
           | Some (rs, st) \<Rightarrow>
               if rs = None \<and> st = None
               then returnE (writeError 400 ''validation_error'' ''Provide roles or status'')
               else respond (AdminService_UpdateUser X i rs st) writeCoreError (\<lambda>u. writeJSON 200 (UserRolesBody u))))"

definition Admin_GetSettings :: handler where
  "Admin_GetSettings = respond AdminService_GetSettings writeCoreError (\<lambda>n. writeJSON 200 (SettingsBody n))"

definition Admin_UpdateSettings :: "request \<Rightarrow> handler" where
  "Admin_UpdateSettings r =
     (case decode_updateSettingsRequest r of
        None \<Rightarrow> returnE malformed
      | Some name \<Rightarrow> respond (AdminService_UpdateSettings name) writeCoreError (\<lambda>n. writeJSON 200 (SettingsBody n)))"

definition Admin_ListMedia :: "request \<Rightarrow> handler" where
  "Admin_ListMedia r =
     (case pagination r of (limit, offset) \<Rightarrow>
        respond (AdminService_ListMedia limit offset) writeCoreError
          (\<lambda>(items, n). writeJSON 200 (MediaPage items n limit offset)))"

definition decode_installRequest :: "request \<Rightarrow> InstallInput option" where
  "decode_installRequest r =
     Option.bind (decodeJSON r) (\<lambda>kvs.
     Option.bind (str_field ''forum_name'' kvs) (\<lambda>f.
     Option.bind (str_field ''admin_username'' kvs) (\<lambda>u.
     Option.bind (str_field ''admin_email'' kvs) (\<lambda>e.
     Option.bind (str_field ''admin_password'' kvs) (\<lambda>p.
     Some \<lparr>inst_ForumName = f, inst_AdminUsername = u, inst_AdminEmail = e, inst_AdminPassword = p\<rparr>)))))"

definition Install_GetStatus :: handler where
  "Install_GetStatus =
     respond InstallService_Status writeServerError
       (\<lambda>st. writeJSON 200 (InstallStatusBody (ist_Installed st) (ist_ForumName st)))"

definition Install_Create :: "ext \<Rightarrow> Params \<Rightarrow> request \<Rightarrow> handler" where
  "Install_Create X hasher r =
     (case decode_installRequest r of
        None \<Rightarrow> returnE (writeError 400 ''malformed_request'' ''Invalid JSON body'')
      | Some inp \<Rightarrow>
          respond (InstallService_Setup X hasher inp)
            (\<lambda>err. if err = ErrAlreadyInstalled then writeError 409 ''already_installed'' ''The forum is already installed''
                   else if err = ErrInvalidInput then writeError 400 ''validation_error'' ''Check the submitted fields''
                   else if err = ErrConflict then writeError 409 ''user_exists'' ''That username or email already exists''
                   else writeServerError err)
            (\<lambda>user. writeJSON 201 (InstalledBody (inst_ForumName inp) user)))"

section \<open>Media\<close>

definition missing_file :: response where
  "missing_file = writeError 400 ''missing_file'' (''a multipart file field '' @ [CHR 0x27] @ ''file'' @ [CHR 0x27] @ '' is required'')"

definition Media_UploadAvatar :: "ext \<Rightarrow> Config \<Rightarrow> UserInfo option \<Rightarrow> request \<Rightarrow> handler" where
  "Media_UploadAvatar X cfg ctx r =
     with_user ctx (\<lambda>user.
       case rq_File r of
         None \<Rightarrow> returnE missing_file
       | Some f \<Rightarrow>
           respond (MediaService_UploadAvatar X cfg (ui_ID user) (ff_Filename f) (ff_ContentType f) (ff_Size f))
             writeCoreError (\<lambda>u. writeJSON 200 (UserBody u)))"

definition Media_UploadAttachment :: "ext \<Rightarrow> Config \<Rightarrow> UserInfo option \<Rightarrow> request \<Rightarrow> handler" where
  "Media_UploadAttachment X cfg ctx r =
     with_user ctx (\<lambda>user.
       case rq_File r of
         None \<Rightarrow> returnE missing_file
       | Some f \<Rightarrow>
           (let raw = rq_FormValue r ''post_id'' in
            case (if raw = [] then Some None else map_option Some (uuid_Parse X raw)) of
              None \<Rightarrow> returnE (bad_id ''Invalid post id'')
            | Some postID \<Rightarrow>
                respond (MediaService_UploadAttachment X cfg (ui_ID user) postID (ff_Filename f) (ff_ContentType f) (ff_Size f))
                  writeCoreError (\<lambda>a. writeJSON 201 (AttachmentBody a))))"

definition Media_DeleteAttachment :: "ext \<Rightarrow> UserInfo option \<Rightarrow> request \<Rightarrow> handler" where
  "Media_DeleteAttachment X ctx r =
     with_user ctx (\<lambda>user.
       case pathID X r ''attachmentID'' of
         None \<Rightarrow> returnE (bad_id ''Invalid attachment id'')
       | Some i \<Rightarrow>
           respond (MediaService_DeleteAttachment i (ui_ID user) (ui_Roles user)) writeCoreError (\<lambda>_. no_content))"

text \<open>\<^verbatim>\<open>obj.Stat()\<close>: an error when the request fails or there is no such object.\<close>

definition object_Stat :: "string \<Rightarrow> unit dbop" where
  "object_Stat key w =
     (if ans_fault (w_env w (w_tick w)) \<noteq> NoFault \<or> key \<notin> objects (w_s3 w) then (Inl ErrStorage, tick w)
      else (Inr (), tick w))"

text \<open>\<^verbatim>\<open>io.Copy(w, obj)\<close>: all of the object, a part of it, or not a single byte has been written
  when it returns. The handler does nothing more in any case.\<close>

datatype copied = CopiedAll | CopiedPart | CopiedNothing

definition object_Copy :: "string \<Rightarrow> copied dbop" where
  "object_Copy key w =
     (Inr (case ans_fault (w_env w (w_tick w)) of
             NoFault \<Rightarrow> CopiedAll | AckLost \<Rightarrow> CopiedPart | NotExecuted \<Rightarrow> CopiedNothing), tick w)"

definition media_not_found :: response where
  "media_not_found = writeError 404 ''media_not_found'' ''File not found''"

definition Media_Serve :: "Config \<Rightarrow> request \<Rightarrow> handler" where
  "Media_Serve cfg r =
     (if rq_Param r ''bucket'' \<noteq> S3_Bucket cfg then returnE media_not_found
      else let key = rq_Param r ''*'' in
        if key = [] \<or> hd key = CHR ''/'' then returnE media_not_found
        else
          respond (bindE (S3_Open key) (\<lambda>_. bindE (object_Stat key) (\<lambda>_. object_Copy key))) (\<lambda>_. media_not_found)
            (\<lambda>n. case n of
                   CopiedAll \<Rightarrow> writeJSON 200 (ObjectBody key)
                 | CopiedPart \<Rightarrow> writeJSON 200 (PartialObject key)
                 | CopiedNothing \<Rightarrow> unwritten))"

section \<open>Messages, notifications and presence\<close>

text \<open>\<^verbatim>\<open>h.hub.Notify(..)\<close>: the event is handed to the hub.\<close>

definition notify_hub :: "uuid \<Rightarrow> string \<Rightarrow> event_data \<Rightarrow> unit dbop" where
  "notify_hub u typ dat w =
     (Inr (), w\<lparr>w_notify := w_notify w @ [\<lparr>notify_userID = u, notify_event = \<lparr>event_Type = typ, event_Data = dat\<rparr>\<rparr>]\<rparr>)"

definition decode_sendMessageRequest :: "ext \<Rightarrow> request \<Rightarrow> (uuid \<times> string) option" where
  "decode_sendMessageRequest X r =
     Option.bind (decodeJSON r) (\<lambda>kvs.
     Option.bind (set_field (json_uuid X) ''recipient_id'' uuid_Nil kvs) (\<lambda>u.
     Option.bind (str_field ''body'' kvs) (\<lambda>b.
     Some (u, b))))"

text \<open>\<open>send\<close> is the operation \<^verbatim>\<open>Send\<close> of the handler's message service \<^verbatim>\<open>h.svc\<close>.\<close>

definition Messages_Send_via ::
    "(uuid \<Rightarrow> uuid \<Rightarrow> string \<Rightarrow> PrivateMessage dbop) \<Rightarrow> ext \<Rightarrow> hub option \<Rightarrow> UserInfo option \<Rightarrow> request \<Rightarrow> handler" where
  "Messages_Send_via send X h ctx r =
     with_user ctx (\<lambda>user.
       case decode_sendMessageRequest X r of
         None \<Rightarrow> returnE (writeError 400 ''malformed_request'' ''Invalid request body'')
       | Some (recipient, body) \<Rightarrow>
           if recipient = uuid_Nil then returnE (bad_id ''Invalid recipient id'')
           else
             handleE
               (bindE (send (ui_ID user) recipient body) (\<lambda>msg.
                handleE
                  (bindE (NotificationService_OnPrivateMessage X msg) (\<lambda>n.
                   bindE (case h of
                            None \<Rightarrow> returnE ()
                          | Some _ \<Rightarrow>
                              bindE (notify_hub recipient ''pm'' (DataMessage msg)) (\<lambda>_.
                              notify_hub recipient ''notification'' (DataNotification n))) (\<lambda>_.
                   returnE (writeJSON 201 (MessageBody msg)))))
                  (\<lambda>e. returnE (writeServerError e))))
               (\<lambda>e. returnE (writeCoreError e)))"

definition Messages_Send :: "ext \<Rightarrow> hub option \<Rightarrow> UserInfo option \<Rightarrow> request \<Rightarrow> handler" where
  "Messages_Send = Messages_Send_via MessageService_Send"

definition Messages_Conversation :: "ext \<Rightarrow> UserInfo option \<Rightarrow> request \<Rightarrow> handler" where
  "Messages_Conversation X ctx r =
     with_user ctx (\<lambda>user.
       let invalid = bad_id (''Invalid '' @ [CHR 0x27] @ ''with'' @ [CHR 0x27] @ '' query parameter'') in
       case uuid_Parse X (rq_Query r ''with'') of
         None \<Rightarrow> returnE invalid
       | Some other \<Rightarrow>
           if other = uuid_Nil then returnE invalid
           else
             (case pagination r of (limit, offset) \<Rightarrow>
                respond (MessageService_Conversation (ui_ID user) other limit offset) writeCoreError
                  (\<lambda>(items, n). writeJSON 200 (MessagePage items n limit offset))))"

definition Messages_Inbox :: "UserInfo option \<Rightarrow> request \<Rightarrow> handler" where
  "Messages_Inbox ctx r =
     with_user ctx (\<lambda>user.
       case pagination r of (limit, offset) \<Rightarrow>
         respond (MessageService_Inbox (ui_ID user) limit offset) writeCoreError
           (\<lambda>(items, n). writeJSON 200 (MessagePage items n limit offset)))"

definition Messages_MarkRead :: "ext \<Rightarrow> UserInfo option \<Rightarrow> request \<Rightarrow> handler" where
  "Messages_MarkRead X ctx r =
     with_user ctx (\<lambda>user.
       case pathID X r ''messageID'' of
         None \<Rightarrow> returnE (bad_id ''Invalid message id'')
       | Some i \<Rightarrow> respond (MessageService_MarkRead i (ui_ID user)) writeCoreError (\<lambda>_. no_content))"

definition Messages_UnreadCount :: "UserInfo option \<Rightarrow> handler" where
  "Messages_UnreadCount ctx =
     with_user ctx (\<lambda>user.
       respond
         (bindE (MessageService_UnreadCount (ui_ID user)) (\<lambda>pm.
          bindE (NotificationService_UnreadCount (ui_ID user)) (\<lambda>notif. returnE (pm, notif))))
         writeCoreError (\<lambda>(pm, notif). writeJSON 200 (CountsBody pm notif)))"

definition Messages_Notifications :: "UserInfo option \<Rightarrow> request \<Rightarrow> handler" where
  "Messages_Notifications ctx r =
     with_user ctx (\<lambda>user.
       case pagination r of (limit, offset) \<Rightarrow>
         respond (NotificationService_List (ui_ID user) limit offset) writeCoreError
           (\<lambda>(items, n). writeJSON 200 (NotificationPage items n limit offset)))"

definition Messages_MarkNotificationRead :: "ext \<Rightarrow> UserInfo option \<Rightarrow> request \<Rightarrow> handler" where
  "Messages_MarkNotificationRead X ctx r =
     with_user ctx (\<lambda>user.
       case pathID X r ''notificationID'' of
         None \<Rightarrow> returnE (bad_id ''Invalid notification id'')
       | Some i \<Rightarrow> respond (NotificationService_MarkRead i (ui_ID user)) writeCoreError (\<lambda>_. no_content))"

definition Messages_MarkAllNotificationsRead :: "UserInfo option \<Rightarrow> handler" where
  "Messages_MarkAllNotificationsRead ctx =
     with_user ctx (\<lambda>user.
       respond (NotificationService_MarkAllRead (ui_ID user)) writeServerError (\<lambda>_. no_content))"

definition Messages_Online :: "hub option \<Rightarrow> handler" where
  "Messages_Online h =
     (case h of None \<Rightarrow> returnE (writeJSON 200 (OnlineBody {})) | Some hb \<Rightarrow> returnE (writeJSON 200 (OnlineBody (OnlineUsers hb))))"

definition Messages_Presence :: "ext \<Rightarrow> hub option \<Rightarrow> request \<Rightarrow> handler" where
  "Messages_Presence X h r =
     (case pathID X r ''userID'' of
        None \<Rightarrow> returnE (bad_id ''Invalid user id'')
      | Some i \<Rightarrow>
          (case h of
             None \<Rightarrow> returnE (writeJSON 200 (PresenceBody i False))
           | Some hb \<Rightarrow> returnE (writeJSON 200 (PresenceBody i (IsOnline i hb)))))"

text \<open>\<^verbatim>\<open>WS\<close>: \<open>upgrade\<close> is the answer of the WebSocket library: the status of its refusal, which it
  answers with a line of plain text, or none when the connection is upgraded. The connection then
  belongs to the user of the token; the rest of the handler, from \<^verbatim>\<open>NewClient\<close> on, is the
  goroutine of that connection and follows in the steps \<open>conn_step\<close> and \<open>write_step\<close> of \<open>Hub\<close>.\<close>

definition WS :: "ext \<Rightarrow> Manager \<Rightarrow> (request \<Rightarrow> nat option) \<Rightarrow> request \<Rightarrow> handler" where
  "WS X jwtm upgrade r =
     (let raw = rq_Query r ''access_token''; invalid = writeError 401 ''invalid_token'' ''Invalid access token'' in
      if raw = [] then returnE (writeError 401 ''missing_token'' ''access_token query parameter is required'')
      else
        bindE (Manager_Parse X jwtm raw) (\<lambda>res.
        case res of
          None \<Rightarrow> returnE invalid
        | Some claims \<Rightarrow>
            (case uuid_Parse X (claims_Subject claims) of
               None \<Rightarrow> returnE invalid
             | Some userID \<Rightarrow>
                 (case upgrade r of
                    Some status \<Rightarrow> returnE (writeJSON status PlainText)
                  | None \<Rightarrow> returnE ((writeJSON 101 NoBody)\<lparr>resp_Upgrade := Some userID\<rparr>)))))"

section \<open>Health and version\<close>

definition db_Ping :: "unit dbop" where
  "db_Ping = query [] (\<lambda>a d. ())"

definition Health_Health :: handler where
  "Health_Health = returnE (writeJSON 200 (StatusBody ''ok''))"

definition Health_Ready :: handler where
  "Health_Ready =
     respond db_Ping (\<lambda>_. writeError 503 ''db_unavailable'' ''database is not reachable'')
       (\<lambda>_. writeJSON 200 (StatusBody ''ready''))"

text \<open>\<open>schema_version\<close> is the number goose keeps in its own table.\<close>

definition db_SchemaVersion :: "int \<Rightarrow> int dbop" where
  "db_SchemaVersion schema_version = query [] (\<lambda>a d. schema_version)"

definition Version_Get :: "string \<Rightarrow> int \<Rightarrow> handler" where
  "Version_Get backend schema_version =
     respond (db_SchemaVersion schema_version)
       (\<lambda>_. writeError 500 ''schema_version_failed'' ''failed to read schema version'')
       (\<lambda>v. writeJSON 200 (VersionBody backend v))"

lemmas handler_defs =
  Auth_Register_def Auth_Login_def Auth_Refresh_def Auth_Logout_def Auth_Me_def Groups_List_def Groups_Create_def
  Groups_Get_def Groups_Update_def Groups_Delete_def Threads_ListByGroup_def Threads_Create_def Threads_Get_def
  Threads_Update_def Threads_Delete_def Posts_ListByThread_def Posts_Create_def Posts_Update_def Posts_Delete_def
  Admin_ListUsers_def Admin_UpdateUser_def Admin_GetSettings_def Admin_UpdateSettings_def Admin_ListMedia_def
  Install_GetStatus_def Install_Create_def Media_UploadAvatar_def Media_UploadAttachment_def
  Media_DeleteAttachment_def Media_Serve_def Messages_Send_def Messages_Send_via_def Messages_Conversation_def Messages_Inbox_def
  Messages_MarkRead_def Messages_UnreadCount_def Messages_Notifications_def Messages_MarkNotificationRead_def
  Messages_MarkAllNotificationsRead_def Messages_Online_def Messages_Presence_def WS_def Health_Health_def
  Health_Ready_def Version_Get_def

lemma keeps_db_notify [keeps_intros]: "keeps (on_db I) (notify_hub u t d)"
  by (simp add: keeps_def on_db_def notify_hub_def)

lemma keeps_db_stat [keeps_intros]: "keeps (on_db I) (object_Stat k)" "keeps (on_db I) (object_Copy k)"
  by (simp_all add: keeps_def on_db_def object_Stat_def object_Copy_def)

text \<open>Every handler keeps the constraints of the schema, whatever it is asked and whatever fails.\<close>

lemma handlers_keep_schema [keeps_intros]:
  "keeps (on_db (db_ok X)) (Auth_Register X svc r)" "keeps (on_db (db_ok X)) (Auth_Login X svc r)"
  "keeps (on_db (db_ok X)) (Auth_Refresh X svc r)" "keeps (on_db (db_ok X)) (Auth_Logout X svc r)"
  "keeps (on_db (db_ok X)) (Auth_Me X ctx)" "keeps (on_db (db_ok X)) (Groups_List X)"
  "keeps (on_db (db_ok X)) (Groups_Create X r)" "keeps (on_db (db_ok X)) (Groups_Get X r)"
  "keeps (on_db (db_ok X)) (Groups_Update X r)" "keeps (on_db (db_ok X)) (Groups_Delete X r)"
  "keeps (on_db (db_ok X)) (Threads_ListByGroup X r)" "keeps (on_db (db_ok X)) (Threads_Create X ctx r)"
  "keeps (on_db (db_ok X)) (Threads_Get X r)" "keeps (on_db (db_ok X)) (Threads_Update X ctx r)"
  "keeps (on_db (db_ok X)) (Threads_Delete X ctx r)" "keeps (on_db (db_ok X)) (Posts_ListByThread X r)"
  "keeps (on_db (db_ok X)) (Posts_Create X ctx r)" "keeps (on_db (db_ok X)) (Posts_Update X ctx r)"
  "keeps (on_db (db_ok X)) (Posts_Delete X ctx r)" "keeps (on_db (db_ok X)) (Admin_ListUsers X r)"
  "keeps (on_db (db_ok X)) (Admin_UpdateUser X r)" "keeps (on_db (db_ok X)) Admin_GetSettings"
  "keeps (on_db (db_ok X)) (Admin_UpdateSettings r)" "keeps (on_db (db_ok X)) (Admin_ListMedia r)"
  "keeps (on_db (db_ok X)) Install_GetStatus" "keeps (on_db (db_ok X)) (Install_Create X hasher r)"
  "keeps (on_db (db_ok X)) (Media_UploadAvatar X cfg ctx r)" "keeps (on_db (db_ok X)) (Media_UploadAttachment X cfg ctx r)"
  "keeps (on_db (db_ok X)) (Media_DeleteAttachment X ctx r)" "keeps (on_db (db_ok X)) (Media_Serve cfg r)"
  "keeps (on_db (db_ok X)) (Messages_Send X h ctx r)" "keeps (on_db (db_ok X)) (Messages_Conversation X ctx r)"
  "keeps (on_db (db_ok X)) (Messages_Inbox ctx r)" "keeps (on_db (db_ok X)) (Messages_MarkRead X ctx r)"
  "keeps (on_db (db_ok X)) (Messages_UnreadCount ctx)" "keeps (on_db (db_ok X)) (Messages_Notifications ctx r)"
  "keeps (on_db (db_ok X)) (Messages_MarkNotificationRead X ctx r)"
  "keeps (on_db (db_ok X)) (Messages_MarkAllNotificationsRead ctx)" "keeps (on_db (db_ok X)) (Messages_Online h)"
  "keeps (on_db (db_ok X)) (Messages_Presence X h r)" "keeps (on_db (db_ok X)) (WS X jwtm upgrade r)"
  "keeps (on_db (db_ok X)) Health_Health" "keeps (on_db (db_ok X)) Health_Ready"
  "keeps (on_db (db_ok X)) (Version_Get v n)"
  unfolding handler_defs Let_def S3_Open_def db_Ping_def db_SchemaVersion_def by (intro keeps_intros)+

end
