(* ===== verification/Router.thy ===== *)
theory Router
  imports Handlers
begin

text \<open>
  \<^verbatim>\<open>internal/http/router.go\<close>: the tree of routes with the middleware of each group, and the
  server that answers a request by the handler of the route chi selects. Which registered
  pattern a path selects, with which parameters, is chi's decision and a parameter of the
  model, as are the address \<^verbatim>\<open>RealIP\<close> finds, whether the WebSocket library accepts an upgrade,
  and the schema version goose reports.
\<close>

section \<open>Routes\<close>

datatype endpoint =
    EHealth | EReady | EVersion
  | EInstallStatus | EInstallCreate
  | ERegister | ELogin | ERefresh | ELogout | EMe
  | EGroupsList | EGroupsCreate | EGroupsGet | EGroupsUpdate | EGroupsDelete
  | EThreadsByGroup | EThreadsCreate | EThreadsGet | EThreadsUpdate | EThreadsDelete
  | EPostsByThread | EPostsCreate | EPostsUpdate | EPostsDelete
  | EUploadAvatar | EUploadAttachment | EDeleteAttachment
  | EListUsers | EUpdateUser | EGetSettings | EUpdateSettings | EListMedia
  | EInbox | EConversation | ESend | EUnreadCount | EMarkRead
  | ENotifications | EMarkNotificationRead | EMarkAllNotificationsRead
  | EOnline | EPresence
  | EServe | EWS

datatype middleware = UseRequireAuth | UseRequireRole "string list"

datatype route =
    Handle string string endpoint
  | Mount string "route list"
  | Scope "middleware list" "route list"

definition NewRouter :: "route list" where
  "NewRouter =
   [Handle ''GET'' ''/healthz'' EHealth,
    Handle ''GET'' ''/readyz'' EReady,
    Mount ''/api/v1''
     [Handle ''GET'' ''/health'' EHealth,
      Handle ''GET'' ''/version'' EVersion,
      Handle ''GET'' ''/install'' EInstallStatus,
      Handle ''POST'' ''/install'' EInstallCreate,
      Mount ''/auth''
       [Handle ''POST'' ''/register'' ERegister,
        Handle ''POST'' ''/login'' ELogin,
        Handle ''POST'' ''/refresh'' ERefresh,
        Handle ''POST'' ''/logout'' ELogout,
        Scope [UseRequireAuth] [Handle ''GET'' ''/me'' EMe]],
      Mount ''/groups''
       [Handle ''GET'' ''/'' EGroupsList,
        Scope [UseRequireAuth, UseRequireRole [RoleAdmin]]
         [Handle ''POST'' ''/'' EGroupsCreate,
          Handle ''PATCH'' ''/{groupID}'' EGroupsUpdate,
          Handle ''DELETE'' ''/{groupID}'' EGroupsDelete],
        Handle ''GET'' ''/{groupID}'' EGroupsGet,
        Mount ''/{groupID}/threads''
         [Handle ''GET'' ''/'' EThreadsByGroup,
          Scope [UseRequireAuth] [Handle ''POST'' ''/'' EThreadsCreate]]],
      Mount ''/threads''
       [Handle ''GET'' ''/{threadID}'' EThreadsGet,
        Scope [UseRequireAuth]
         [Handle ''PATCH'' ''/{threadID}'' EThreadsUpdate,
          Handle ''DELETE'' ''/{threadID}'' EThreadsDelete],
        Mount ''/{threadID}/posts''
         [Handle ''GET'' ''/'' EPostsByThread,
          Scope [UseRequireAuth] [Handle ''POST'' ''/'' EPostsCreate]]],
      Mount ''/posts''
       [Scope [UseRequireAuth]
         [Handle ''PATCH'' ''/{postID}'' EPostsUpdate,
          Handle ''DELETE'' ''/{postID}'' EPostsDelete]],
      Mount ''/media''
       [Scope [UseRequireAuth]
         [Handle ''POST'' ''/avatar'' EUploadAvatar,
          Handle ''POST'' ''/attachments'' EUploadAttachment,
          Handle ''DELETE'' ''/attachments/{attachmentID}'' EDeleteAttachment]],
      Mount ''/admin''
       [Scope [UseRequireAuth, UseRequireRole [RoleAdmin]]
         [Handle ''GET'' ''/users'' EListUsers,
          Handle ''PATCH'' ''/users/{userID}'' EUpdateUser,
          Handle ''GET'' ''/settings'' EGetSettings,
          Handle ''PUT'' ''/settings'' EUpdateSettings,
          Handle ''GET'' ''/media'' EListMedia]],
      Mount ''/pms''
       [Scope [UseRequireAuth]
         [Handle ''GET'' ''/'' EInbox,
          Handle ''GET'' ''/with'' EConversation,
          Handle ''POST'' ''/'' ESend,
          Handle ''GET'' ''/unread-count'' EUnreadCount,
          Handle ''PATCH'' ''/{messageID}/read'' EMarkRead]],
      Mount ''/notifications''
       [Scope [UseRequireAuth]
         [Handle ''GET'' ''/'' ENotifications,
          Handle ''PATCH'' ''/{notificationID}/read'' EMarkNotificationRead,
          Handle ''PATCH'' ''/read-all'' EMarkAllNotificationsRead]],
      Mount ''/presence''
       [Handle ''GET'' ''/'' EOnline,
        Handle ''GET'' ''/{userID}'' EPresence]],
    Handle ''GET'' ''/media/{bucket}/*'' EServe,
    Handle ''GET'' ''/ws'' EWS]"

text \<open>The routes of a tree: method and full pattern, with the middleware on the way.\<close>

fun routes_of :: "string \<Rightarrow> middleware list \<Rightarrow> route \<Rightarrow> ((string \<times> string) \<times> middleware list \<times> endpoint) list" where
  "routes_of pre ms (Handle meth pat e) = [((meth, pre @ pat), ms, e)]"
| "routes_of pre ms (Mount pat rs) = concat (map (routes_of (pre @ pat) ms) rs)"
| "routes_of pre ms (Scope us rs) = concat (map (routes_of pre (ms @ us)) rs)"

definition routes :: "((string \<times> string) \<times> middleware list \<times> endpoint) list" where
  "routes = concat (map (routes_of [] []) NewRouter)"

section \<open>The server\<close>

record Dependencies =
  deps_Version :: string
  deps_Config :: Config

text \<open>What is not part of the program: chi's choice of a route (or its 404 or 405 answer), the
  client address, the WebSocket library's refusal of an upgrade and the schema version.\<close>

record net =
  net_chi :: "(string \<times> string) list \<Rightarrow> string \<Rightarrow> string \<Rightarrow> nat + (string \<times> string) \<times> (string \<Rightarrow> string)"
  net_RealIP :: "request \<Rightarrow> string"
  net_Upgrade :: "request \<Rightarrow> nat option"
  net_SchemaVersion :: int

fun dispatch :: "ext \<Rightarrow> net \<Rightarrow> Dependencies \<Rightarrow> hub \<Rightarrow> request \<Rightarrow> endpoint \<Rightarrow> UserInfo option \<Rightarrow> handler" where
  "dispatch X N D h r EHealth ctx = Health_Health"
| "dispatch X N D h r EReady ctx = Health_Ready"
| "dispatch X N D h r EVersion ctx = Version_Get (deps_Version D) (net_SchemaVersion N)"
| "dispatch X N D h r EInstallStatus ctx = Install_GetStatus"
| "dispatch X N D h r EInstallCreate ctx = Install_Create X (as_hasher (NewAuthService (deps_Config D))) r"
| "dispatch X N D h r ERegister ctx = Auth_Register X (NewAuthService (deps_Config D)) r"
| "dispatch X N D h r ELogin ctx = Auth_Login X (NewAuthService (deps_Config D)) r"
| "dispatch X N D h r ERefresh ctx = Auth_Refresh X (NewAuthService (deps_Config D)) r"
| "dispatch X N D h r ELogout ctx = Auth_Logout X (NewAuthService (deps_Config D)) r"
| "dispatch X N D h r EMe ctx = Auth_Me X ctx"
| "dispatch X N D h r EGroupsList ctx = Groups_List X"
| "dispatch X N D h r EGroupsCreate ctx = Groups_Create X r"
| "dispatch X N D h r EGroupsGet ctx = Groups_Get X r"
| "dispatch X N D h r EGroupsUpdate ctx = Groups_Update X r"
| "dispatch X N D h r EGroupsDelete ctx = Groups_Delete X r"
| "dispatch X N D h r EThreadsByGroup ctx = Threads_ListByGroup X r"
| "dispatch X N D h r EThreadsCreate ctx = Threads_Create X ctx r"
| "dispatch X N D h r EThreadsGet ctx = Threads_Get X r"
| "dispatch X N D h r EThreadsUpdate ctx = Threads_Update X ctx r"
| "dispatch X N D h r EThreadsDelete ctx = Threads_Delete X ctx r"
| "dispatch X N D h r EPostsByThread ctx = Posts_ListByThread X r"
| "dispatch X N D h r EPostsCreate ctx = Posts_Create X ctx r"
| "dispatch X N D h r EPostsUpdate ctx = Posts_Update X ctx r"
| "dispatch X N D h r EPostsDelete ctx = Posts_Delete X ctx r"
| "dispatch X N D h r EUploadAvatar ctx = Media_UploadAvatar X (deps_Config D) ctx r"
| "dispatch X N D h r EUploadAttachment ctx = Media_UploadAttachment X (deps_Config D) ctx r"
| "dispatch X N D h r EDeleteAttachment ctx = Media_DeleteAttachment X ctx r"
| "dispatch X N D h r EListUsers ctx = Admin_ListUsers X r"
| "dispatch X N D h r EUpdateUser ctx = Admin_UpdateUser X r"
| "dispatch X N D h r EGetSettings ctx = Admin_GetSettings"
| "dispatch X N D h r EUpdateSettings ctx = Admin_UpdateSettings r"
| "dispatch X N D h r EListMedia ctx = Admin_ListMedia r"
| "dispatch X N D h r EInbox ctx = Messages_Inbox ctx r"
| "dispatch X N D h r EConversation ctx = Messages_Conversation X ctx r"
| "dispatch X N D h r ESend ctx = Messages_Send X (Some h) ctx r"
| "dispatch X N D h r EUnreadCount ctx = Messages_UnreadCount ctx"
| "dispatch X N D h r EMarkRead ctx = Messages_MarkRead X ctx r"
| "dispatch X N D h r ENotifications ctx = Messages_Notifications ctx r"
| "dispatch X N D h r EMarkNotificationRead ctx = Messages_MarkNotificationRead X ctx r"
| "dispatch X N D h r EMarkAllNotificationsRead ctx = Messages_MarkAllNotificationsRead ctx"
| "dispatch X N D h r EOnline ctx = Messages_Online (Some h)"
| "dispatch X N D h r EPresence ctx = Messages_Presence X (Some h) r"
| "dispatch X N D h r EServe ctx = Media_Serve (deps_Config D) r"
| "dispatch X N D h r EWS ctx = WS X (as_jwt (NewAuthService (deps_Config D))) (net_Upgrade N) r"

fun chain :: "ext \<Rightarrow> Manager \<Rightarrow> request \<Rightarrow> middleware list \<Rightarrow> (UserInfo option \<Rightarrow> handler) \<Rightarrow> UserInfo option \<Rightarrow> handler" where
  "chain X jwtm r [] f ctx = f ctx"
| "chain X jwtm r (UseRequireAuth # ms) f ctx = RequireAuth X jwtm (chain X jwtm r ms f) r"
| "chain X jwtm r (UseRequireRole wanted # ms) f ctx = RequireRole wanted (chain X jwtm r ms f) ctx"

text \<open>
  \<^verbatim>\<open>Timeout\<close> gives the request a context with a deadline. It does not interrupt the handler; when the
  handler is done or panics and the deadline has passed, it writes 504, which only has an effect
  when nothing has been written. \<^verbatim>\<open>Recoverer\<close> answers what is left of a panic with 500, except on a
  request with the header \<^verbatim>\<open>Connection: Upgrade\<close>, where it writes nothing. \<^verbatim>\<open>net/http\<close> sends 200 for
  a handler that has returned without writing.
\<close>

definition late :: "world \<Rightarrow> bool" where
  "late w \<longleftrightarrow> ans_late (w_env w (w_tick w))"

definition Timeout :: "handler \<Rightarrow> handler" where
  "Timeout f w =
     (case f w of
        (Inr resp, w1) \<Rightarrow>
          if resp_Status resp = 0 \<and> late w1 then (Inr (writeJSON 504 NoBody), w1) else (Inr resp, w1)
      | (Inl e, w1) \<Rightarrow>
          if late w1 then (Inr (writeJSON 504 NoBody), w1) else (Inl e, w1))"

definition recoverer :: "request \<Rightarrow> handler \<Rightarrow> handler" where
  "recoverer r f = handleE f (\<lambda>e. returnE (if rq_Connection r = ''Upgrade'' then unwritten else recovered))"

definition completed :: "response \<Rightarrow> response" where
  "completed resp = (if resp_Status resp = 0 then resp\<lparr>resp_Status := 200\<rparr> else resp)"

definition answered :: "request \<Rightarrow> handler \<Rightarrow> handler" where
  "answered r f = bindE (recoverer r (Timeout f)) (\<lambda>resp. returnE (completed resp))"

text \<open>The request a handler sees.\<close>

definition routed :: "net \<Rightarrow> (string \<Rightarrow> string) \<Rightarrow> request \<Rightarrow> request" where
  "routed N param r = r\<lparr>rq_Param := param, rq_RemoteAddr := net_RealIP N r\<rparr>"

definition serve :: "ext \<Rightarrow> net \<Rightarrow> Dependencies \<Rightarrow> hub \<Rightarrow> string \<Rightarrow> string \<Rightarrow> request \<Rightarrow> handler" where
  "serve X N D h meth path r =
     (case net_chi N (map fst routes) meth path of
        Inl status \<Rightarrow> returnE (writeJSON status NoBody)
      | Inr (key, param) \<Rightarrow>
          (case map_of routes key of
             None \<Rightarrow> returnE (writeJSON 404 NoBody)
           | Some (ms, e) \<Rightarrow>
               answered r (chain X (as_jwt (NewAuthService (deps_Config D))) (routed N param r) ms
                 (dispatch X N D h (routed N param r) e) None)))"

section \<open>Access control\<close>

text \<open>The user a request is made by: the bearer token, valid at the time, and its claims.\<close>

definition caller :: "ext \<Rightarrow> Manager \<Rightarrow> time \<Rightarrow> request \<Rightarrow> UserInfo option" where
  "caller X jwtm now r =
     (let raw = bearerToken (rq_Authorization r) in
      if raw = [] then None
      else Option.bind (jwt_ParseWithClaims X (key_func jwtm) (mgr_issuer jwtm) [''HS256''] now raw) (\<lambda>(claims, valid).
        if \<not> valid then None
        else map_option (\<lambda>u. \<lparr>ui_ID = u, ui_Username = claims_Username claims, ui_Roles = claims_Roles claims\<rparr>)
               (uuid_Parse X (claims_Subject claims))))"

lemma caller_token:
  assumes "jwt_lawful X" "uuid_lawful X" "NewAccessToken X m uid name rs w = (Inr tok, w1)"
    and "valid_utf8 name" "list_all valid_utf8 rs" "valid_utf8 (mgr_issuer m)" "uid < 2 ^ 128" "t0 = ans_now (w_env w (w_tick w))"
    and "rq_Authorization r = ''Bearer '' @ tok" "tok \<noteq> []" "TrimSpace tok = tok"
    and "NewNumericDate t0 * 1000000000 \<le> t" "t < NewNumericDate (t0 + mgr_ttl m) * 1000000000"
  shows "caller X m t r = Some \<lparr>ui_ID = uid, ui_Username = name, ui_Roles = rs\<rparr>"
  using assms bearer_prefix [of tok] issued_token_parses [OF assms(1-8), of t] claims_subject [OF assms(2,7)]
  by (simp add: caller_def Let_def) (simp add: new_claims_def)

definition public_endpoints :: "endpoint set" where
  "public_endpoints =
     {EHealth, EReady, EVersion, EInstallStatus, EInstallCreate, ERegister, ELogin, ERefresh, ELogout,
      EGroupsList, EGroupsGet, EThreadsByGroup, EThreadsGet, EPostsByThread, EOnline, EPresence, EServe, EWS}"

definition admin_endpoints :: "endpoint set" where
  "admin_endpoints =
     {EGroupsCreate, EGroupsUpdate, EGroupsDelete, EListUsers, EUpdateUser, EGetSettings, EUpdateSettings, EListMedia}"

text \<open>The middleware each kind of endpoint is behind.\<close>

definition guards :: "endpoint \<Rightarrow> middleware list" where
  "guards e =
     (if e \<in> public_endpoints then []
      else if e \<in> admin_endpoints then [UseRequireAuth, UseRequireRole [RoleAdmin]] else [UseRequireAuth])"

lemmas endpoint_kinds = public_endpoints_def admin_endpoints_def

lemma routes_guarded: "list_all (\<lambda>(key, ms, e). ms = guards e) routes"
  by (simp add: routes_def NewRouter_def guards_def endpoint_kinds)

lemma route_guards: "map_of routes key = Some (ms, e) \<Longrightarrow> ms = guards e"
  using routes_guarded map_of_SomeD [of routes key "(ms, e)"] by (auto simp: list_all_iff)

lemma RequireAuth_caller:
  "\<exists>w1 \<in> {w, tick w}. \<exists>refusal. resp_Status refusal = 401 \<and>
     RequireAuth X m nxt r w =
       (case caller X m (ans_now (w_env w (w_tick w))) r of
          None \<Rightarrow> (Inr refusal, w1) | Some u \<Rightarrow> nxt (Some u) (tick w))"
proof (cases "bearerToken (rq_Authorization r) = []")
  case True
  then show ?thesis
    by (intro bexI [of _ w] exI [of _ unauthorized])
       (simp_all add: RequireAuth_def caller_def returnE_def unauthorized_def)
next
  case False
  then show ?thesis
    by (intro bexI [of _ "tick w"] exI [of _ invalid_token])
       (auto simp: RequireAuth_def caller_def returnE_def invalid_token_def Manager_Parse_def bindE_def time_Now_def
          WithUser_def Let_def split: option.splits)
qed

definition refused :: "nat \<Rightarrow> handler \<Rightarrow> world \<Rightarrow> bool" where
  "refused status f w \<longleftrightarrow> (\<exists>resp w1. f w = (Inr resp, w1) \<and> resp_Status resp = status \<and> w1 \<in> {w, tick w})"

abbreviation jwt_of :: "Dependencies \<Rightarrow> Manager" where
  "jwt_of D \<equiv> as_jwt (NewAuthService (deps_Config D))"

lemmas answered_defs = answered_def completed_def recoverer_def Timeout_def

lemma answered_written: "f w = (Inr x, w1) \<Longrightarrow> resp_Status x \<noteq> 0 \<Longrightarrow> answered r f w = (Inr x, w1)"
  by (simp add: answered_defs op_defs)

lemma answered_world [simp]: "snd (answered r f w) = snd (f w)"
  by (simp add: answered_defs op_defs split: prod.splits sum.splits)

lemma answered_cong: "f w = g w1 \<Longrightarrow> answered r f w = answered r g w1"
  by (simp add: answered_defs op_defs)

text \<open>The answers of the server: what the handler has written; or, when it has written nothing, 504
  after the deadline and 200 before it; or, when it has panicked, the answer of \<^verbatim>\<open>Recoverer\<close>.\<close>

lemma answered_cases:
  assumes "answered r f w = (z, w1)"
  obtains (written) x where "f w = (Inr x, w1)" "resp_Status x \<noteq> 0" "z = Inr x"
  | (timeout) y where "f w = (y, w1)" "late w1" "z = Inr (writeJSON 504 NoBody)" "\<And>x. y = Inr x \<Longrightarrow> resp_Status x = 0"
  | (silent) x where "f w = (Inr x, w1)" "resp_Status x = 0" "\<not> late w1" "z = Inr (x\<lparr>resp_Status := 200\<rparr>)"
  | (panicked) e where "f w = (Inl e, w1)" "\<not> late w1"
      "z = Inr (if rq_Connection r = ''Upgrade'' then writeJSON 200 NoBody else recovered)"
proof (cases "f w")
  case (Pair y w2)
  then have "w2 = w1" using assms answered_world [of r f w] by simp
  show thesis
  proof (cases y)
    case (Inl e)
    with Pair \<open>w2 = w1\<close> have y: "f w = (Inl e, w1)" by simp
    show thesis
    proof (cases "late w1")
      case True
      then have "z = Inr (writeJSON 504 NoBody)" using assms y by (simp add: answered_defs op_defs)
      with timeout [OF y True] show thesis by simp
    next
      case False
      have "z = Inr (if rq_Connection r = ''Upgrade'' then writeJSON 200 NoBody else recovered)"
        using assms y False by (auto simp: answered_defs op_defs writeJSON_def unwritten_def recovered_def)
      with panicked [OF y False] show thesis by simp
    qed
  next
    case (Inr x)
    with Pair \<open>w2 = w1\<close> have y: "f w = (Inr x, w1)" by simp
    show thesis
    proof (cases "resp_Status x = 0")
      case st: True
      show thesis
      proof (cases "late w1")
        case True
        then have "z = Inr (writeJSON 504 NoBody)" using assms y st by (simp add: answered_defs op_defs)
        with timeout [OF y True] st show thesis by simp
      next
        case False
        then have "z = Inr (x\<lparr>resp_Status := 200\<rparr>)" using assms y st by (simp add: answered_defs op_defs)
        with silent [OF y st False] show thesis by simp
      qed
    next
      case False
      then have "z = Inr x" using assms y by (simp add: answered_written)
      with written [OF y False] show thesis by simp
    qed
  qed
qed

lemma serve_route:
  assumes "net_chi N (map fst routes) meth path = Inr (key, param)" "map_of routes key = Some (ms, e)"
  shows "serve X N D h meth path r =
    answered r (chain X (jwt_of D) (routed N param r) (guards e) (dispatch X N D h (routed N param r) e) None)"
  using assms route_guards [OF assms(2)] by (simp add: serve_def)

lemma chain_partial:
  "chain X m r [] f = f" "chain X m r (UseRequireRole ws # ms) f = RequireRole ws (chain X m r ms f)"
  by (rule ext, simp)+

lemma caller_routed [simp]: "caller X m now (routed N param r) = caller X m now r"
  by (simp add: caller_def routed_def)

text \<open>The shared part of all statements on protected routes: refused with 401 and, for the
  administration, 403, and otherwise handled for the caller.\<close>

lemma serve_protected:
  assumes route: "net_chi N (map fst routes) meth path = Inr (key, param)" "map_of routes key = Some (ms, e)"
    and e: "e \<notin> public_endpoints" and now: "now = ans_now (w_env w (w_tick w))"
  shows "case caller X (jwt_of D) now r of
      None \<Rightarrow> refused 401 (serve X N D h meth path r) w
    | Some u \<Rightarrow>
        if e \<in> admin_endpoints \<and> RoleAdmin \<notin> set (ui_Roles u) then refused 403 (serve X N D h meth path r) w
        else serve X N D h meth path r w = answered r (dispatch X N D h (routed N param r) e (Some u)) (tick w)"
proof -
  let ?d = "dispatch X N D h (routed N param r) e"
  let ?nxt = "if e \<in> admin_endpoints then RequireRole [RoleAdmin] ?d else ?d"
  have g: "serve X N D h meth path r = answered r (RequireAuth X (jwt_of D) ?nxt (routed N param r))"
    unfolding serve_route [OF route] using e by (simp add: guards_def chain_partial)
  obtain w1 refusal where w1: "w1 \<in> {w, tick w}" "resp_Status refusal = 401"
    and ra: "RequireAuth X (jwt_of D) ?nxt (routed N param r) w =
      (case caller X (jwt_of D) now r of None \<Rightarrow> (Inr refusal, w1) | Some u \<Rightarrow> ?nxt (Some u) (tick w))"
    using RequireAuth_caller [of w X "jwt_of D" ?nxt "routed N param r"] now by auto
  show ?thesis
  proof (cases "caller X (jwt_of D) now r")
    case None
    then show ?thesis using ra w1 g by (auto simp: refused_def answered_written)
  next
    case (Some u)
    then have ra': "RequireAuth X (jwt_of D) ?nxt (routed N param r) w = ?nxt (Some u) (tick w)" using ra by simp
    show ?thesis
    proof (cases "e \<in> admin_endpoints \<and> RoleAdmin \<notin> set (ui_Roles u)")
      case True
      then show ?thesis using ra' g Some
        by (simp add: refused_def RequireRole_def authUser_def FromContext_def hasRole_iff returnE_def answered_written)
    next
      case False
      then have "?nxt (Some u) (tick w) = ?d (Some u) (tick w)"
        by (auto simp: RequireRole_def authUser_def FromContext_def hasRole_iff)
      with ra' g Some False show ?thesis by (auto intro: answered_cong)
    qed
  qed
qed

text \<open>C2: Access control of the whole server: a request to a route that is not public is
  refused with 401 and changes nothing unless its bearer token is valid now; a request to an
  administration route (groups, users, settings, media list) is refused with 403 and changes
  nothing unless the token carries the administrator role; every other request is answered by
  its handler, on protected routes with exactly the user of the token.\<close>

theorem access_control:
  assumes "net_chi N (map fst routes) meth path = Inr (key, param)" "map_of routes key = Some (ms, e)"
    and "now = ans_now (w_env w (w_tick w))"
  shows "if e \<in> public_endpoints
    then serve X N D h meth path r w = answered r (dispatch X N D h (routed N param r) e None) w
    else case caller X (jwt_of D) now r of
      None \<Rightarrow> refused 401 (serve X N D h meth path r) w
    | Some u \<Rightarrow>
        if e \<in> admin_endpoints \<and> RoleAdmin \<notin> set (ui_Roles u) then refused 403 (serve X N D h meth path r) w
        else serve X N D h meth path r w = answered r (dispatch X N D h (routed N param r) e (Some u)) (tick w)"
proof (cases "e \<in> public_endpoints")
  case True
  then show ?thesis using serve_route [OF assms(1,2)] by (auto simp: guards_def intro: answered_cong)
next
  case False
  then show ?thesis using serve_protected [OF assms(1,2) False assms(3)] by simp
qed

lemma refused_same: "refused st f w \<Longrightarrow> f w = (x, w1) \<Longrightarrow> w_db w1 = w_db w \<and> w_s3 w1 = w_s3 w"
  by (auto simp: refused_def)

lemma snd_respond [simp]: "snd (respond m bad good w) = snd (m w)"
  by (simp add: respond_def op_defs split: prod.splits sum.splits)

lemma changed_not_tick: "w_db w1 \<noteq> w_db w \<or> w_s3 w1 \<noteq> w_s3 w \<Longrightarrow> w1 \<noteq> tick (tick w)"
  by auto

text \<open>A handler that deletes by the id in the path, for the user of the context.\<close>

definition deletes_by :: "(uuid \<Rightarrow> uuid \<Rightarrow> string list \<Rightarrow> unit dbop) \<Rightarrow> ext \<Rightarrow> string \<Rightarrow> request \<Rightarrow> (UserInfo option \<Rightarrow> handler) \<Rightarrow> bool" where
  "deletes_by del X name r f \<longleftrightarrow> (\<forall>u w. case pathID X r name of
     None \<Rightarrow> snd (f (Some u) w) = w
   | Some i \<Rightarrow> snd (f (Some u) w) = snd (del i (ui_ID u) (ui_Roles u) w))"

lemma deletion_handlers:
  "deletes_by ThreadService_Delete X ''threadID'' r (dispatch X N D h r EThreadsDelete)"
  "deletes_by PostService_Delete X ''postID'' r (dispatch X N D h r EPostsDelete)"
  "deletes_by MediaService_DeleteAttachment X ''attachmentID'' r (dispatch X N D h r EDeleteAttachment)"
  by (auto simp: deletes_by_def handler_defs returnE_def split: option.split)

context owned_deletion
begin

lemma served_deletion_authorized:
  assumes route: "net_chi N (map fst routes) meth path = Inr (key, param)" "map_of routes key = Some (ms, e)"
    and e: "e \<notin> public_endpoints \<union> admin_endpoints"
    and f: "deletes_by del X name (routed N param r) (dispatch X N D h (routed N param r) e)"
    and run: "serve X N D h meth path r w = (x, w1)" and changed: "w_db w1 \<noteq> w_db w \<or> w_s3 w1 \<noteq> w_s3 w"
  shows "\<exists>u i row. caller X (jwt_of D) (ans_now (w_env w (w_tick w))) r = Some u \<and>
    pathID X (routed N param r) name = Some i \<and> lookup i (w_db w) = Some row \<and>
    (owner row = ui_ID u \<or> moderator (ui_Roles u))"
proof (cases "caller X (jwt_of D) (ans_now (w_env w (w_tick w))) r")
  case None
  then have "refused 401 (serve X N D h meth path r) w"
    using serve_protected [OF route _ refl, where w = w and X = X and D = D and h = h and r = r] e by simp
  from refused_same [OF this run] changed show ?thesis by simp
next
  case (Some u)
  then have eq: "serve X N D h meth path r w = answered r (dispatch X N D h (routed N param r) e (Some u)) (tick w)"
    using serve_protected [OF route _ refl, where w = w and X = X and D = D and h = h and r = r] e by simp
  then have w1: "w1 = snd (dispatch X N D h (routed N param r) e (Some u) (tick w))"
    using run by (metis answered_world snd_conv)
  show ?thesis
  proof (cases "pathID X (routed N param r) name")
    case None
    then have "w1 = tick w" using f w1 by (auto simp: deletes_by_def)
    with changed show ?thesis by simp
  next
    case (Some i)
    then have "snd (del i (ui_ID u) (ui_Roles u) (tick w)) = w1" using f w1 by (auto simp: deletes_by_def)
    with changed have "snd (del i (ui_ID u) (ui_Roles u) (tick w)) \<noteq> tick (tick w)" by auto
    from change_authorized [OF this] \<open>caller X (jwt_of D) (ans_now (w_env w (w_tick w))) r = Some u\<close> Some show ?thesis
      by auto
  qed
qed

end

text \<open>C5: Only owners and moderators delete: whenever a request to delete a thread, a post or an
  attachment changes any table or any stored object, its token belongs to the author or owner of
  the row, or carries the moderator or administrator role.\<close>

theorem deletions_authorized:
  assumes "net_chi N (map fst routes) meth path = Inr (key, param)" "map_of routes key = Some (ms, e)"
    and "serve X N D h meth path r w = (x, w1)" "w_db w1 \<noteq> w_db w \<or> w_s3 w1 \<noteq> w_s3 w"
    and "e \<in> {EThreadsDelete, EPostsDelete, EDeleteAttachment}"
  shows "\<exists>u. caller X (jwt_of D) (ans_now (w_env w (w_tick w))) r = Some u \<and>
    (hasRole (ui_Roles u) [RoleAdmin, RoleModerator] \<or>
     (e = EThreadsDelete \<and> (\<exists>t \<in> set (threads (w_db w)).
        pathID X (routed N param r) ''threadID'' = Some (thread_ID t) \<and> thread_AuthorID t = ui_ID u)) \<or>
     (e = EPostsDelete \<and> (\<exists>p \<in> set (posts (w_db w)).
        pathID X (routed N param r) ''postID'' = Some (post_ID p) \<and> post_AuthorID p = ui_ID u)) \<or>
     (e = EDeleteAttachment \<and> (\<exists>a \<in> set (attachments (w_db w)).
        pathID X (routed N param r) ''attachmentID'' = Some (att_ID a) \<and> att_OwnerID a = ui_ID u)))"
proof -
  have np: "e \<notin> public_endpoints \<union> admin_endpoints" using assms(5) by (auto simp: endpoint_kinds)
  from assms(5) consider "e = EThreadsDelete" | "e = EPostsDelete" | "e = EDeleteAttachment" by blast
  then show ?thesis
  proof cases
    case 1
    with deletion_handlers(1) have "deletes_by ThreadService_Delete X ''threadID'' (routed N param r) (dispatch X N D h (routed N param r) e)"
      by simp
    from threadDel.served_deletion_authorized [OF assms(1,2) np this assms(3,4)] 1 show ?thesis
      by (auto dest!: threadT.find_key_Some)
  next
    case 2
    with deletion_handlers(2) have "deletes_by PostService_Delete X ''postID'' (routed N param r) (dispatch X N D h (routed N param r) e)"
      by simp
    from postDel.served_deletion_authorized [OF assms(1,2) np this assms(3,4)] 2 show ?thesis
      by (auto dest!: postT.find_key_Some)
  next
    case 3
    with deletion_handlers(3) have "deletes_by MediaService_DeleteAttachment X ''attachmentID'' (routed N param r) (dispatch X N D h (routed N param r) e)"
      by simp
    from attDel.served_deletion_authorized [OF assms(1,2) np this assms(3,4)] 3 show ?thesis
      by (auto dest!: attT.find_key_Some)
  qed
qed

section \<open>Witnesses\<close>

text \<open>A router that selects a pattern by its text, with fixed parameters, and the default
  configuration.\<close>

definition sample_net :: "string \<Rightarrow> net" where
  "sample_net param =
     \<lparr>net_chi = (\<lambda>keys meth path. if (meth, path) \<in> set keys then Inr ((meth, path), (\<lambda>_. param)) else Inl 404),
      net_RealIP = rq_RemoteAddr, net_Upgrade = (\<lambda>_. None), net_SchemaVersion = 5\<rparr>"

definition sample_deps :: Dependencies where
  "sample_deps = \<lparr>deps_Version = ''dev'', deps_Config = Load (\<lambda>_. [])\<rparr>"

lemma sample_chi:
  "map_of routes (meth, path) = Some x \<Longrightarrow>
     net_chi (sample_net param) (map fst routes) meth path = Inr ((meth, path), (\<lambda>_. param))"
  by (force simp: sample_net_def image_iff dest: map_of_SomeD)

lemma sample_ttl: "sint (cfg_AccessTTL (Load (\<lambda>_. []))) = 900000000000"
  by (simp add: Load_def getInt_def Atoi_def Minute_def)

definition bearer :: "string \<Rightarrow> request" where
  "bearer tok = sample_request\<lparr>rq_Authorization := ''Bearer '' @ tok\<rparr>"

lemma sample_token:
  assumes "ascii name" "list_all ascii rs" "uid < 2 ^ 128"
  shows "\<exists>tok. caller sample_ext (jwt_of sample_deps) (ans_now (sample_answer 0)) (bearer tok) =
    Some \<lparr>ui_ID = uid, ui_Username = name, ui_Roles = rs\<rparr>"
proof -
  let ?m = "jwt_of sample_deps" and ?w = "sample_world sample_db"
  obtain tok n where i: "NewAccessToken sample_ext ?m uid name rs ?w = (Inr tok, tick ?w)" and n: "tok = dec_digits n"
    by (simp add: NewAccessToken_def Manager_issue_def bindE_def time_Now_def sample_ext_def returnE_def)
  have m: "valid_utf8 (mgr_issuer ?m)" "mgr_ttl ?m = 900000000000"
    using valid_utf8_ascii [of "''masoniccore''"] sample_ttl
    by (simp_all add: sample_deps_def NewAuthService_def NewManager_def Load_def getenv_def del: valid_utf8.simps)
  have "caller sample_ext ?m (ans_now (sample_answer 0)) (bearer tok) = Some \<lparr>ui_ID = uid, ui_Username = name, ui_Roles = rs\<rparr>"
    by (rule caller_token [OF sample_jwt_lawful sample_uuid_lawful i _ _ m(1) assms(3) refl])
       (use assms in \<open>auto simp: bearer_def n digits_no_space m(2) sample_answer_def NewNumericDate_def list_all_iff valid_utf8_ascii\<close>)
  then show ?thesis ..
qed

theorem access_control_witness:
  "refused 401 (serve sample_ext (sample_net ''2'') sample_deps NewHub ''PATCH'' ''/api/v1/admin/users/{userID}'' sample_request)
     (sample_world sample_db) \<and>
   (\<exists>tok. refused 403 (serve sample_ext (sample_net ''2'') sample_deps NewHub ''PATCH'' ''/api/v1/admin/users/{userID}'' (bearer tok))
     (sample_world sample_db))"
proof -
  have r: "map_of routes (''PATCH'', ''/api/v1/admin/users/{userID}'') = Some ([UseRequireAuth, UseRequireRole [RoleAdmin]], EUpdateUser)"
    by (simp add: routes_def NewRouter_def)
  note ac = access_control [OF sample_chi [OF r, of "''2''"] r refl,
    where w = "sample_world sample_db" and X = sample_ext and D = sample_deps and h = NewHub]
  have "caller sample_ext (jwt_of sample_deps) (ans_now (sample_answer 0)) sample_request = None"
    by (simp add: caller_def sample_request_def bearerToken_def)
  with ac [where r = sample_request] have "refused 401 (serve sample_ext (sample_net ''2'') sample_deps NewHub ''PATCH''
      ''/api/v1/admin/users/{userID}'' sample_request) (sample_world sample_db)"
    by (simp add: endpoint_kinds)
  moreover obtain tok where "caller sample_ext (jwt_of sample_deps) (ans_now (sample_answer 0)) (bearer tok) =
      Some \<lparr>ui_ID = 2, ui_Username = ''bob'', ui_Roles = [''member'']\<rparr>"
    using sample_token [of "''bob''" "[''member'']" 2] by auto
  with ac [where r = "bearer tok"] have "refused 403 (serve sample_ext (sample_net ''2'') sample_deps NewHub ''PATCH''
      ''/api/v1/admin/users/{userID}'' (bearer tok)) (sample_world sample_db)"
    by (simp add: endpoint_kinds RoleAdmin_def)
  ultimately show ?thesis by blast
qed

lemma digits_roundtrip: "uuid_Parse sample_ext (dec_digits n) = Some n"
  using dec_digits_all [of n] by (simp add: sample_ext_def)

theorem deletions_authorized_witness:
  "\<exists>tok x w1. serve sample_ext (sample_net (dec_digits 31)) sample_deps NewHub ''DELETE'' ''/api/v1/threads/{threadID}'' (bearer tok)
     (sample_world sample_db) = (x, w1) \<and> threads (w_db w1) = [] \<and>
   (\<exists>u. caller sample_ext (jwt_of sample_deps) (ans_now (sample_answer 0)) (bearer tok) = Some u \<and> ui_ID u = 1)"
proof -
  let ?N = "sample_net (dec_digits 31)" and ?w = "sample_world sample_db"
  have r: "map_of routes (''DELETE'', ''/api/v1/threads/{threadID}'') = Some ([UseRequireAuth], EThreadsDelete)"
    by (simp add: routes_def NewRouter_def)
  note chi = sample_chi [OF r, of "dec_digits 31"]
  obtain tok where c: "caller sample_ext (jwt_of sample_deps) (ans_now (sample_answer 0)) (bearer tok) =
      Some \<lparr>ui_ID = 1, ui_Username = ''alice'', ui_Roles = [''member'']\<rparr>"
    using sample_token [of "''alice''" "[''member'']" 1] by auto
  have p: "pathID sample_ext (routed ?N (\<lambda>_. dec_digits 31) (bearer tok)) ''threadID'' = Some 31"
    by (simp add: pathID_def routed_def digits_roundtrip)
  obtain x w1 where run: "serve sample_ext ?N sample_deps NewHub ''DELETE'' ''/api/v1/threads/{threadID}'' (bearer tok) ?w = (x, w1)"
    by fastforce
  have "snd (serve sample_ext ?N sample_deps NewHub ''DELETE'' ''/api/v1/threads/{threadID}'' (bearer tok) ?w) =
      snd (ThreadService_Delete 31 1 [''member''] (tick ?w))"
    using serve_protected [OF chi r _ refl, where w = ?w and X = sample_ext and D = sample_deps and h = NewHub and r = "bearer tok"] c p
    by (simp add: endpoint_kinds Threads_Delete_def)
  moreover have "threads (w_db (snd (ThreadService_Delete 31 1 [''member''] (tick ?w)))) = []"
    by (simp add: ThreadService_Delete_def ThreadStore_GetByID_def ThreadStore_Delete_def op_defs scan_query_calm need_rows_def
        sql_calm sql_threads_delete_def delete_threads_def delete_posts_def sample_db_def sample_rows find_key_def count_rows_def
        delete_rows_def Let_def)
  ultimately have t: "threads (w_db w1) = []" using run by simp
  then have "w_db w1 \<noteq> sample_db" by (auto simp: sample_db_def)
  then have "w_db w1 \<noteq> w_db ?w \<or> w_s3 w1 \<noteq> w_s3 ?w" by simp
  from deletions_authorized [OF chi r run this] have "\<exists>u. caller sample_ext (jwt_of sample_deps) (ans_now (sample_answer 0)) (bearer tok) =
      Some u \<and> (hasRole (ui_Roles u) [RoleAdmin, RoleModerator] \<or> ui_ID u = 1)"
    using p by (auto simp: sample_db_def sample_thread_def)
  then have "\<exists>u. caller sample_ext (jwt_of sample_deps) (ans_now (sample_answer 0)) (bearer tok) = Some u \<and> ui_ID u = 1"
    using c by (auto simp: hasRole_def RoleAdmin_def RoleModerator_def)
  with run t show ?thesis by blast
qed

end
