(* ===== verification/Server.thy ===== *)
theory Server
  imports Router
begin

text \<open>
  The whole server: requests answered by the router over the tables and the object store, and
  the hub with its connections, as one transition system. A request sees the hub of the moment;
  the events it hands to the hub wait until the hub's channel takes them; an accepted upgrade
  becomes a new connection of the token's user. The environment of each request (failures, time,
  random values, ids) is arbitrary. The theory shows the frame of requests (what reading requests
  leave alone), the invariant of the running server, the form of every response, and that a login
  leads to an authenticated session.
\<close>

section \<open>Frames of operations\<close>

definition on_notify :: "(notify list \<Rightarrow> bool) \<Rightarrow> world \<Rightarrow> bool" where
  "on_notify I w \<longleftrightarrow> I (w_notify w)"

lemma keeps_notify_sql [keeps_intros]: "keeps (on_notify I) (sql args f)"
  by (auto simp: keeps_def on_notify_def sql_def Let_def split: sum.splits prod.splits)

lemma keeps_notify_with_tx [keeps_intros]:
  assumes "keeps (on_notify I) body"
  shows "keeps (on_notify I) (with_tx body)"
proof (rule keepsI)
  fix w assume I: "on_notify I w"
  let ?w1 = "(tick w)\<lparr>w_tx := Some (ans_now (w_env w (w_tick w)))\<rparr>"
  from I have "on_notify I ?w1" by (simp add: on_notify_def)
  with assms have "on_notify I (snd (body ?w1))" by (rule keepsD)
  with I show "on_notify I (snd (with_tx body w))"
    by (auto simp: with_tx_def on_notify_def Let_def split: prod.splits sum.splits fault.splits)
qed

lemma keeps_notify_env [keeps_intros]:
  "keeps (on_notify I) time_Now" "keeps (on_notify I) (rand_Read n)" "keeps (on_notify I) uuid_New"
  "keeps (on_notify I) (s3_do c)" "keeps (on_notify I) (object_Stat k)" "keeps (on_notify I) (object_Copy k)"
  by (auto simp: keeps_def on_notify_def time_Now_def rand_Read_def uuid_New_def s3_do_def object_Stat_def object_Copy_def Let_def)

lemmas program_defs = handler_defs auth_service_defs auth_defs user_store_defs forum_service_defs forum_store_defs
  admin_defs message_service_defs message_store_defs media_defs db_Ping_def db_SchemaVersion_def query_def

text \<open>Only \<^verbatim>\<open>Send\<close> talks to the hub.\<close>

lemma dispatch_notify:
  assumes "e \<noteq> ESend"
  shows "keeps (on_notify I) (dispatch X N D h r e ctx)"
  using assms
  by (cases e; simp only: dispatch.simps) (unfold program_defs Let_def, (intro keeps_intros)+)

text \<open>The middleware preserves what its handler preserves.\<close>

lemma keeps_answered: "keeps I f \<Longrightarrow> keeps I (answered r f)"
  by (simp add: keeps_def)

lemma keeps_chain:
  assumes "keeps I time_Now" "\<And>ctx. keeps I (f ctx)"
  shows "keeps I (chain X m r ms f ctx)"
proof (induction ms arbitrary: ctx)
  case Nil
  show ?case by (simp add: assms(2))
next
  case (Cons u ms)
  have "keeps I (RequireAuth X m (chain X m r ms f) r)"
    unfolding RequireAuth_def Manager_Parse_def Let_def by (intro keeps_intros assms(1) Cons)
  moreover have "keeps I (RequireRole ws (chain X m r ms f) ctx)" for ws
    unfolding RequireRole_def by (intro keeps_intros Cons)
  ultimately show ?case by (cases u) simp_all
qed

lemma keeps_serve:
  assumes "keeps I time_Now"
    and "\<And>key param ms e ctx. net_chi N (map fst routes) meth path = Inr (key, param) \<Longrightarrow>
      map_of routes key = Some (ms, e) \<Longrightarrow> keeps I (dispatch X N D h (routed N param r) e ctx)"
  shows "keeps I (serve X N D h meth path r)"
proof (cases "net_chi N (map fst routes) meth path")
  case (Inl st)
  then show ?thesis by (simp add: serve_def keeps_returnE)
next
  case (Inr kp)
  obtain key param where kp: "kp = (key, param)" by fastforce
  show ?thesis
  proof (cases "map_of routes key")
    case None
    then show ?thesis using Inr kp by (simp add: serve_def keeps_returnE)
  next
    case (Some me)
    obtain ms e where me: "me = (ms, e)" by fastforce
    have "keeps I (chain X (jwt_of D) (routed N param r) ms (dispatch X N D h (routed N param r) e) None)"
      using assms Inr Some unfolding kp me by (intro keeps_chain) blast+
    then show ?thesis using Inr Some kp me by (simp add: serve_def keeps_answered)
  qed
qed

text \<open>The running server always answers.\<close>

lemma answered_answers: "\<exists>resp w1. answered r f w = (Inr resp, w1)"
  by (cases "answered r f w") (auto elim!: answered_cases)

lemma serve_answers: "\<exists>resp w1. serve X N D h meth path r w = (Inr resp, w1)"
  unfolding serve_def by (auto split: sum.split option.split prod.split simp: answered_answers)

section \<open>Reading requests\<close>

text \<open>Tables up to the view counters of threads.\<close>

definition erase_views :: "db \<Rightarrow> db" where
  "erase_views d = d\<lparr>threads := map (\<lambda>t. t\<lparr>thread_Views := 0\<rparr>) (threads d)\<rparr>"

text \<open>A property of the tables, the stored objects and the events for the hub.\<close>

definition on_effects :: "(db \<Rightarrow> bool) \<Rightarrow> (string set \<Rightarrow> bool) \<Rightarrow> (notify list \<Rightarrow> bool) \<Rightarrow> world \<Rightarrow> bool" where
  "on_effects I J K w \<longleftrightarrow> I (w_db w) \<and> J (objects (w_s3 w)) \<and> K (w_notify w)"

lemma keeps_effects_sql [keeps_intros]: "stmt_keeps I f \<Longrightarrow> keeps (on_effects I J K) (sql args f)"
  by (auto simp: keeps_def on_effects_def stmt_keeps_def sql_def Let_def split: sum.splits prod.splits)

lemma keeps_effects_query [keeps_intros]: "keeps (on_effects I J K) (query args f)"
  by (simp add: query_def keeps_effects_sql)

lemma keeps_effects_env [keeps_intros]:
  "keeps (on_effects I J K) time_Now" "keeps (on_effects I J K) (s3_do (GetObject k))"
  "keeps (on_effects I J K) (object_Stat k)" "keeps (on_effects I J K) (object_Copy k)"
  by (auto simp: keeps_def on_effects_def time_Now_def s3_do_def object_Stat_def object_Copy_def Let_def objects_def)

lemma views_kept:
  "stmt_keeps (\<lambda>d. erase_views d = d0) (sql_threads_update i (\<lambda>a d t. t\<lparr>thread_Views := thread_Views t + 1\<rparr>))"
proof (rule stmt_keepsI)
  fix a d x d' assume d0: "erase_views d = d0"
    and r: "sql_threads_update i (\<lambda>a d t. t\<lparr>thread_Views := thread_Views t + 1\<rparr>) a d = Inr (x, d')"
  let ?ts = "update_rows (\<lambda>t. thread_ID t = i) (\<lambda>t. t\<lparr>thread_Views := thread_Views t + 1\<rparr>) (threads d)"
  from r have "d' = d\<lparr>threads := ?ts\<rparr>" by (auto simp: sql_threads_update_def Let_def split: if_splits)
  moreover have "map (\<lambda>t. t\<lparr>thread_Views := 0\<rparr>) ?ts = map (\<lambda>t. t\<lparr>thread_Views := 0\<rparr>) (threads d)"
    by (rule map_update_rows) simp
  ultimately show "erase_views d' = d0" using d0 by (simp add: erase_views_def)
qed

definition get_endpoints :: "endpoint set" where
  "get_endpoints =
     {EHealth, EReady, EVersion, EInstallStatus, EMe, EGroupsList, EGroupsGet, EThreadsByGroup, EPostsByThread,
      EListUsers, EGetSettings, EListMedia, EInbox, EConversation, EUnreadCount, ENotifications, EOnline, EPresence,
      EServe, EWS, EThreadsGet}"

lemma get_routes:
  assumes "map_of routes key = Some (ms, e)" "fst key = ''GET''"
  shows "e \<in> get_endpoints"
proof -
  have "list_all (\<lambda>(key, ms, e). fst key = ''GET'' \<longrightarrow> e \<in> get_endpoints) routes"
    by (simp add: routes_def NewRouter_def get_endpoints_def)
  with map_of_SomeD [OF assms(1)] assms(2) show ?thesis by (auto simp: list_all_iff)
qed

lemmas read_defs = handler_defs AuthService_Profile_def user_store_defs forum_service_defs forum_store_defs
  admin_defs message_service_defs message_store_defs S3_Open_def db_Ping_def db_SchemaVersion_def auth_defs

lemma get_dispatch:
  assumes "e \<in> get_endpoints" "e \<noteq> EThreadsGet"
  shows "keeps (on_effects I J K) (dispatch X N D h r e ctx)"
  using assms unfolding get_endpoints_def
  by (elim insertE emptyE; simp only: dispatch.simps) (unfold read_defs Let_def, (intro keeps_intros)+)

lemma view_dispatch: "keeps (on_effects (\<lambda>d. erase_views d = d0) J K) (dispatch X N D h r EThreadsGet ctx)"
  by (simp only: dispatch.simps) (unfold read_defs, intro keeps_intros views_kept)

text \<open>A \<^verbatim>\<open>GET\<close> request and the world.\<close>

lemma get_world:
  assumes "net_chi N (map fst routes) meth path = Inr (key, param)" "map_of routes key = Some (ms, e)"
    and "fst key = ''GET''" "serve X N D h meth path r w = (x, w1)"
  shows "erase_views (w_db w1) = erase_views (w_db w) \<and> (e \<noteq> EThreadsGet \<longrightarrow> w_db w1 = w_db w) \<and>
    objects (w_s3 w1) = objects (w_s3 w) \<and> w_notify w1 = w_notify w"
proof -
  have e: "e \<in> get_endpoints" by (rule get_routes [OF assms(2,3)])
  have serve: "keeps (on_effects I J K) (serve X N D h meth path r)"
    if "\<And>r ctx. keeps (on_effects I J K) (dispatch X N D h r e ctx)" for I J K
    using that assms(1,2) by (intro keeps_serve keeps_effects_env) auto
  have world: "I (w_db w1) \<and> objects (w_s3 w1) = objects (w_s3 w) \<and> w_notify w1 = w_notify w"
    if "I (w_db w)" "\<And>J K r ctx. keeps (on_effects I J K) (dispatch X N D h r e ctx)" for I
    using keeps_resultD [OF serve [OF that(2)] _ assms(4), of "\<lambda>S. S = objects (w_s3 w)" "\<lambda>n. n = w_notify w"] that(1)
    by (simp add: on_effects_def)
  show ?thesis
  proof (cases "e = EThreadsGet")
    case True
    then show ?thesis using world [of "\<lambda>d. erase_views d = erase_views (w_db w)"] view_dispatch by simp
  next
    case False
    then show ?thesis using world [of "\<lambda>d. d = w_db w"] get_dispatch [OF e False] by simp
  qed
qed

section \<open>The running server\<close>

lemma serve_schema: "keeps (on_db (db_ok X)) (serve X N D h meth path r)"
proof (rule keeps_serve)
  fix key param ms e ctx
  show "keeps (on_db (db_ok X)) (dispatch X N D h (routed N param r) e ctx)"
    by (cases e) (simp_all only: dispatch.simps handlers_keep_schema)
qed (rule keeps_db_env)

record system =
  sys_world :: world
  sys_ws :: ws
  sys_pending :: "notify list"

definition sys_init :: "system \<Rightarrow> bool" where
  "sys_init s \<longleftrightarrow>
     (\<exists>r1 r2 r3. distinct [r1, r2, r3] \<and> w_db (sys_world s) = migrated r1 r2 r3) \<and>
     ws_init (sys_ws s) \<and> sys_pending s = []"

text \<open>A request starts with an environment of its own and no event for the hub.\<close>

definition request_world :: "(nat \<Rightarrow> answer) \<Rightarrow> system \<Rightarrow> world" where
  "request_world env s = (sys_world s)\<lparr>w_env := env, w_tick := 0, w_notify := []\<rparr>"

text \<open>A request is answered with the hub of the moment. When the WebSocket library has upgraded its
  connection, there is a new connection of the user; its registration and what follows are steps of
  the connection's own goroutine.\<close>

inductive request_step :: "ext \<Rightarrow> net \<Rightarrow> Dependencies \<Rightarrow> string \<Rightarrow> string \<Rightarrow> request \<Rightarrow> system \<Rightarrow> system \<Rightarrow> bool"
  for X N D meth path r where
  answer: "serve X N D (ws_hub (sys_ws s)) meth path r (request_world env s) = (Inr resp, w1) \<Longrightarrow>
    resp_Upgrade resp = None \<Longrightarrow>
    request_step X N D meth path r s (s\<lparr>sys_world := w1, sys_pending := sys_pending s @ w_notify w1\<rparr>)"
| upgrade: "serve X N D (ws_hub (sys_ws s)) meth path r (request_world env s) = (Inr resp, w1) \<Longrightarrow>
    resp_Upgrade resp = Some u \<Longrightarrow> ws_conns (sys_ws s) c = None \<Longrightarrow>
    request_step X N D meth path r s (s\<lparr>sys_world := w1, sys_pending := sys_pending s @ w_notify w1,
      sys_ws := (sys_ws s)\<lparr>ws_conns := (ws_conns (sys_ws s))(c \<mapsto> NewClient u)\<rparr>\<rparr>)"

inductive sys_step :: "ext \<Rightarrow> net \<Rightarrow> Dependencies \<Rightarrow> system \<Rightarrow> system \<Rightarrow> bool" for X N D where
  request: "request_step X N D meth path r s t \<Longrightarrow> sys_step X N D s t"
| hand_over: "sys_pending s = ps @ n # qs \<Longrightarrow> can_notify (ws_hub (sys_ws s)) \<Longrightarrow>
    sys_step X N D s (s\<lparr>sys_pending := ps @ qs,
      sys_ws := (sys_ws s)\<lparr>ws_hub := hub_Notify (notify_userID n) (notify_event n) (ws_hub (sys_ws s))\<rparr>\<rparr>)"
| goroutine: "hub_step (sys_ws s) t \<or> conn_step (sys_ws s) t \<or> write_step (sys_ws s) t \<Longrightarrow>
    sys_step X N D s (s\<lparr>sys_ws := t\<rparr>)"

inductive_cases sys_stepE: "sys_step X N D s t"

definition sys_inv :: "ext \<Rightarrow> system \<Rightarrow> bool" where
  "sys_inv X s \<longleftrightarrow> db_ok X (w_db (sys_world s)) \<and> ws_inv (sys_ws s)"

lemma request_inv:
  assumes "sys_inv X s" "serve X N D h meth path r (request_world env s) = (Inr resp, w1)"
  shows "db_ok X (w_db w1)"
  using keeps_dbD [OF serve_schema _ assms(2)] assms(1) by (simp add: sys_inv_def request_world_def)

text \<open>What a step of the server is for the hub: nothing, or one of the steps of \<open>Hub\<close>.\<close>

lemma request_step_ws:
  assumes "request_step X N D meth path r s t"
  shows "sys_ws t = sys_ws s \<or> env_step (sys_ws s) (sys_ws t)"
  using assms by cases (auto intro: env_step.connect)

lemma sys_step_ws:
  assumes "sys_step X N D s t"
  shows "sys_ws t = sys_ws s \<or> ws_step (sys_ws s) (sys_ws t)"
  using assms
proof cases
  case (request meth path r)
  from request_step_ws [OF this] show ?thesis by (auto simp: ws_step_def)
next
  case (hand_over ps n qs)
  then show ?thesis by (auto simp: ws_step_def intro: env_step.notify)
next
  case (goroutine u)
  then show ?thesis by (auto simp: ws_step_def)
qed

lemma sys_step_inv:
  assumes inv: "sys_inv X s" and step: "sys_step X N D s t"
  shows "sys_inv X t"
proof -
  have "ws_inv (sys_ws t)" using sys_step_ws [OF step] inv wsS.inv_step by (auto simp: sys_inv_def)
  moreover have "db_ok X (w_db (sys_world t))"
    using step
  proof cases
    case (request meth path r)
    from request show ?thesis by cases (simp_all add: request_inv [OF inv])
  qed (use inv in \<open>simp_all add: sys_inv_def\<close>)
  ultimately show ?thesis by (simp add: sys_inv_def)
qed

lemma sys_inv_init: "sys_init s \<Longrightarrow> sys_inv X s"
  by (auto simp: sys_init_def sys_inv_def migrated_ok ws_inv_init)

interpretation srvS: safe_system sys_init "sys_step X N D" "sys_inv X" for X N D
  by unfold_locales (rule sys_inv_init, assumption, rule sys_step_inv)

abbreviation sys_reachable :: "ext \<Rightarrow> net \<Rightarrow> Dependencies \<Rightarrow> system \<Rightarrow> bool" where
  "sys_reachable X N D \<equiv> reach sys_init (sys_step X N D)"

section \<open>Responses\<close>

text \<open>The form of what a handler writes: a status the program uses, and the error envelope exactly
  on errors.\<close>

definition envelope :: "response \<Rightarrow> bool" where
  "envelope resp \<longleftrightarrow>
     resp_Status resp \<in> {200, 201, 204, 400, 401, 403, 404, 409, 413, 415, 500, 503} \<and>
     (400 \<le> resp_Status resp \<longleftrightarrow> (\<exists>c m. resp_Body resp = ErrorBody c m)) \<and> resp_Upgrade resp = None"

text \<open>A property of every value an operation returns.\<close>

definition returns :: "('a \<Rightarrow> bool) \<Rightarrow> 'a dbop \<Rightarrow> bool" where
  "returns P m \<longleftrightarrow> (\<forall>w x w1. m w = (Inr x, w1) \<longrightarrow> P x)"

named_theorems returns_intros \<open>introduction rules for what operations return\<close>

lemma returns_returnE [returns_intros]: "P x \<Longrightarrow> returns P (returnE x)"
  by (simp add: returns_def)

lemma returns_bindE [returns_intros]: "(\<And>x. returns P (f x)) \<Longrightarrow> returns P (bindE m f)"
  by (auto simp: returns_def bindE_Inr_iff)

lemma returns_handleE [returns_intros]: "returns P m \<Longrightarrow> (\<And>e. returns P (f e)) \<Longrightarrow> returns P (handleE m f)"
  by (fastforce simp: returns_def handleE_def split: prod.splits sum.splits)

lemma returns_respond [returns_intros]:
  "(\<And>e. P (bad e)) \<Longrightarrow> (\<And>x. P (good x)) \<Longrightarrow> returns P (respond m bad good)"
  unfolding respond_def by (intro returns_intros) (simp_all add: returns_def)

lemma returns_if [returns_intros]: "(b \<Longrightarrow> returns P m) \<Longrightarrow> (\<not> b \<Longrightarrow> returns P n) \<Longrightarrow> returns P (if b then m else n)"
  by simp

lemma returns_case_option [returns_intros]:
  "returns P m \<Longrightarrow> (\<And>x. returns P (f x)) \<Longrightarrow> returns P (case v of None \<Rightarrow> m | Some x \<Rightarrow> f x)"
  by (simp split: option.split)

lemma returns_case_prod [returns_intros]: "(\<And>x y. returns P (f x y)) \<Longrightarrow> returns P (case v of (x, y) \<Rightarrow> f x y)"
  by (simp split: prod.split)

lemma returns_with_user [returns_intros]: "P unauthorized \<Longrightarrow> (\<And>u. returns P (f u)) \<Longrightarrow> returns P (with_user ctx f)"
  unfolding with_user_def by (intro returns_intros)

lemma envelope_writers [simp]:
  "envelope (writeJSON n b) \<longleftrightarrow> n \<in> {200, 201, 204, 400, 401, 403, 404, 409, 413, 415, 500, 503} \<and>
     (400 \<le> n \<longleftrightarrow> (\<exists>c m. b = ErrorBody c m))"
  "envelope (writeError n c m) \<longleftrightarrow> n \<in> {400, 401, 403, 404, 409, 413, 415, 500, 503}"
  "envelope (writeServerError e)" "envelope (writeCoreError e)" "envelope no_content" "envelope unauthorized"
  "envelope invalid_token" "envelope (setRefreshCookie cfg v r) = envelope r" "envelope (clearRefreshCookie cfg r) = envelope r"
  "envelope (bad_id t)" "envelope bad_json" "envelope malformed" "envelope missing_file" "envelope media_not_found"
  by (auto simp: envelope_def writeError_def writeServerError_def writeCoreError_def no_content_def
      unauthorized_def invalid_token_def setRefreshCookie_def clearRefreshCookie_def bad_id_def bad_json_def malformed_def
      missing_file_def media_not_found_def writeJSON_def)

lemma dispatch_envelope:
  assumes "e \<notin> {EWS, EServe}"
  shows "returns envelope (dispatch X N D h r e ctx)"
  using assms
  by (cases e; simp only: dispatch.simps; unfold handler_defs Let_def; intro returns_intros; simp split: error.split prod.split)

lemma Serve_returns: "returns (\<lambda>resp. envelope resp \<or> resp = unwritten) (Media_Serve cfg r)"
  unfolding Media_Serve_def Let_def by (intro returns_intros) (simp_all split: copied.split)

lemma WS_returns:
  assumes "WS X m up r w = (Inr resp, w1)"
  shows "envelope resp \<or> (\<exists>status. up r = Some status \<and> resp = writeJSON status PlainText) \<or>
    (\<exists>u claims. up r = None \<and> resp = (writeJSON 101 NoBody)\<lparr>resp_Upgrade := Some u\<rparr> \<and>
       jwt_ParseWithClaims X (key_func m) (mgr_issuer m) [''HS256''] (ans_now (w_env w (w_tick w)))
        (rq_Query r ''access_token'') = Some (claims, True) \<and> uuid_Parse X (claims_Subject claims) = Some u)"
  using assms
  by (auto simp: WS_def Let_def bindE_def Manager_Parse_def time_Now_def returnE_def
      split: if_splits option.splits)

lemma returns_chain:
  assumes "P unauthorized" "P invalid_token" "P (writeError 403 ''forbidden'' ''insufficient permissions'')" "\<And>ctx. returns P (f ctx)"
  shows "returns P (chain X m r ms f ctx)"
proof (induction ms arbitrary: ctx)
  case Nil
  show ?case by (simp add: assms(4))
next
  case (Cons u ms)
  have "returns P (RequireAuth X m (chain X m r ms f) r)"
    unfolding RequireAuth_def Let_def by (intro returns_intros assms Cons)
  moreover have "returns P (RequireRole ws (chain X m r ms f) ctx)" for ws
    unfolding RequireRole_def by (intro returns_intros assms Cons)
  ultimately show ?case by (cases u) simp_all
qed

text \<open>A property of every error or panic an operation ends with.\<close>

definition throws :: "(error \<Rightarrow> bool) \<Rightarrow> 'a dbop \<Rightarrow> bool" where
  "throws Q m \<longleftrightarrow> (\<forall>w e w1. m w = (Inl e, w1) \<longrightarrow> Q e)"

named_theorems throws_intros \<open>introduction rules for how operations fail\<close>

lemma throws_basic [throws_intros]:
  "throws Q (returnE x)" "Q e \<Longrightarrow> throws Q (throwE e)" "(\<And>e. v = Inl e \<Longrightarrow> Q e) \<Longrightarrow> throws Q (liftE v)"
  "throws Q (ignoreE m)" "throws Q time_Now" "throws Q uuid_New" "throws Q (notify_hub u t d)" "throws Q (object_Copy k)"
  by (simp_all add: throws_def op_defs time_Now_def uuid_New_def notify_hub_def object_Copy_def Let_def)

lemma throws_calls [throws_intros]:
  "(\<And>pe. Q (PgErr pe)) \<Longrightarrow> throws Q (sql args f)" "Q ErrRandom \<Longrightarrow> throws Q (rand_Read n)"
  "Q ErrStorage \<Longrightarrow> throws Q (s3_do c)" "Q ErrStorage \<Longrightarrow> throws Q (object_Stat k)"
  by (auto simp: throws_def sql_def rand_Read_def s3_do_def object_Stat_def Let_def split: sum.splits prod.splits if_splits)

lemma throws_bindE [throws_intros]: "throws Q m \<Longrightarrow> (\<And>x. throws Q (f x)) \<Longrightarrow> throws Q (bindE m f)"
  by (fastforce simp: throws_def bindE_def split: prod.splits sum.splits)

lemma throws_handleE [throws_intros]:
  "throws Q m \<Longrightarrow> (\<And>e. Q e \<Longrightarrow> throws Q (f e)) \<Longrightarrow> throws Q (handleE m f)"
  by (fastforce simp: throws_def handleE_def split: prod.splits sum.splits)

lemma throws_handled: "(\<And>e. throws Q (f e)) \<Longrightarrow> throws Q (handleE m f)"
  by (fastforce simp: throws_def handleE_def split: prod.splits sum.splits)

lemma throws_mapErrE [throws_intros]: "throws Q m \<Longrightarrow> (\<And>e. Q e \<Longrightarrow> Q (g e)) \<Longrightarrow> throws Q (mapErrE g m)"
  unfolding mapErrE_def by (intro throws_intros) simp_all

lemma throws_if [throws_intros]: "(b \<Longrightarrow> throws Q m) \<Longrightarrow> (\<not> b \<Longrightarrow> throws Q n) \<Longrightarrow> throws Q (if b then m else n)"
  by simp

lemma throws_case_option [throws_intros]:
  "throws Q m \<Longrightarrow> (\<And>x. throws Q (f x)) \<Longrightarrow> throws Q (case v of None \<Rightarrow> m | Some x \<Rightarrow> f x)"
  by (simp split: option.split)

lemma throws_case_prod [throws_intros]: "(\<And>x y. throws Q (f x y)) \<Longrightarrow> throws Q (case v of (x, y) \<Rightarrow> f x y)"
  by (simp split: prod.split)

lemma throws_with_tx [throws_intros]: "(\<And>pe. Q (PgErr pe)) \<Longrightarrow> throws Q m \<Longrightarrow> throws Q (with_tx m)"
  by (auto simp: throws_def with_tx_def Let_def split: prod.splits sum.splits fault.splits if_splits)

lemma throws_rows [throws_intros]:
  "throws Q m1 \<Longrightarrow> Q StoreErrNotFound \<Longrightarrow> throws Q (scan_row m1)" "throws Q m2 \<Longrightarrow> Q StoreErrNotFound \<Longrightarrow> throws Q (need_rows m2)"
  unfolding scan_row_def need_rows_def by (intro throws_intros; assumption)+

lemma throws_with_user [throws_intros]: "(\<And>u. throws Q (f u)) \<Longrightarrow> throws Q (with_user ctx f)"
  unfolding with_user_def by (intro throws_intros)

text \<open>A handler turns every error into a response and lets a panic go on.\<close>

lemma throws_respond [throws_intros]: "throws (\<lambda>e. e \<noteq> Panic) m \<Longrightarrow> throws Q (respond m bad good)"
  by (fastforce simp: throws_def elim!: respond_cases split: if_splits)

lemma validation_errors:
  "validateGroup inp = Inl e \<Longrightarrow> e \<noteq> Panic" "validateTitle t = Inl e \<Longrightarrow> e \<noteq> Panic" "validateBody b = Inl e \<Longrightarrow> e \<noteq> Panic"
  "apply_thread_update tinp u rs th = Inl e \<Longrightarrow> e \<noteq> Panic"
  by (auto simp: validateGroup_def validateTitle_def validateBody_def apply_thread_update_def Let_def
      split: if_splits option.splits sum.splits)

text \<open>Only password hashing can panic.\<close>

definition hashing_endpoints :: "endpoint set" where
  "hashing_endpoints = {ERegister, ELogin, EInstallCreate}"

lemma dispatch_no_panic:
  assumes "e \<notin> hashing_endpoints"
  shows "throws (\<lambda>_. False) (dispatch X N D h r e ctx)"
proof (cases "e = ESend")
  case True
  show ?thesis
    unfolding True dispatch.simps Messages_Send_def Messages_Send_via_def
    by (intro throws_with_user throws_case_option throws_case_prod throws_if throws_handled throws_basic)
next
  case False
  with assms show ?thesis
    unfolding hashing_endpoints_def
    by (cases e; simp only: dispatch.simps; (simp; fail)?)
       (unfold program_defs Let_def,
         (intro throws_intros; (simp add: notFoundAs_def mapUserErr_def validation_errors split: if_splits; fail)?)+)
qed

lemma throws_chain:
  assumes "\<And>ctx. throws Q (f ctx)"
  shows "throws Q (chain X m r ms f ctx)"
proof (induction ms arbitrary: ctx)
  case Nil
  show ?case by (simp add: assms)
next
  case (Cons u ms)
  have "throws Q (RequireAuth X m (chain X m r ms f) r)"
    unfolding RequireAuth_def Manager_Parse_def Let_def by (intro throws_intros Cons)
  moreover have "throws Q (RequireRole ws (chain X m r ms f) ctx)" for ws
    unfolding RequireRole_def by (intro throws_intros Cons)
  ultimately show ?case by (cases u) simp_all
qed

text \<open>The answers of the WebSocket library: it refuses with an error status.\<close>

definition upgrade_lawful :: "net \<Rightarrow> bool" where
  "upgrade_lawful N \<longleftrightarrow> (\<forall>r status. net_Upgrade N r = Some status \<longrightarrow> 400 \<le> status)"

text \<open>What a handler behind its middleware writes, by endpoint.\<close>

lemma chain_returns:
  assumes "e \<noteq> EWS"
  shows "returns (\<lambda>resp. envelope resp \<or> e = EServe \<and> resp = unwritten)
    (chain X (jwt_of D) r ms (dispatch X N D h r e) ctx)"
proof (cases "e = EServe")
  case True
  have "returns (\<lambda>resp. envelope resp \<or> resp = unwritten) (dispatch X N D h r EServe c)" for c
    by (simp add: Serve_returns)
  then show ?thesis unfolding True by (intro returns_chain) simp_all
next
  case False
  then have "returns (\<lambda>resp. envelope resp \<or> e = EServe \<and> resp = unwritten) (dispatch X N D h r e c)" for c
    using dispatch_envelope [of e X N D h r c] assms by (auto simp: returns_def)
  then show ?thesis by (intro returns_chain) simp_all
qed

lemma serve_WS:
  assumes route: "net_chi N (map fst routes) meth path = Inr (key, param)" "map_of routes key = Some (ms, EWS)"
    and lawful: "upgrade_lawful N" and serve: "serve X N D h meth path r w = (Inr resp, w1)"
  shows "WS X (jwt_of D) (net_Upgrade N) (routed N param r) w = (Inr resp, w1)"
proof -
  let ?ws = "WS X (jwt_of D) (net_Upgrade N) (routed N param r)"
  have eq: "answered r ?ws w = (Inr resp, w1)"
    using serve serve_route [OF route, of X D h r] by (simp add: guards_def public_endpoints_def answered_defs op_defs)
  have "throws (\<lambda>_. False) ?ws" using dispatch_no_panic [of EWS X N D h "routed N param r" None] by (simp add: hashing_endpoints_def)
  then have no_panic: "?ws w \<noteq> (Inl er, w2)" for er w2 by (auto simp: throws_def)
  have st: "resp_Status x \<noteq> 0" if "?ws w = (Inr x, w1)" for x
    using WS_returns [OF that] lawful by (fastforce simp: envelope_def upgrade_lawful_def writeJSON_def)
  from eq show ?thesis
  proof (cases rule: answered_cases)
    case (written x)
    then show ?thesis by simp
  next
    case (timeout y)
    show ?thesis
    proof (cases y)
      case (Inl er)
      with timeout(1) no_panic [of er w1] show ?thesis by simp
    next
      case (Inr x)
      with timeout(1,4) st [of x] show ?thesis by simp
    qed
  next
    case (silent x)
    with st [of x] show ?thesis by simp
  next
    case (panicked er)
    with no_panic [of er w1] show ?thesis by simp
  qed
qed

text \<open>The forms of a response.\<close>

lemma responses_form:
  assumes "net_chi N (map fst routes) meth path = Inr (key, param)" "map_of routes key = Some (ms, e)"
    and "upgrade_lawful N" and run: "serve X N D h meth path r w = (Inr resp, w1)"
  shows "envelope resp \<or>
     (resp = writeJSON 504 NoBody \<and> late w1 \<and> e \<in> insert EServe hashing_endpoints) \<or>
     (resp = writeJSON 500 NoBody \<and> \<not> late w1 \<and> e \<in> hashing_endpoints) \<or>
     (e = EWS \<and> (\<exists>u. resp = (writeJSON 101 NoBody)\<lparr>resp_Upgrade := Some u\<rparr>)) \<or>
     (e = EWS \<and> (\<exists>status \<ge> 400. net_Upgrade N (routed N param r) = Some status \<and> resp = writeJSON status PlainText))"
proof (cases "e = EWS")
  case True
  then have "map_of routes key = Some (ms, EWS)" using assms(2) by simp
  from WS_returns [OF serve_WS [OF assms(1) this assms(3) run]] True assms(3) show ?thesis
    by (auto simp: upgrade_lawful_def)
next
  case False
  let ?f = "chain X (jwt_of D) (routed N param r) (guards e) (dispatch X N D h (routed N param r) e) None"
  have ret: "envelope x \<or> e = EServe \<and> x = unwritten" if "?f w = (Inr x, w1)" for x
    using chain_returns [OF False, of X D "routed N param r" "guards e" N h None] that by (auto simp: returns_def)
  have "throws (\<lambda>_. False) ?f" if "e \<notin> hashing_endpoints"
    by (intro throws_chain dispatch_no_panic that)
  then have pan: "e \<in> hashing_endpoints" if "?f w = (Inl er, w1)" for er
    using that by (auto simp: throws_def)
  have "answered r ?f w = (Inr resp, w1)" using run serve_route [OF assms(1,2), of X D h r] by simp
  then show ?thesis
  proof (cases rule: answered_cases)
    case (written x)
    with ret show ?thesis by auto
  next
    case (timeout y)
    have "e \<in> insert EServe hashing_endpoints"
    proof (cases y)
      case (Inl er)
      with timeout(1) pan show ?thesis by auto
    next
      case (Inr x)
      with timeout(1,4) ret [of x] show ?thesis by (auto simp: envelope_def)
    qed
    with timeout show ?thesis by simp
  next
    case (silent x)
    with ret [of x] have "x = unwritten" by (auto simp: envelope_def)
    with silent(4) have "resp = writeJSON 200 NoBody" by (simp add: unwritten_def writeJSON_def)
    then show ?thesis by simp
  next
    case (panicked er)
    with pan have "e \<in> hashing_endpoints" by blast
    with panicked show ?thesis by (auto simp: recovered_def split: if_splits)
  qed
qed

text \<open>C8: Every request that chi routes is answered, even when a handler panics or its deadline
  passes, and the response has one of these forms. Usually it is what the handler wrote: one of
  twelve statuses, with the error envelope exactly on the statuses from 400 on. It is 504 without a
  body when the deadline has passed and nothing was written, which takes a media download that
  failed before its first byte or a panic; it is the recoverer's 500 without a body after a panic,
  which takes an endpoint that hashes a password. Only \<^verbatim>\<open>/ws\<close> answers 101, without a body, or with
  the refusal of the WebSocket library in plain text.\<close>

theorem responses_well_formed:
  assumes "net_chi N (map fst routes) meth path = Inr (key, param)" "map_of routes key = Some (ms, e)"
    and "upgrade_lawful N"
  shows "\<exists>resp w1. serve X N D h meth path r w = (Inr resp, w1) \<and>
    ((resp_Status resp \<in> {200, 201, 204, 400, 401, 403, 404, 409, 413, 415, 500, 503} \<and>
      (400 \<le> resp_Status resp \<longleftrightarrow> (\<exists>code message. resp_Body resp = ErrorBody code message)) \<and> resp_Upgrade resp = None) \<or>
     (resp = writeJSON 504 NoBody \<and> late w1 \<and> e \<in> {EServe, ERegister, ELogin, EInstallCreate}) \<or>
     (resp = writeJSON 500 NoBody \<and> \<not> late w1 \<and> e \<in> {ERegister, ELogin, EInstallCreate}) \<or>
     (e = EWS \<and> (\<exists>u. resp = (writeJSON 101 NoBody)\<lparr>resp_Upgrade := Some u\<rparr>)) \<or>
     (e = EWS \<and> (\<exists>status \<ge> 400. net_Upgrade N (routed N param r) = Some status \<and> resp = writeJSON status PlainText)))"
proof -
  obtain resp w1 where run: "serve X N D h meth path r w = (Inr resp, w1)" using serve_answers by blast
  from run responses_form [OF assms run] show ?thesis
    unfolding envelope_def hashing_endpoints_def by (intro exI [of _ resp] exI [of _ w1]) simp
qed

text \<open>Whose connection an upgrade is.\<close>

lemma serve_upgrade:
  assumes route: "net_chi N (map fst routes) meth path = Inr (key, param)" "map_of routes key = Some (ms, e)"
    and lawful: "upgrade_lawful N"
    and serve: "serve X N D h meth path r w = (Inr resp, w1)" "resp_Upgrade resp = Some u"
  shows "e = EWS \<and> (\<exists>claims. jwt_ParseWithClaims X (key_func (jwt_of D)) (mgr_issuer (jwt_of D)) [''HS256'']
      (ans_now (w_env w (w_tick w))) (rq_Query r ''access_token'') = Some (claims, True) \<and> uuid_Parse X (claims_Subject claims) = Some u)"
proof -
  have e: "e = EWS"
    using responses_form [OF route lawful serve(1)] serve(2) by (auto simp: writeJSON_def envelope_def)
  with route(2) have "map_of routes key = Some (ms, EWS)" by simp
  from WS_returns [OF serve_WS [OF route(1) this lawful serve(1)]] serve(2) show ?thesis
    unfolding e by (auto simp: envelope_def routed_def)
qed

text \<open>C7: Reading requests are safe: answering a \<^verbatim>\<open>GET\<close> request, whoever makes it and whatever fails,
  leaves the tables and the stored objects alone, except that showing a thread may raise view
  counters, and hands no event to the hub. It leaves the hub and its connections alone, too, except
  that \<^verbatim>\<open>GET /ws\<close> may add one connection, which belongs to the user of the request's valid access
  token; that connection then registers with the hub and announces the user in steps of its own.\<close>

theorem get_is_safe:
  assumes "net_chi N (map fst routes) meth path = Inr (key, param)" "map_of routes key = Some (ms, e)"
    and "fst key = ''GET''" "upgrade_lawful N" "request_step X N D meth path r s t"
  shows "erase_views (w_db (sys_world t)) = erase_views (w_db (sys_world s)) \<and>
    (e \<noteq> EThreadsGet \<longrightarrow> w_db (sys_world t) = w_db (sys_world s)) \<and>
    objects (w_s3 (sys_world t)) = objects (w_s3 (sys_world s)) \<and> sys_pending t = sys_pending s \<and>
    (sys_ws t = sys_ws s \<or>
     e = EWS \<and> (\<exists>c u now claims. ws_conns (sys_ws s) c = None \<and>
       sys_ws t = (sys_ws s)\<lparr>ws_conns := (ws_conns (sys_ws s))(c \<mapsto> NewClient u)\<rparr> \<and>
       jwt_ParseWithClaims X (key_func (jwt_of D)) (mgr_issuer (jwt_of D)) [''HS256''] now (rq_Query r ''access_token'') =
         Some (claims, True) \<and> uuid_Parse X (claims_Subject claims) = Some u))"
  using assms(5)
proof cases
  case (answer env resp w1)
  with get_world [OF assms(1-3) answer(2)] show ?thesis by (simp add: request_world_def)
next
  case (upgrade env resp w1 u c)
  from serve_upgrade [OF assms(1,2,4) upgrade(2,3)] obtain claims where e: "e = EWS"
    and tok: "jwt_ParseWithClaims X (key_func (jwt_of D)) (mgr_issuer (jwt_of D)) [''HS256'']
      (ans_now (env 0)) (rq_Query r ''access_token'') = Some (claims, True)" "uuid_Parse X (claims_Subject claims) = Some u"
    by (auto simp: request_world_def)
  have "sys_ws t = (sys_ws s)\<lparr>ws_conns := (ws_conns (sys_ws s))(c \<mapsto> NewClient u)\<rparr>" using upgrade(1) by simp
  with tok upgrade(4) have "\<exists>c u now claims. ws_conns (sys_ws s) c = None \<and>
      sys_ws t = (sys_ws s)\<lparr>ws_conns := (ws_conns (sys_ws s))(c \<mapsto> NewClient u)\<rparr> \<and>
      jwt_ParseWithClaims X (key_func (jwt_of D)) (mgr_issuer (jwt_of D)) [''HS256''] now (rq_Query r ''access_token'') =
        Some (claims, True) \<and> uuid_Parse X (claims_Subject claims) = Some u"
    by blast
  with e upgrade(1) get_world [OF assms(1-3) upgrade(2)] show ?thesis by (simp add: request_world_def)
qed

text \<open>C1: The running server is safe: in every state that requests of any clients, failures of
  the database and interleavings of the hub's goroutines can lead to, starting from the migrated
  tables, the tables satisfy all keys, unique columns, references and ranges of the schema, the
  hub has not panicked, and a user counts as online exactly while one of their connections is
  registered.\<close>

theorem server_safe:
  assumes "sys_reachable X N D s"
  shows "db_ok X (w_db (sys_world s)) \<and> \<not> ws_panic (sys_ws s) \<and>
    (IsOnline u (ws_hub (sys_ws s)) \<longleftrightarrow>
      (\<exists>c cl. ws_conns (sys_ws s) c = Some cl \<and> cl_userID cl = u \<and> registered cl))"
  using srvS.reach_inv [OF assms] online_registered [of "sys_ws s" u] by (simp add: sys_inv_def ws_inv_def)

section \<open>From login to the first authenticated request\<close>

text \<open>Operations advance the environment and do not change it.\<close>

definition on_env :: "(nat \<Rightarrow> answer) \<Rightarrow> nat \<Rightarrow> world \<Rightarrow> bool" where
  "on_env env k w \<longleftrightarrow> w_env w = env \<and> k \<le> w_tick w"

lemma keeps_env_sql [keeps_intros]: "keeps (on_env env k) (sql args f)"
  by (auto simp: keeps_def on_env_def sql_def Let_def split: sum.splits prod.splits)

lemma keeps_env_calls [keeps_intros]: "keeps (on_env env k) time_Now" "keeps (on_env env k) (rand_Read n)"
  by (auto simp: keeps_def on_env_def time_Now_def rand_Read_def Let_def)

lemma Login_token:
  assumes "AuthService_Login X S identifier password ua ip w = (Inr t, w1)"
  shows "\<exists>wa wb. NewAccessToken X (as_jwt S) (user_ID (tok_User t)) (user_Username (tok_User t)) (tok_Roles t) wa =
      (Inr (tok_AccessToken t), wb) \<and> w_env wa = w_env w \<and> w_tick w \<le> w_tick wa \<and> w_tick wa < w_tick w1"
proof -
  from assms obtain u w2 where look: "login_lookup X (TrimSpace identifier) w = (Inr u, w2)"
    and iss: "AuthService_issueTokens X S u ua ip w2 = (Inr t, w1)"
    by (auto simp: AuthService_Login_def bindE_Inr_iff split: if_splits)
  from iss obtain rs wa acc wb ref h wc now wd ns s where roles: "UserStore_RolesForUser X (user_ID u) w2 = (Inr rs, wa)"
    and tok: "NewAccessToken X (as_jwt S) (user_ID u) (user_Username u) rs wa = (Inr acc, wb)"
    and refresh: "NewRefreshToken X wb = (Inr (ref, h), wc)" and now: "time_Now wc = (Inr now, wd)"
    and store: "SessionStore_Create X ns wd = (Inr s, w1)"
    and t: "tok_User t = u" "tok_Roles t = rs" "tok_AccessToken t = acc"
    by (auto simp: AuthService_issueTokens_def bindE_Inr_iff split: prod.splits)
  have k: "keeps (on_env env k) (login_lookup X n)" "keeps (on_env env k) (UserStore_RolesForUser X i)"
    "keeps (on_env env k) (NewRefreshToken X)" "keeps (on_env env k) (SessionStore_Create X ns)" for env k n i ns
    unfolding login_lookup_def user_store_defs auth_defs query_def Let_def by (intro keeps_intros)+
  have "on_env (w_env w) (w_tick w) w2" using keeps_resultD [OF k(1) _ look, of "w_env w" "w_tick w"] by (simp add: on_env_def)
  then have wa: "on_env (w_env w) (w_tick w) wa" using keeps_resultD [OF k(2) _ roles] by simp
  have "w_tick wb = Suc (w_tick wa)"
    using tok by (auto simp: NewAccessToken_def Manager_issue_def bindE_Inr_iff time_Now_def split: option.splits)
  moreover have "on_env (w_env wb) (w_tick wb) wd"
    using keeps_resultD [OF k(3) _ refresh, of "w_env wb" "w_tick wb"] now by (auto simp: on_env_def time_Now_def)
  then have "on_env (w_env wb) (w_tick wb) w1" by (rule keeps_resultD [OF k(4) _ store])
  ultimately show ?thesis using wa tok t by (auto simp: on_env_def)
qed

lemma Login_effect:
  assumes "AuthService_Login X S identifier password ua ip w = (Inr t, w1)"
  shows "tok_User t \<in> set (users (w_db w1)) \<and> tok_Roles t = roles_of X (user_ID (tok_User t)) (w_db w1) \<and>
    users (w_db w1) = users (w_db w) \<and> roles (w_db w1) = roles (w_db w)"
proof -
  from assms obtain u w2 where look: "login_lookup X (TrimSpace identifier) w = (Inr u, w2)"
    and iss: "AuthService_issueTokens X S u ua ip w2 = (Inr t, w1)"
    by (auto simp: AuthService_Login_def bindE_Inr_iff split: if_splits)
  from login_lookup_Inr [OF look] issueTokens_Inr [OF iss] show ?thesis by (auto simp: roles_of_def)
qed

lemma Profile_calm:
  assumes "calm w" "db_ok X (w_db w)" "u \<in> set (users (w_db w))"
  shows "\<exists>w1. AuthService_Profile X (user_ID u) w = (Inr (u, roles_of X (user_ID u) (w_db w)), w1) \<and> w_db w1 = w_db w"
proof -
  have "find_key user_ID (user_ID u) (users (w_db w)) = Some u"
    using assms(2,3) by (simp add: userT.find_key_eq db_ok_def users_ok_def)
  moreover have "calm (tick w)" using assms(1) by (simp add: calm_def)
  ultimately show ?thesis using assms(1)
    by (simp add: AuthService_Profile_def UserStore_GetByID_def UserStore_RolesForUser_def bindE_def mapErrE_def
        handleE_def scan_query_calm query_calm returnE_def)
qed

text \<open>C6: Login leads to an authenticated session: the access token a login answers with, sent
  back in a bearer header to \<^verbatim>\<open>/auth/me\<close> while it is valid (from the second it was issued, for
  the configured time), is accepted by the middleware and answered with the account and the
  roles that logged in, as long as the tables have not changed and the database answers.\<close>

theorem login_then_me:
  assumes laws: "jwt_lawful X" "uuid_lawful X" and ok: "db_ok X (w_db w)"
    and login: "Auth_Login X (NewAuthService (deps_Config D)) r w = (Inr resp, w1)" "resp_Body resp = LoginBody tok user rs"
    and texts: "valid_utf8 (user_Username user)" "list_all valid_utf8 rs" "valid_utf8 (cfg_JWTIssuer (deps_Config D))"
      "user_ID user < 2 ^ 128"
    and req: "rq_Authorization r2 = ''Bearer '' @ tok" "tok \<noteq> []" "TrimSpace tok = tok"
    and route: "net_chi N (map fst routes) meth path = Inr ((''GET'', ''/api/v1/auth/me''), param)"
    and later: "calm w2" "w_db w2 = w_db w1" "now = ans_now (w_env w2 (w_tick w2))"
  shows "\<exists>i \<in> {w_tick w..<w_tick w1}. let t0 = ans_now (w_env w i) in
    NewNumericDate t0 * 1000000000 \<le> now \<and> now < NewNumericDate (t0 + sint (cfg_AccessTTL (deps_Config D))) * 1000000000 \<longrightarrow>
    (\<exists>w3. serve X N D h meth path r2 w2 = (Inr (writeJSON 200 (ProfileBody user rs)), w3) \<and> w_db w3 = w_db w2)"
proof -
  let ?S = "NewAuthService (deps_Config D)"
  obtain a b where dec: "decode_loginRequest r = Some (a, b)"
    using login by (cases "decode_loginRequest r") (auto simp: Auth_Login_def)
  obtain t where run: "AuthService_Login X ?S a b (rq_UserAgent r) (clientIP r) w = (Inr t, w1)"
    and t: "tok = tok_AccessToken t" "user = tok_User t" "rs = tok_Roles t"
    using login unfolding Auth_Login_def dec option.case prod.case
    by (auto elim!: respond_cases simp: setRefreshCookie_def writeServerError_def writeError_def recovered_def split: if_splits)
  from Login_token [OF run] t obtain wa wb where
    iss: "NewAccessToken X (jwt_of D) (user_ID user) (user_Username user) rs wa = (Inr tok, wb)"
    and wa: "w_env wa = w_env w" "w_tick w \<le> w_tick wa" "w_tick wa < w_tick w1" by auto
  have m: "mgr_issuer (jwt_of D) = cfg_JWTIssuer (deps_Config D)" "mgr_ttl (jwt_of D) = sint (cfg_AccessTTL (deps_Config D))"
    by (simp_all add: NewAuthService_def NewManager_def)
  have e: "map_of routes (''GET'', ''/api/v1/auth/me'') = Some ([UseRequireAuth], EMe)"
    by (simp add: routes_def NewRouter_def)
  have me: "\<exists>w3. serve X N D h meth path r2 w2 = (Inr (writeJSON 200 (ProfileBody user rs)), w3) \<and> w_db w3 = w_db w2"
    if "caller X (jwt_of D) now r2 = Some ui" "ui_ID ui = user_ID user" for ui
  proof -
    have "serve X N D h meth path r2 w2 = answered r2 (Auth_Me X (Some ui)) (tick w2)"
      using serve_protected [OF route e _ later(3), where X = X and D = D and h = h and r = r2] that(1) by (simp add: endpoint_kinds)
    moreover have "db_ok X (w_db w1)" using keeps_dbD [OF auth_service_keeps_schema(3) ok run] .
    then obtain w3 where "AuthService_Profile X (user_ID user) (tick w2) = (Inr (user, rs), w3)" "w_db w3 = w_db w2"
      using Profile_calm [of "tick w2" X user] Login_effect [OF run] later(1,2) t by (auto simp: calm_def)
    ultimately show ?thesis using that(2)
      by (intro exI [of _ w3]) (simp add: Auth_Me_def respond_Inr answered_written)
  qed
  show ?thesis
    using caller_token [OF laws iss texts(1,2) _ texts(4) refl req, of now] me wa texts(3) m
    by (intro bexI [of _ "w_tick wa"]) auto
qed

section \<open>Witnesses\<close>

lemma sample_net_lawful: "upgrade_lawful (sample_net p)"
  by (simp add: upgrade_lawful_def sample_net_def)

text \<open>A login without a body is answered 400 with the envelope.\<close>

theorem responses_well_formed_witness:
  "\<exists>resp w1 c m. serve sample_ext (sample_net []) sample_deps NewHub ''POST'' ''/api/v1/auth/login'' sample_request
     (sample_world sample_db) = (Inr resp, w1) \<and> resp_Status resp = 400 \<and> resp_Body resp = ErrorBody c m"
proof -
  let ?w = "sample_world sample_db"
  have r: "map_of routes (''POST'', ''/api/v1/auth/login'') = Some ([], ELogin)"
    by (simp add: routes_def NewRouter_def)
  have "decode_loginRequest sample_request = None"
    by (simp add: decode_loginRequest_def decodeJSON_def sample_request_def)
  then have "Auth_Login X S sample_request ?w = (Inr (writeError 400 ''malformed_request'' ''request body is invalid''), ?w)" for X S
    by (simp add: Auth_Login_def returnE_def)
  moreover have "routed (sample_net []) (\<lambda>_. []) sample_request = sample_request"
    by (simp add: routed_def sample_net_def sample_request_def)
  ultimately have "serve sample_ext (sample_net []) sample_deps NewHub ''POST'' ''/api/v1/auth/login'' sample_request ?w = (Inr (writeError 400 ''malformed_request'' ''request body is invalid''), ?w)"
    using serve_route [OF sample_chi [OF r, of "[]"] r, of sample_ext sample_deps NewHub sample_request]
    by (simp add: guards_def public_endpoints_def answered_written)
  with responses_well_formed [OF sample_chi [OF r, of "[]"] r sample_net_lawful,
      where X = sample_ext and D = sample_deps and h = NewHub and r = sample_request and w = ?w]
  show ?thesis by (auto simp: writeJSON_def)
qed

text \<open>A run: the user 7 opens a connection with a valid token and is registered.\<close>

definition sys_started :: system where
  "sys_started =
     \<lparr>sys_world = sample_world (migrated 11 12 13),
      sys_ws = \<lparr>ws_hub = NewHub, ws_conns = Map.empty, ws_taken = None, ws_job = None, ws_running = True, ws_panic = False\<rparr>, sys_pending = []\<rparr>"

lemma sys_started_reachable: "sys_reachable X N D sys_started"
proof (rule reach_init)
  have "distinct [11, 12, 13 :: uuid] \<and> w_db (sys_world sys_started) = migrated 11 12 13" by (simp add: sys_started_def)
  then have "\<exists>r1 r2 r3. distinct [r1, r2, r3] \<and> w_db (sys_world sys_started) = migrated r1 r2 r3" by (intro exI)
  then show "sys_init sys_started" unfolding sys_init_def by (rule conjI) (simp add: sys_started_def ws_init_def)
qed

definition ws_request :: "string \<Rightarrow> request" where
  "ws_request tok = sample_request\<lparr>rq_Query := (\<lambda>k. if k = ''access_token'' then tok else [])\<rparr>"

lemma ws_route: "map_of routes (''GET'', ''/ws'') = Some ([], EWS)"
  by (simp add: routes_def NewRouter_def)

lemma sample_upgrade:
  "\<exists>tok resp w1. serve sample_ext (sample_net []) sample_deps h ''GET'' ''/ws'' (ws_request tok)
     (request_world sample_answer sys_started) = (Inr resp, w1) \<and> resp_Upgrade resp = Some 7"
proof -
  let ?m = "jwt_of sample_deps" and ?w = "request_world sample_answer sys_started"
  obtain tok n where i: "NewAccessToken sample_ext ?m 7 ''eve'' [] (sample_world sample_db) = (Inr tok, tick (sample_world sample_db))"
    and n: "tok = dec_digits n"
    by (simp add: NewAccessToken_def Manager_issue_def bindE_def time_Now_def sample_ext_def returnE_def)
  have m: "valid_utf8 (mgr_issuer ?m)" "mgr_ttl ?m = 900000000000" "valid_utf8 ''eve''"
    using valid_utf8_ascii [of "''masoniccore''"] valid_utf8_ascii [of "''eve''"] sample_ttl
    by (simp_all add: sample_deps_def NewAuthService_def NewManager_def Load_def getenv_def del: valid_utf8.simps)
  let ?c = "new_claims sample_ext ?m 7 ''eve'' [] (mgr_ttl ?m) (ans_now (sample_answer 0))"
  have "jwt_ParseWithClaims sample_ext (key_func ?m) (mgr_issuer ?m) [''HS256''] (ans_now (sample_answer 0)) tok = Some (?c, True)"
    by (subst issued_token_parses [OF sample_jwt_lawful sample_uuid_lawful i m(3) _ m(1) _ refl])
       (simp_all add: m(2) sample_answer_def NewNumericDate_def)
  moreover have "uuid_Parse sample_ext (claims_Subject ?c) = Some 7" by (rule claims_subject [OF sample_uuid_lawful]) simp
  ultimately have "WS sample_ext ?m (\<lambda>_. None) (ws_request tok) ?w = (Inr ((writeJSON 101 NoBody)\<lparr>resp_Upgrade := Some 7\<rparr>), tick ?w)"
    using n by (simp add: WS_def ws_request_def Manager_Parse_def bindE_def time_Now_def returnE_def request_world_def Let_def)
  moreover have "routed (sample_net []) (\<lambda>_. []) (ws_request tok) = ws_request tok"
    by (simp add: routed_def sample_net_def ws_request_def sample_request_def)
  ultimately have "serve sample_ext (sample_net []) sample_deps h ''GET'' ''/ws'' (ws_request tok) ?w =
      (Inr ((writeJSON 101 NoBody)\<lparr>resp_Upgrade := Some 7\<rparr>), tick ?w)"
    using serve_route [OF sample_chi [OF ws_route, of "[]"] ws_route, of sample_ext sample_deps h "ws_request tok"]
    by (simp add: guards_def public_endpoints_def answered_written) (simp add: sample_net_def answered_written)
  then show ?thesis by (intro exI conjI) (assumption, simp)
qed

text \<open>The \<^verbatim>\<open>GET\<close> request that opens a connection.\<close>

lemma sample_connect:
  "\<exists>tok s. request_step sample_ext (sample_net []) sample_deps ''GET'' ''/ws'' (ws_request tok) sys_started s \<and>
     sys_ws s = (sys_ws sys_started)\<lparr>ws_conns := [1 \<mapsto> NewClient 7]\<rparr>"
proof -
  obtain tok resp w1 where run: "serve sample_ext (sample_net []) sample_deps (ws_hub (sys_ws sys_started)) ''GET'' ''/ws''
     (ws_request tok) (request_world sample_answer sys_started) = (Inr resp, w1)" "resp_Upgrade resp = Some 7"
    using sample_upgrade by blast
  have "ws_conns (sys_ws sys_started) 1 = None" by (simp add: sys_started_def)
  from upgrade [OF run this] show ?thesis by (intro exI conjI) (assumption, simp add: sys_started_def)
qed

theorem get_is_safe_witness:
  "\<exists>tok s now claims. request_step sample_ext (sample_net []) sample_deps ''GET'' ''/ws'' (ws_request tok) sys_started s \<and>
     sys_ws s \<noteq> sys_ws sys_started \<and> w_db (sys_world s) = migrated 11 12 13 \<and> sys_pending s = [] \<and>
     jwt_ParseWithClaims sample_ext (key_func (jwt_of sample_deps)) (mgr_issuer (jwt_of sample_deps)) [''HS256''] now tok =
       Some (claims, True)"
proof -
  obtain tok s where s: "request_step sample_ext (sample_net []) sample_deps ''GET'' ''/ws'' (ws_request tok) sys_started s"
    "sys_ws s = (sys_ws sys_started)\<lparr>ws_conns := [1 \<mapsto> NewClient 7]\<rparr>"
    using sample_connect by blast
  then have ne: "sys_ws s \<noteq> sys_ws sys_started" by (simp add: sys_started_def)
  with get_is_safe [OF sample_chi [OF ws_route, of "[]"] ws_route _ sample_net_lawful s(1)]
  show ?thesis using s(1) by (auto simp: ws_request_def sys_started_def)
qed

lemma sample_online:
  "\<exists>s. sys_reachable sample_ext (sample_net []) sample_deps s \<and>
     (\<exists>cl. ws_conns (sys_ws s) 1 = Some cl \<and> cl_userID cl = 7 \<and> registered cl)"
proof -
  let ?c = "NewClient 7"
  obtain tok s where req: "request_step sample_ext (sample_net []) sample_deps ''GET'' ''/ws'' (ws_request tok) sys_started s"
    and ws: "sys_ws s = (sys_ws sys_started)\<lparr>ws_conns := [1 \<mapsto> NewClient 7]\<rparr>"
    using sample_connect by blast
  have s: "sys_reachable sample_ext (sample_net []) sample_deps s"
    by (rule reach_step [OF sys_started_reachable request [OF req]])
  obtain h first where h: "hub_register 1 7 (ws_hub (sys_ws s)) = (h, first)" by fastforce
  let ?cl = "?c\<lparr>cl_pc := if first then Announce True else Reading, cl_writing := \<not> first\<rparr>"
  let ?t = "(sys_ws s)\<lparr>ws_hub := h, ws_conns := (ws_conns (sys_ws s))(1 \<mapsto> ?cl)\<rparr>"
  have "conn_step (sys_ws s) ?t"
    by (rule conn_step.register) (use h in \<open>simp_all add: ws sys_started_def NewClient_def\<close>)
  then have "sys_reachable sample_ext (sample_net []) sample_deps (s\<lparr>sys_ws := ?t\<rparr>)"
    by (intro reach_step [OF s] goroutine) simp
  moreover have "ws_conns (sys_ws (s\<lparr>sys_ws := ?t\<rparr>)) 1 = Some ?cl" "cl_userID ?cl = 7" "registered ?cl"
    by (simp_all add: NewClient_def registered_def)
  ultimately show ?thesis by blast
qed

theorem server_safe_witness:
  "\<exists>s. sys_reachable sample_ext (sample_net []) sample_deps s \<and> db_ok sample_ext (w_db (sys_world s)) \<and>
     IsOnline 7 (ws_hub (sys_ws s))"
  using sample_online server_safe [where X = sample_ext and N = "sample_net []" and D = sample_deps and u = 7] by blast

text \<open>Carol, registered on the sample tables, logs in while the clock stands still.\<close>

definition still_world :: "db \<Rightarrow> world" where
  "still_world d = (sample_world d)\<lparr>w_env := (\<lambda>n. (sample_answer n)\<lparr>ans_now := 1000000\<rparr>)\<rparr>"

lemma still_world_simps [simp]:
  "calm (still_world d)" "w_db (still_world d) = d" "ans_now (w_env (still_world d) n) = 1000000" "w_tick (still_world d) = 0"
  by (simp_all add: still_world_def calm_def sample_answer_def)

definition carol_login :: request where
  "carol_login = sample_request\<lparr>rq_Body := Some (JObject
     [(''identifier'', JString ''carol''), (''password'', JString ''sesame-street'')])\<rparr>"

lemma carol_login_decodes: "decode_loginRequest carol_login = Some (''carol'', ''sesame-street'')"
proof -
  have "\<not> EqualFold ''identifier'' ''password''" "\<not> EqualFold ''password'' ''identifier''" "EqualFold s s" for s
    by (simp_all add: EqualFold_def runes_ascii del: runes.simps)
  then show ?thesis by (simp add: decode_loginRequest_def carol_login_def decodeJSON_def json_str_def)
qed

lemma Register_ID:
  assumes "AuthService_Register X S username email password w = (Inr u, w1)"
  shows "user_ID u = ans_uuid (w_env w (Suc (w_tick w)))"
proof -
  from assms obtain h w2 w3 nu where h: "PasswordHasher_Hash X (as_hasher S) (TrimSpace password) w = (Inr h, w2)"
    and c: "UserStore_Create X nu w2 = (Inr u, w3)"
    by (auto simp: AuthService_Register_def Let_def bindE_Inr_iff mapErrE_Inr_iff split: if_splits)
  have "w2 = tick w"
    using h by (auto simp: PasswordHasher_Hash_def bindE_Inr_iff rand_Read_def Let_def split: if_splits option.splits)
  with c show ?thesis
    by (auto simp: UserStore_Create_def mapErrE_Inr_iff sql_users_insert_def Let_def stmt_answer_def dest!: sql_Inr split: if_splits)
qed

abbreviation carol_db :: db where
  "carol_db \<equiv> w_db Auth_Service.registered"

lemma Register_roles:
  assumes "AuthService_Register X S username email password w = (Inr u, w1)"
  shows "roles (w_db w1) = roles (w_db w)"
proof -
  have st: "stmt_keeps (\<lambda>d. roles d = R) (sql_users_insert X nu)" "stmt_keeps (\<lambda>d. roles d = R) (sql_user_roles_insert i p)" for R nu i p
    by (rule stmt_keepsI, auto simp: sql_users_insert_def sql_user_roles_insert_def Let_def split: if_splits)+
  have "keeps (on_db (\<lambda>d. roles d = R)) (AuthService_Register X S username email password)" for R
    unfolding AuthService_Register_def user_store_defs Let_def by (intro keeps_intros st)
  from keeps_dbD [OF this _ assms] show ?thesis by simp
qed

theorem login_then_me_witness:
  "\<exists>resp w1 tok user rs w3. Auth_Login sample_ext (NewAuthService (deps_Config sample_deps)) carol_login (still_world carol_db) = (Inr resp, w1) \<and>
     resp_Body resp = LoginBody tok user rs \<and> user_Username user = ''carol'' \<and>
     serve sample_ext (sample_net []) sample_deps NewHub ''GET'' ''/api/v1/auth/me'' (bearer tok) (still_world (w_db w1)) =
       (Inr (writeJSON 200 (ProfileBody user rs)), w3)"
proof -
  have svc: "NewAuthService (deps_Config sample_deps) = sample_service" by (simp add: sample_deps_def sample_service_def)
  let ?R = "AuthService_Register sample_ext sample_service ''carol'' ''carol@example.org'' ''sesame-street'' (sample_world sample_db)"
  obtain u where reg: "?R = (Inr u, snd ?R)" using sample_register by blast
  have db: "carol_db = w_db (snd ?R)" by (simp add: Auth_Service.registered_def)
  have "login_env sample_ext ''agent'' [] (still_world carol_db)" using sample_login_env registered_facts by simp
  from Register_then_Login [OF reg _ sample_service_params sample_argon2_lawful sample_jwt_signs this] sample_db_ok db
  obtain t w1 where login: "AuthService_Login sample_ext sample_service ''carol'' ''sesame-street'' ''agent'' [] (still_world carol_db) = (Inr t, w1)"
    and t: "tok_User t = u" by (auto simp: sample_trims)
  let ?resp = "setRefreshCookie (as_cfg sample_service) (tok_RefreshToken t) (writeJSON 200 (LoginBody (tok_AccessToken t) u (tok_Roles t)))"
  have "clientIP carol_login = []" by (simp add: clientIP_def carol_login_def sample_request_def SplitHostPort_no_colon)
  then have auth: "Auth_Login sample_ext (NewAuthService (deps_Config sample_deps)) carol_login (still_world carol_db) = (Inr ?resp, w1)"
    using login t unfolding svc Auth_Login_def carol_login_decodes
    by (simp add: respond_Inr) (simp add: carol_login_def sample_request_def respond_Inr)
  have u: "user_Username u = ''carol''" "user_ID u < 2 ^ 128"
    using Register_Inr [OF reg] Register_ID [OF reg] by (simp_all add: sample_trims sample_answer_def)
  have "roles (w_db w1) = roles sample_db" using Login_effect [OF login] Register_roles [OF reg] db by simp
  then have "set (tok_Roles t) \<subseteq> {''admin'', ''moderator'', ''member''}"
    using Login_effect [OF login] by (auto simp: roles_of_def sample_db_def migrated_def)
  then have rs: "list_all valid_utf8 (tok_Roles t)" by (auto simp: list_all_iff intro!: valid_utf8_ascii simp del: valid_utf8.simps)
  obtain n where tok: "tok_AccessToken t = dec_digits n"
    using Login_token [OF login] by (auto simp: NewAccessToken_def Manager_issue_def bindE_def time_Now_def sample_ext_def)
  have iss: "valid_utf8 (cfg_JWTIssuer (deps_Config sample_deps))" "valid_utf8 (user_Username u)"
    using u valid_utf8_ascii [of "''masoniccore''"] valid_utf8_ascii [of "''carol''"]
    by (simp_all add: sample_deps_def Load_def getenv_def del: valid_utf8.simps)
  have r: "map_of routes (''GET'', ''/api/v1/auth/me'') = Some ([UseRequireAuth], EMe)" by (simp add: routes_def NewRouter_def)
  have "db_ok sample_ext carol_db" using registered_facts by simp
  then have "\<exists>w3. serve sample_ext (sample_net []) sample_deps NewHub ''GET'' ''/api/v1/auth/me'' (bearer (tok_AccessToken t))
      (still_world (w_db w1)) = (Inr (writeJSON 200 (ProfileBody u (tok_Roles t))), w3)"
    using login_then_me [OF sample_jwt_lawful sample_uuid_lawful _ auth _ iss(2) rs iss(1) u(2) _ _ _ sample_chi [OF r, of "[]"],
        of "tok_AccessToken t" "bearer (tok_AccessToken t)" "still_world (w_db w1)" 1000000 NewHub] tok digits_no_space
    by (auto simp: bearer_def setRefreshCookie_def Let_def NewNumericDate_def sample_deps_def sample_ttl)
  moreover have "resp_Body ?resp = LoginBody (tok_AccessToken t) u (tok_Roles t)" by (simp add: setRefreshCookie_def)
  ultimately show ?thesis using auth u(1) by blast
qed

end
