(* ===== verification/Privacy.thy ===== *)
theory Privacy
  imports Server
begin

text \<open>
  Whom an event reaches. The hub is followed with the list of every notification that has been put
  into its channel; what is written to a connection is then traced back to a notification that was
  addressed to the connection's user or to everyone. The handler of \<^verbatim>\<open>POST /pms\<close> is the only one that
  notifies; it is studied with an arbitrary \<^verbatim>\<open>Send\<close> operation in place of the message service's,
  because that one always fails on the database (\<open>send_never_succeeds\<close> of \<open>Message_Service\<close>).
\<close>

section \<open>Runs of the hub with their notifications\<close>

definition notified :: "ws \<Rightarrow> ws \<Rightarrow> notify list" where
  "notified s t = drop (length (hub_notifyCh (ws_hub s))) (hub_notifyCh (ws_hub t))"

inductive ws_run :: "notify list \<Rightarrow> ws \<Rightarrow> bool" where
  run_init: "ws_init s \<Longrightarrow> ws_run [] s"
| run_step: "ws_run L s \<Longrightarrow> ws_step s t \<Longrightarrow> ws_run (L @ notified s t) t"

lemma ws_run_reachable: "ws_run L s \<Longrightarrow> ws_reachable s"
  by (induction rule: ws_run.induct) (auto intro: reach_init reach_step)

lemma sys_ws_run:
  assumes "sys_reachable X N D s"
  shows "\<exists>L. ws_run L (sys_ws s)"
  using assms
proof (induction rule: reach.induct)
  case (reach_init s)
  then show ?case by (auto simp: sys_init_def intro: run_init)
next
  case (reach_step s t)
  with sys_step_ws [OF reach_step.hyps(2)] show ?case by (auto intro: run_step)
qed

section \<open>What reaches a connection\<close>

text \<open>\<open>M u ev\<close> says that the user may see the event.\<close>

definition addressed :: "(uuid \<Rightarrow> Event \<Rightarrow> bool) \<Rightarrow> notify \<Rightarrow> bool" where
  "addressed M n \<longleftrightarrow> (\<forall>u. notify_userID n = uuid_Nil \<or> notify_userID n = u \<longrightarrow> M u (notify_event n))"

definition confined_conns :: "(uuid \<Rightarrow> Event \<Rightarrow> bool) \<Rightarrow> (cid \<rightharpoonup> client) \<Rightarrow> bool" where
  "confined_conns M m \<longleftrightarrow> (\<forall>c cl. m c = Some cl \<longrightarrow> list_all (M (cl_userID cl)) (cl_accepted cl))"

definition confined_job :: "(uuid \<Rightarrow> Event \<Rightarrow> bool) \<Rightarrow> (Event \<times> cid set) option \<Rightarrow> (cid \<rightharpoonup> client) \<Rightarrow> bool" where
  "confined_job M j m \<longleftrightarrow>
     (\<forall>ev R c cl. j = Some (ev, R) \<longrightarrow> c \<in> R \<longrightarrow> m c = Some cl \<longrightarrow> M (cl_userID cl) ev)"

definition confined :: "(uuid \<Rightarrow> Event \<Rightarrow> bool) \<Rightarrow> ws \<Rightarrow> bool" where
  "confined M s \<longleftrightarrow> list_all (addressed M) (hub_notifyCh (ws_hub s)) \<and> (\<forall>n. ws_taken s = Some n \<longrightarrow> addressed M n) \<and>
     confined_job M (ws_job s) (ws_conns s) \<and> confined_conns M (ws_conns s)"

lemma confined_mono:
  assumes "confined M s" "\<And>u ev. M u ev \<Longrightarrow> M' u ev"
  shows "confined M' s"
proof -
  have "addressed M n \<Longrightarrow> addressed M' n" for n using assms(2) by (auto simp: addressed_def)
  moreover have "list_all (M u) evs \<Longrightarrow> list_all (M' u) evs" for u evs using assms(2) by (auto simp: list_all_iff)
  ultimately show ?thesis using assms unfolding confined_def confined_job_def confined_conns_def list_all_iff by blast
qed

text \<open>Replacing a connection by one of the same user that accepted nothing else.\<close>

lemma confined_update:
  assumes "confined_conns M m" "confined_job M j m" "m c = Some cl" "cl_userID cl' = cl_userID cl" "cl_accepted cl' = cl_accepted cl"
  shows "confined_conns M (m(c \<mapsto> cl'))" "confined_job M j (m(c \<mapsto> cl'))"
  using assms by (fastforce simp: confined_conns_def confined_job_def split: if_splits)+

lemma register_channel: "hub_register c u h = (h', b) \<Longrightarrow> hub_notifyCh h' = hub_notifyCh h"
  by (auto simp: hub_register_def Let_def)

lemma unregister_channel: "hub_unregister c u h = (h', b) \<Longrightarrow> hub_notifyCh h' = hub_notifyCh h"
  by (auto simp: hub_unregister_def Let_def split: if_splits)

lemma conn_step_confined:
  "conn_step s t \<Longrightarrow> confined M s \<Longrightarrow> list_all (addressed M) (notified s t) \<Longrightarrow> confined M t"
proof (induction rule: conn_step.induct)
  case (register s c cl h first)
  then show ?case using register_channel [of c "cl_userID cl" "ws_hub s"]
    by (auto simp: confined_def intro!: confined_update)
next
  case (announce s c cl on)
  then show ?case
    by (auto simp: confined_def notified_def broadcastPresence_def hub_Broadcast_def hub_Notify_def intro!: confined_update)
next
  case (read_end s c cl)
  then show ?case by (auto simp: confined_def set_pc_def intro!: confined_update)
next
  case (unregister s c cl h gone)
  then show ?case using unregister_channel [of c "cl_userID cl" "ws_hub s"]
    by (auto simp: confined_def intro!: confined_update)
next
  case (close s c cl)
  then show ?case by (auto simp: confined_def put_conn_def close_send_def intro!: confined_update split: option.split)
qed

lemma write_step_confined: "write_step s t \<Longrightarrow> confined M s \<Longrightarrow> confined M t"
  by (induction rule: write_step.induct) (auto simp: confined_def intro!: confined_update)

lemma env_step_confined:
  "env_step s t \<Longrightarrow> ws_inv s \<Longrightarrow> confined M s \<Longrightarrow> list_all (addressed M) (notified s t) \<Longrightarrow> confined M t"
proof (induction rule: env_step.induct)
  case (connect s c u)
  then show ?case
    by (fastforce simp: ws_inv_def job_ok_def confined_def confined_job_def confined_conns_def NewClient_def)
qed (auto simp: confined_def notified_def hub_Notify_def)

lemma recipients_addressed:
  assumes "conns_ok h m" "addressed M n" "c \<in> recipients n h" "m c = Some cl"
  shows "M (cl_userID cl) (notify_event n)"
  using assms by (auto simp: recipients_conns conns_ok_def addressed_def split: if_splits)

lemma hub_step_confined: "hub_step s t \<Longrightarrow> ws_inv s \<Longrightarrow> confined M s \<Longrightarrow> confined M t"
proof (induction rule: hub_step.induct)
  case (take_notify s n rest)
  then show ?case by (simp add: confined_def confined_job_def)
next
  case (deliver_start s n)
  then show ?case using recipients_addressed [of "ws_hub s" "ws_conns s" M n]
    by (auto simp: confined_def confined_job_def ws_inv_def)
next
  case (queue_one s ev R c cl)
  then have "M (cl_userID cl) ev" by (auto simp: confined_def confined_job_def)
  with queue_one show ?case
    by (auto simp: confined_def confined_job_def confined_conns_def put_conn_def queue_def split: option.splits if_splits)
next
  case (deliver_done s ev)
  then show ?case by (simp add: confined_def confined_job_def)
qed

text \<open>The events a user was sent: those of a notification to the user or to everyone.\<close>

definition sent_to :: "notify list \<Rightarrow> uuid \<Rightarrow> Event \<Rightarrow> bool" where
  "sent_to L u ev \<longleftrightarrow> (\<exists>n \<in> set L. notify_event n = ev \<and> (notify_userID n = u \<or> notify_userID n = uuid_Nil))"

lemma sent_to_addressed: "n \<in> set L \<Longrightarrow> addressed (sent_to L) n"
  by (auto simp: addressed_def sent_to_def)

lemma ws_run_confined: "ws_run L s \<Longrightarrow> confined (sent_to L) s"
proof (induction rule: ws_run.induct)
  case (run_init s)
  then show ?case by (simp add: ws_init_def NewHub_def confined_def confined_job_def confined_conns_def)
next
  case (run_step L s t)
  let ?M = "sent_to (L @ notified s t)"
  have inv: "ws_inv s" by (rule wsS.reach_inv [OF ws_run_reachable [OF run_step.hyps(1)]])
  have "confined ?M s" by (rule confined_mono [OF run_step.IH]) (auto simp: sent_to_def)
  moreover have "list_all (addressed ?M) (notified s t)" by (auto simp: list_all_iff intro: sent_to_addressed)
  ultimately show ?case using run_step.hyps(2) inv
    unfolding ws_step_def using hub_step_confined conn_step_confined write_step_confined env_step_confined by blast
qed

lemma written_sent:
  assumes "ws_run L s" "ws_conns s c = Some cl" "ev \<in> set (cl_out cl)"
  shows "sent_to L (cl_userID cl) ev"
proof -
  have "client_ok cl" using client_of [OF wsS.reach_inv [OF ws_run_reachable [OF assms(1)]] assms(2)] .
  then have "ev \<in> set (cl_accepted cl)" using assms(3) set_mono_prefix by (auto simp: client_ok_def)
  then show ?thesis using ws_run_confined [OF assms(1)] assms(2)
    by (fastforce simp: confined_def confined_conns_def list_all_iff)
qed

section \<open>What the handlers tell the hub\<close>

text \<open>What the handler of \<^verbatim>\<open>POST /pms\<close> relies on of the message service: \<^verbatim>\<open>Send\<close> does not notify by
  itself, and the message it returns is for the recipient it was given.\<close>

definition send_lawful :: "(uuid \<Rightarrow> uuid \<Rightarrow> string \<Rightarrow> PrivateMessage dbop) \<Rightarrow> bool" where
  "send_lawful send \<longleftrightarrow>
     (\<forall>s u b w. w_notify (snd (send s u b w)) = w_notify w) \<and>
     (\<forall>s u b w m w1. send s u b w = (Inr m, w1) \<longrightarrow> pm_RecipientID m = u)"

lemma keeps_notify_eq: "(\<And>I. keeps (on_notify I) m) \<Longrightarrow> w_notify (snd (m w)) = w_notify w"
  using keepsD [of "on_notify (\<lambda>n. n = w_notify w)" m w] by (simp add: on_notify_def)

lemma MessageService_Send_lawful: "send_lawful MessageService_Send"
proof -
  have "returns (\<lambda>m. pm_RecipientID m = newpm_RecipientID n) (MessageStore_Send n)" for n
    unfolding MessageStore_Send_def returns_def
    by (auto simp: sql_messages_insert_def Let_def dest!: sql_Inr split: if_splits)
  then have "returns (\<lambda>m. pm_RecipientID m = u) (MessageService_Send s u b)" for s u b
    by (auto simp: returns_def MessageService_Send_def Let_def bindE_Inr_iff split: if_splits) fastforce
  moreover have "keeps (on_notify I) (MessageService_Send s u b)" for I s u b
    unfolding program_defs Let_def by (intro keeps_intros)+
  ultimately show ?thesis by (auto simp: send_lawful_def returns_def keeps_notify_eq)
qed

lemma OnPrivateMessage_facts:
  assumes "NotificationService_OnPrivateMessage X m w = (z, w1)"
  shows "w_notify w1 = w_notify w" "z = Inr n \<Longrightarrow> notif_UserID n = pm_RecipientID m"
proof -
  have "keeps (on_notify I) (NotificationService_OnPrivateMessage X m)" for I
    unfolding program_defs Let_def by (intro keeps_intros)
  from keeps_notify_eq [OF this, of w] assms show "w_notify w1 = w_notify w" by simp
  show "z = Inr n \<Longrightarrow> notif_UserID n = pm_RecipientID m"
    using assms unfolding NotificationService_OnPrivateMessage_def NotificationStore_Create_def Let_def
    by (auto simp: sql_notifications_insert_def Let_def dest!: sql_Inr split: if_splits)
qed

text \<open>The two notifications of a sent message.\<close>

definition message_notifications :: "uuid \<Rightarrow> PrivateMessage \<Rightarrow> Notification \<Rightarrow> notify list" where
  "message_notifications u msg n =
     [\<lparr>notify_userID = u, notify_event = \<lparr>event_Type = ''pm'', event_Data = DataMessage msg\<rparr>\<rparr>,
      \<lparr>notify_userID = u, notify_event = \<lparr>event_Type = ''notification'', event_Data = DataNotification n\<rparr>\<rparr>]"

lemma Send_via_notifies:
  assumes lawful: "send_lawful send" and run: "Messages_Send_via send X (Some h) ctx r w = (z, w1)"
  shows "w_notify w1 = w_notify w \<or>
    (\<exists>u rcp body msg n. ctx = Some u \<and> decode_sendMessageRequest X r = Some (rcp, body) \<and> rcp \<noteq> uuid_Nil \<and>
       pm_RecipientID msg = rcp \<and> notif_UserID n = rcp \<and> w_notify w1 = w_notify w @ message_notifications rcp msg n)"
proof (cases "\<exists>u rcp body. ctx = Some u \<and> decode_sendMessageRequest X r = Some (rcp, body) \<and> rcp \<noteq> uuid_Nil")
  case False
  then have "w1 = w" using run
    by (auto simp: Messages_Send_via_def with_user_def authUser_def FromContext_def returnE_def split: option.splits if_splits)
  then show ?thesis by simp
next
  case True
  then obtain u rcp body where args: "ctx = Some u" "decode_sendMessageRequest X r = Some (rcp, body)" "rcp \<noteq> uuid_Nil" by blast
  obtain y wa where send: "send (ui_ID u) rcp body w = (y, wa)" by fastforce
  have wa: "w_notify wa = w_notify w" using lawful send unfolding send_lawful_def by (metis snd_conv)
  show ?thesis
  proof (cases y)
    case (Inl e)
    then have "w1 = wa" using run args send by (auto simp: Messages_Send_via_def op_defs)
    with wa show ?thesis by simp
  next
    case (Inr msg)
    have rcp: "pm_RecipientID msg = rcp" using lawful send Inr unfolding send_lawful_def by blast
    obtain v wb where onpm: "NotificationService_OnPrivateMessage X msg wa = (v, wb)" by fastforce
    note wb = OnPrivateMessage_facts [OF onpm]
    show ?thesis
    proof (cases v)
      case (Inl e)
      then have "w1 = wb" using run args send Inr onpm \<open>y = Inr msg\<close> by (auto simp: Messages_Send_via_def op_defs)
      with wa wb show ?thesis by simp
    next
      case (Inr n)
      then have "w_notify w1 = w_notify wb @ message_notifications rcp msg n"
        using run args send onpm \<open>y = Inr msg\<close>
        by (auto simp: Messages_Send_via_def op_defs notify_hub_def message_notifications_def)
      with args rcp wa wb(1) wb(2) [OF Inr] show ?thesis by auto
    qed
  qed
qed

text \<open>The notifications of the program: announcements of presence, to everyone, and what the handler
  of \<^verbatim>\<open>POST /pms\<close> hands to the hub, over some lawful \<^verbatim>\<open>Send\<close>.\<close>

definition program_notify :: "ext \<Rightarrow> notify \<Rightarrow> bool" where
  "program_notify X n \<longleftrightarrow>
     (\<exists>u b. n = \<lparr>notify_userID = uuid_Nil, notify_event = presence_event u b\<rparr>) \<or>
     (\<exists>send h ctx r w. send_lawful send \<and> w_notify w = [] \<and>
        n \<in> set (w_notify (snd (Messages_Send_via send X (Some h) ctx r w))))"

lemma program_notify_cases:
  assumes "program_notify X n"
  obtains (presence) u b where "n = \<lparr>notify_userID = uuid_Nil, notify_event = presence_event u b\<rparr>"
  | (message) msg where "notify_event n = \<lparr>event_Type = ''pm'', event_Data = DataMessage msg\<rparr>"
      "notify_userID n = pm_RecipientID msg" "notify_userID n \<noteq> uuid_Nil"
  | (notification) nt where "notify_event n = \<lparr>event_Type = ''notification'', event_Data = DataNotification nt\<rparr>"
      "notify_userID n = notif_UserID nt" "notify_userID n \<noteq> uuid_Nil"
  using assms unfolding program_notify_def
proof (elim disjE exE conjE)
  fix send h ctx r w
  assume s: "send_lawful send" "w_notify w = []" "n \<in> set (w_notify (snd (Messages_Send_via send X (Some h) ctx r w)))"
  from Send_via_notifies [OF s(1) prod.collapse [symmetric], of X h ctx r w] s(2,3) obtain rcp msg nt where
    "rcp \<noteq> uuid_Nil" "pm_RecipientID msg = rcp" "notif_UserID nt = rcp" "n \<in> set (message_notifications rcp msg nt)"
    by auto
  then show thesis using message notification by (auto simp: message_notifications_def)
qed (use presence in blast)

text \<open>Requests and goroutines of the server put no other notification into the channel.\<close>

lemma serve_notifies:
  assumes "serve X N D h meth path r w = (z, w1)" "w_notify w = []" "n \<in> set (w_notify w1)"
  shows "program_notify X n"
proof -
  have "\<exists>key param ms. net_chi N (map fst routes) meth path = Inr (key, param) \<and> map_of routes key = Some (ms, ESend)"
  proof (rule ccontr)
    assume no: "\<not> ?thesis"
    have "keeps (on_notify (\<lambda>l. l = [])) (serve X N D h meth path r)"
    proof (rule keeps_serve)
      fix key param ms e ctx
      assume "net_chi N (map fst routes) meth path = Inr (key, param)" "map_of routes key = Some (ms, e)"
      with no have "e \<noteq> ESend" by blast
      then show "keeps (on_notify (\<lambda>l. l = [])) (dispatch X N D h (routed N param r) e ctx)" by (rule dispatch_notify)
    qed (rule keeps_notify_env)
    from keeps_resultD [OF this _ assms(1)] assms(2,3) show False by (simp add: on_notify_def)
  qed
  then obtain key param ms where route: "net_chi N (map fst routes) meth path = Inr (key, param)" "map_of routes key = Some (ms, ESend)"
    by blast
  note protected = serve_protected [OF route _ refl, where w = w and X = X and D = D and h = h and r = r]
  show ?thesis
  proof (cases "caller X (jwt_of D) (ans_now (w_env w (w_tick w))) r")
    case None
    with assms have "w_notify w1 = []" using protected
      by (auto simp: endpoint_kinds refused_def)
    with assms(3) show ?thesis by simp
  next
    case (Some u)
    with assms(1) have "w1 = snd (Messages_Send_via MessageService_Send X (Some h) (Some u) (routed N param r) (tick w))"
      using protected
      by (simp add: endpoint_kinds Messages_Send_def) (metis answered_world snd_conv)
    moreover have "w_notify (tick w) = []" using assms(2) by simp
    ultimately show ?thesis using MessageService_Send_lawful assms(3) unfolding program_notify_def by blast
  qed
qed

lemma quiet_notified:
  "hub_step s t \<Longrightarrow> notified s t = []" "write_step s t \<Longrightarrow> notified s t = []"
  by (auto simp: notified_def put_conn_def split: option.splits elim!: hub_stepE write_stepE)

lemma conn_step_notified:
  assumes "conn_step s t" "n \<in> set (notified s t)"
  shows "program_notify X n"
  using assms
proof cases
  case (register c cl h first)
  with assms(2) register_channel [OF register(5)] show ?thesis by (simp add: notified_def)
next
  case (announce c cl on)
  with assms(2) show ?thesis
    by (auto simp: notified_def broadcastPresence_def hub_Broadcast_def hub_Notify_def program_notify_def)
next
  case (unregister c cl h gone)
  with assms(2) unregister_channel [OF unregister(5)] show ?thesis by (simp add: notified_def)
qed (use assms(2) in \<open>auto simp: notified_def set_pc_def put_conn_def split: option.splits\<close>)

lemma sys_run:
  assumes "sys_reachable X N D s"
  shows "(\<exists>L. ws_run L (sys_ws s) \<and> (\<forall>n \<in> set L. program_notify X n)) \<and> (\<forall>n \<in> set (sys_pending s). program_notify X n)"
  using assms
proof (induction rule: reach.induct)
  case (reach_init s)
  then have "ws_run [] (sys_ws s)" "sys_pending s = []" by (auto simp: sys_init_def intro: run_init)
  then show ?case by (intro conjI exI [of _ "[]"]) simp_all
next
  case (reach_step s t)
  then obtain L where L: "ws_run L (sys_ws s)" "\<forall>n \<in> set L. program_notify X n"
    and pend: "\<forall>n \<in> set (sys_pending s). program_notify X n" by blast
  have go: "\<exists>K. ws_run K (sys_ws t) \<and> (\<forall>n \<in> set K. program_notify X n)"
    if "ws_step (sys_ws s) (sys_ws t)" "\<forall>n \<in> set (notified (sys_ws s) (sys_ws t)). program_notify X n"
    using run_step [OF L(1) that(1)] L(2) that(2) by (intro exI [of _ "L @ notified (sys_ws s) (sys_ws t)"]) auto
  from reach_step.hyps(2) show ?case
  proof cases
    case (request meth path r)
    from request show ?thesis
    proof cases
      case (answer env resp w1)
      with L pend serve_notifies [OF answer(2)] show ?thesis by (auto simp: request_world_def)
    next
      case (upgrade env resp w1 u c)
      have "ws_step (sys_ws s) (sys_ws t)" using upgrade by (auto simp: ws_step_def intro: env_step.connect)
      moreover have "notified (sys_ws s) (sys_ws t) = []" using upgrade(1) by (simp add: notified_def)
      ultimately show ?thesis using go upgrade(1) pend serve_notifies [OF upgrade(2)] by (auto simp: request_world_def)
    qed
  next
    case (hand_over ps n qs)
    have "ws_step (sys_ws s) (sys_ws t)" using hand_over by (auto simp: ws_step_def intro: env_step.notify)
    moreover have "notified (sys_ws s) (sys_ws t) = [n]" using hand_over(1) by (simp add: notified_def hub_Notify_def)
    ultimately show ?thesis using go hand_over(1,2) pend by auto
  next
    case (goroutine u)
    then have "ws_step (sys_ws s) (sys_ws t)" by (auto simp: ws_step_def)
    moreover have "\<forall>n \<in> set (notified (sys_ws s) (sys_ws t)). program_notify X n"
      using goroutine quiet_notified conn_step_notified by auto
    ultimately show ?thesis using go goroutine(1) pend by simp
  qed
qed

section \<open>Privacy\<close>

text \<open>C4: Events are private. Every event written to a connection stems from a notification that the
  program put into the hub's channel: a private message or a notification only if it is for the
  connection's own user and was addressed to that user, and otherwise an announcement of presence.
  This holds for every run of the hub whose notifications are the program's, also with any \<^verbatim>\<open>Send\<close>
  that works, in place of the one that always fails; the running server only has such runs. A
  connection is opened only for the user of a valid access token.\<close>

theorem events_private:
  "(ws_run L s \<and> (\<forall>n \<in> set L. program_notify X n) \<and> ws_conns s c = Some cl \<and> ev \<in> set (cl_out cl) \<longrightarrow>
      (\<exists>n \<in> set L. notify_event n = ev \<and>
        (case event_Data ev of
           DataMessage m \<Rightarrow> notify_userID n = cl_userID cl \<and> pm_RecipientID m = cl_userID cl
         | DataNotification k \<Rightarrow> notify_userID n = cl_userID cl \<and> notif_UserID k = cl_userID cl
         | DataPresence v online \<Rightarrow> notify_userID n = uuid_Nil \<and> ev = presence_event v online))) \<and>
   (sys_reachable X N D S \<longrightarrow> (\<exists>K. ws_run K (sys_ws S) \<and> (\<forall>n \<in> set K. program_notify X n))) \<and>
   (net_chi N (map fst routes) meth path = Inr (key, param) \<and> map_of routes key = Some (ms, e) \<and> upgrade_lawful N \<and>
    serve X N D h meth path r w = (Inr resp, w1) \<and> resp_Upgrade resp = Some u \<longrightarrow>
      (\<exists>claims. jwt_ParseWithClaims X (key_func (jwt_of D)) (mgr_issuer (jwt_of D)) [''HS256''] (ans_now (w_env w (w_tick w)))
        (rq_Query r ''access_token'') = Some (claims, True) \<and> uuid_Parse X (claims_Subject claims) = Some u))"
proof (intro conjI impI)
  assume run: "ws_run L s \<and> (\<forall>n \<in> set L. program_notify X n) \<and> ws_conns s c = Some cl \<and> ev \<in> set (cl_out cl)"
  then obtain n where n: "n \<in> set L" "notify_event n = ev" "notify_userID n = cl_userID cl \<or> notify_userID n = uuid_Nil"
    using written_sent [of L s c cl ev] by (auto simp: sent_to_def)
  with run have "program_notify X n" by blast
  then have "case event_Data ev of
      DataMessage m \<Rightarrow> notify_userID n = cl_userID cl \<and> pm_RecipientID m = cl_userID cl
    | DataNotification k \<Rightarrow> notify_userID n = cl_userID cl \<and> notif_UserID k = cl_userID cl
    | DataPresence v online \<Rightarrow> notify_userID n = uuid_Nil \<and> ev = presence_event v online"
    by (cases rule: program_notify_cases) (use n(2,3) in \<open>auto simp: presence_event_def\<close>)
  with n show "\<exists>n \<in> set L. notify_event n = ev \<and>
      (case event_Data ev of
         DataMessage m \<Rightarrow> notify_userID n = cl_userID cl \<and> pm_RecipientID m = cl_userID cl
       | DataNotification k \<Rightarrow> notify_userID n = cl_userID cl \<and> notif_UserID k = cl_userID cl
       | DataPresence v online \<Rightarrow> notify_userID n = uuid_Nil \<and> ev = presence_event v online)"
    by blast
next
  assume "sys_reachable X N D S"
  then show "\<exists>K. ws_run K (sys_ws S) \<and> (\<forall>n \<in> set K. program_notify X n)" using sys_run by blast
next
  assume "net_chi N (map fst routes) meth path = Inr (key, param) \<and> map_of routes key = Some (ms, e) \<and> upgrade_lawful N \<and>
    serve X N D h meth path r w = (Inr resp, w1) \<and> resp_Upgrade resp = Some u"
  then show "\<exists>claims. jwt_ParseWithClaims X (key_func (jwt_of D)) (mgr_issuer (jwt_of D)) [''HS256''] (ans_now (w_env w (w_tick w)))
        (rq_Query r ''access_token'') = Some (claims, True) \<and> uuid_Parse X (claims_Subject claims) = Some u"
    using serve_upgrade by blast
qed

section \<open>Witness\<close>

text \<open>Alice sends Bob a message, over a \<^verbatim>\<open>Send\<close> that works; Bob's connection is written the event.\<close>

definition working_send :: "uuid \<Rightarrow> uuid \<Rightarrow> string \<Rightarrow> PrivateMessage dbop" where
  "working_send s u b = returnE \<lparr>pm_ID = 72, pm_SenderID = s, pm_RecipientID = u, pm_Body = b, pm_ReadAt = None, pm_CreatedAt = 0\<rparr>"

lemma working_send_lawful: "send_lawful working_send"
  by (simp add: send_lawful_def working_send_def returnE_def)

definition send_request :: request where
  "send_request = sample_request\<lparr>rq_Body := Some (JObject [(''recipient_id'', JString (dec_digits 2)), (''body'', JString ''hi'')])\<rparr>"

lemma send_request_decodes: "decode_sendMessageRequest sample_ext send_request = Some (2, ''hi'')"
proof -
  have "\<not> EqualFold ''recipient_id'' ''body''" "\<not> EqualFold ''body'' ''recipient_id''" "EqualFold s s" for s
    by (simp_all add: EqualFold_def runes_ascii del: runes.simps)
  then show ?thesis
    by (simp add: decode_sendMessageRequest_def send_request_def decodeJSON_def json_str_def json_uuid_def digits_roundtrip)
qed

definition sent_message :: PrivateMessage where
  "sent_message = \<lparr>pm_ID = 72, pm_SenderID = 1, pm_RecipientID = 2, pm_Body = ''hi'', pm_ReadAt = None, pm_CreatedAt = 0\<rparr>"

lemma sent_message_facts: "pm_RecipientID sent_message = 2" by (simp add: sent_message_def)

abbreviation message_event :: Event where
  "message_event \<equiv> \<lparr>event_Type = ''pm'', event_Data = DataMessage sent_message\<rparr>"

abbreviation message_notify :: notify where
  "message_notify \<equiv> \<lparr>notify_userID = 2, notify_event = message_event\<rparr>"

lemma pg_text_digits: "pg_text (dec_digits n)"
  using dec_digits_all [of n] by (intro pg_text_ascii) (auto simp: ascii_def list_all_iff)

lemma sent_payload_ok: "jsonb_ok (pm_payload sample_ext sent_message)"
proof -
  have "preview ''hi'' = ''hi''" by (simp add: preview_def runes_ascii RuneCountInString_def del: runes.simps)
  moreover have "pg_text ''hi''" by (rule pg_text_ascii) simp_all
  ultimately show ?thesis using jsonb_ok_text pg_text_digits
    by (simp add: pm_payload_def sent_message_def sample_ext_def)
qed

lemma sent_message_notifies: "program_notify sample_ext message_notify"
proof -
  let ?ctx = "Some \<lparr>ui_ID = 1, ui_Username = ''alice'', ui_Roles = []\<rparr>"
  let ?run = "Messages_Send_via working_send sample_ext (Some NewHub) ?ctx send_request (sample_world sample_db)"
  have "\<exists>n w1. NotificationService_OnPrivateMessage sample_ext sent_message (sample_world sample_db) = (Inr n, w1)"
    by (simp add: NotificationService_OnPrivateMessage_def NotificationStore_Create_def notifTypePM_def sql_calm pg_text_ascii
        sql_notifications_insert_def sent_payload_ok sent_message_facts sample_db_def sample_rows stmt_answer_def sample_answer_def Let_def)
  then obtain n w1 where "NotificationService_OnPrivateMessage sample_ext sent_message (sample_world sample_db) = (Inr n, w1)" by blast
  moreover from OnPrivateMessage_facts(1) [OF this] have "w_notify w1 = []" by simp
  ultimately have "message_notify \<in> set (w_notify (snd ?run))"
    by (simp add: Messages_Send_via_def send_request_decodes op_defs working_send_def notify_hub_def sent_message_def)
  then show ?thesis
    using working_send_lawful unfolding program_notify_def by (metis sample_world_simps(6))
qed

abbreviation bob_client :: "Event list \<Rightarrow> bool \<Rightarrow> Event list \<Rightarrow> client" where
  "bob_client buf reading out \<equiv> \<lparr>cl_userID = 2, cl_send = buf, cl_closed = False,
     cl_pc = if reading then Reading else Announce True, cl_writing = reading, cl_accepted = out @ buf, cl_out = out\<rparr>"

abbreviation bob_ws :: "notify list \<Rightarrow> notify option \<Rightarrow> (Event \<times> cid set) option \<Rightarrow> client \<Rightarrow> ws" where
  "bob_ws ch taken job cl \<equiv>
     \<lparr>ws_hub = \<lparr>hub_clients = [2 \<mapsto> {1}], hub_online = {2}, hub_notifyCh = ch\<rparr>, ws_conns = [1 \<mapsto> cl],
      ws_taken = taken, ws_job = job, ws_running = True, ws_panic = False\<rparr>"

lemma run_on: "ws_run L s \<Longrightarrow> hub_step s t \<or> conn_step s t \<or> write_step s t \<or> env_step s t \<Longrightarrow> K = notified s t \<Longrightarrow> ws_run (L @ K) t"
  using run_step [of L s t] by (simp add: ws_step_def)

lemma bob_online: "ws_run [] (bob_ws [] None None (bob_client [] False []))"
proof -
  let ?s = "\<lparr>ws_hub = NewHub, ws_conns = Map.empty, ws_taken = None, ws_job = None, ws_running = True, ws_panic = False\<rparr>"
  have "ws_run [] ?s" by (rule run_init) (simp add: ws_init_def)
  from run_on [OF this disjI2 [OF disjI2 [OF disjI2 [OF connect [of _ 1 2]]]], where K = "[]"]
  have "ws_run [] (?s\<lparr>ws_conns := [1 \<mapsto> NewClient 2]\<rparr>)" by (simp add: notified_def)
  from run_on [OF this disjI2 [OF disjI1 [OF register [of _ 1 "NewClient 2"]]], where K = "[]"] show ?thesis
    by (simp add: notified_def NewHub_def NewClient_def hub_register_def)
qed

lemma bob_delivered:
  "ws_run [message_notify] (bob_ws [] None None (bob_client [message_event] False []))"
proof -
  from run_on [OF bob_online disjI2 [OF disjI2 [OF disjI2 [OF notify [of _ 2 message_event]]]], where K = "[message_notify]"]
  have "ws_run [message_notify] (bob_ws [message_notify] None None (bob_client [] False []))"
    by (simp add: notified_def hub_Notify_def can_notify_def channel_caps)
  from run_on [OF this disjI1 [OF take_notify [of _ message_notify "[]"]], where K = "[]"]
  have "ws_run [message_notify] (bob_ws [] (Some message_notify) None (bob_client [] False []))"
    by (simp add: notified_def)
  from run_on [OF this disjI1 [OF deliver_start [of _ message_notify]], where K = "[]"]
  have "ws_run [message_notify] (bob_ws [] None (Some (message_event, {1})) (bob_client [] False []))"
    by (simp add: notified_def recipients_def)
  from run_on [OF this disjI1 [OF queue_one [of _ message_event "{1}" 1]], where K = "[]"]
  have "ws_run [message_notify] (bob_ws [] None (Some (message_event, {})) (bob_client [message_event] False []))"
    by (simp add: notified_def queue_def put_conn_def channel_caps)
  from run_on [OF this disjI1 [OF deliver_done [of _ message_event]], where K = "[]"] show ?thesis
    by (simp add: notified_def)
qed

lemma bob_reads:
  "\<exists>L s cl. ws_run L s \<and> (\<forall>n \<in> set L. program_notify sample_ext n) \<and> ws_conns s 1 = Some cl \<and> message_event \<in> set (cl_out cl)"
proof -
  let ?p = "\<lparr>notify_userID = uuid_Nil, notify_event = presence_event 2 True\<rparr>"
  let ?L = "[message_notify, ?p]"
  from run_on [OF bob_delivered disjI2 [OF disjI1 [OF announce [of _ 1 _ True]]], where K = "[?p]"]
  have "ws_run ?L (bob_ws [?p] None None (bob_client [message_event] True []))"
    by (simp add: notified_def can_notify_def channel_caps broadcastPresence_def hub_Broadcast_def hub_Notify_def)
  from run_on [OF this disjI2 [OF disjI2 [OF disjI1 [OF write_event [of _ 1 _ message_event "[]"]]]], where K = "[]"]
  have "ws_run ?L (bob_ws [?p] None None (bob_client [] True [message_event]))"
    by (simp add: notified_def)
  moreover have "program_notify sample_ext ?p" by (auto simp: program_notify_def)
  ultimately show ?thesis using sent_message_notifies
    by (intro exI [of _ ?L] exI [of _ "bob_ws [?p] None None (bob_client [] True [message_event])"] exI conjI) auto
qed

theorem events_private_witness:
  "\<exists>L s cl. ws_run L s \<and> ws_conns s 1 = Some cl \<and> message_event \<in> set (cl_out cl) \<and> cl_userID cl = 2 \<and>
     (\<exists>n \<in> set L. notify_event n = message_event \<and> notify_userID n = 2)"
proof -
  obtain L s cl where run: "ws_run L s \<and> (\<forall>n \<in> set L. program_notify sample_ext n) \<and> ws_conns s 1 = Some cl \<and>
      message_event \<in> set (cl_out cl)"
    using bob_reads by blast
  from conjunct1 [OF events_private, THEN mp, OF run] have "\<exists>n \<in> set L. notify_event n = message_event \<and> notify_userID n = cl_userID cl \<and>
      pm_RecipientID sent_message = cl_userID cl"
    by simp
  moreover have "pm_RecipientID sent_message = 2" by (simp add: sent_message_def)
  ultimately show ?thesis using run by (intro exI [of _ L] exI [of _ s] exI [of _ cl]) auto
qed

end
