(* ===== verification/Privileges.thy ===== *)
theory Privileges
  imports Server
begin

text \<open>
  How accounts come to privileges. The only requests that can make an account an administrator
  are the setup of a forum that is not installed yet and a role update by somebody whose token
  carries the administrator role; in the running server an installed forum stays installed, so
  from then on administrators are made by administrators only.
\<close>

definition admins :: "db \<Rightarrow> uuid set" where
  "admins d = {u. \<exists>r \<in> set (roles d). role_Key r = RoleAdmin \<and> (u, role_ID r) \<in> set (user_roles d)}"

text \<open>The roles are those of \<open>R\<close> and the administrators are among \<open>A\<close>.\<close>

definition admins_within :: "Role list \<Rightarrow> uuid set \<Rightarrow> db \<Rightarrow> bool" where
  "admins_within R A d \<longleftrightarrow> roles d = R \<and> admins d \<subseteq> A"

text \<open>A statement that leaves the roles, their assignment and the settings alone.\<close>

definition access_frame :: "'a stmt \<Rightarrow> bool" where
  "access_frame f \<longleftrightarrow> (\<forall>a d x d'. f a d = Inr (x, d') \<longrightarrow>
     roles d' = roles d \<and> user_roles d' = user_roles d \<and> settings d' = settings d)"

lemma frame_installed: "access_frame f \<Longrightarrow> stmt_keeps installed f"
  by (auto simp: access_frame_def stmt_keeps_def installed_def)

lemma same_admins: "roles d' = roles d \<Longrightarrow> user_roles d' = user_roles d \<Longrightarrow> admins_within R A d \<Longrightarrow> admins_within R A d'"
  by (simp add: admins_within_def admins_def cong: conj_cong)

lemma frame_admins: "access_frame f \<Longrightarrow> stmt_keeps (admins_within R A) f"
  unfolding access_frame_def stmt_keeps_def using same_admins by blast

lemmas statement_defs =
  sql_users_insert_def sql_users_update_def sql_sessions_insert_def sql_sessions_update_def sql_settings_upsert_def
  sql_groups_insert_def sql_groups_update_def sql_groups_delete_def sql_posts_insert_def sql_posts_update_def
  sql_posts_delete_def sql_threads_insert_def sql_threads_update_def sql_threads_delete_def sql_attachments_insert_def
  sql_attachments_delete_def sql_messages_insert_def sql_messages_mark_def sql_notifications_insert_def
  sql_notifications_mark_def delete_group_def delete_threads_def delete_posts_def

text \<open>Every statement but those on \<^verbatim>\<open>user_roles\<close> and \<^verbatim>\<open>settings\<close> is one.\<close>

lemma access_frames:
  "access_frame (sql_users_insert X nu)" "access_frame (sql_users_update i f)"
  "access_frame (sql_sessions_insert X ns)" "access_frame (sql_sessions_update p g)"
  "access_frame (sql_groups_insert ng)" "access_frame (sql_groups_update i ng)"
  "access_frame (sql_groups_delete i)"
  "access_frame (sql_posts_insert np)" "access_frame (sql_posts_update i b e)"
  "access_frame (sql_posts_delete i)"
  "access_frame (sql_threads_insert nt)" "access_frame (sql_threads_update i tf)"
  "access_frame (sql_threads_delete i)"
  "access_frame (sql_attachments_insert na)" "access_frame (sql_attachments_delete i)"
  "access_frame (sql_messages_insert m)" "access_frame (sql_messages_mark i u)"
  "access_frame (sql_notifications_insert u t pl)" "access_frame (sql_notifications_mark q)"
  by (simp only: access_frame_def; auto simp: statement_defs Let_def split: if_splits option.splits)+

lemmas installed_frames = access_frames [THEN frame_installed] installed_stmts(1,2,5,6)
lemmas admin_frames = access_frames [THEN frame_admins]

lemma settings_admins: "stmt_keeps (admins_within R A) (sql_settings_upsert k v)"
  by (rule stmt_keepsI) (auto simp: sql_settings_upsert_def split: if_splits elim!: same_admins [rotated 2])

text \<open>Assignments to one account concern that account only.\<close>

lemma assign_admins:
  assumes "u \<in> A"
  shows "stmt_keeps (admins_within R A) (sql_user_roles_insert u p)" "stmt_keeps (admins_within R A) (sql_user_roles_clear u)"
  using assms
  by (auto simp: stmt_keeps_def sql_user_roles_insert_def sql_user_roles_clear_def Let_def admins_within_def admins_def
      split: if_splits)

lemma member_stmt:
  assumes "distinct (map role_ID R)"
  shows "stmt_keeps (admins_within R A) (sql_user_roles_insert u (\<lambda>r. role_Key r = RoleMember))"
proof (rule stmt_keepsI)
  fix a d x d' assume I: "admins_within R A d"
    and r: "sql_user_roles_insert u (\<lambda>r. role_Key r = RoleMember) a d = Inr (x, d')"
  then have d': "d' = d\<lparr>user_roles := user_roles d @ map (\<lambda>r. (u, role_ID r)) (filter (\<lambda>r. role_Key r = RoleMember) (roles d))\<rparr>"
    by (auto simp: sql_user_roles_insert_def Let_def split: if_splits)
  have keys: "role_Key r = role_Key q" if "r \<in> set R" "q \<in> set R" "role_ID r = role_ID q" for r q
    using assms that by (auto simp: distinct_map dest: inj_onD)
  have "v \<in> admins d" if "v \<in> admins d'" for v
  proof -
    from that obtain r where r: "r \<in> set R" "role_Key r = RoleAdmin" "(v, role_ID r) \<in> set (user_roles d')"
      using I by (auto simp: admins_def d' admins_within_def)
    have "(v, role_ID r) \<in> set (user_roles d)"
    proof (rule ccontr)
      assume "(v, role_ID r) \<notin> set (user_roles d)"
      with r(3) I obtain q where q: "q \<in> set R" "role_Key q = RoleMember" "role_ID r = role_ID q"
        by (auto simp: d' admins_within_def)
      with keys [OF r(1) q(1) q(3)] r(2) show False by (simp add: RoleAdmin_def RoleMember_def)
    qed
    with r I show ?thesis by (auto simp: admins_def admins_within_def)
  qed
  with I d' show "admins_within R A d'" by (auto simp: admins_within_def)
qed

lemma dispatch_admins:
  assumes "e \<noteq> EInstallCreate" "e \<noteq> EUpdateUser" "distinct (map role_ID R)"
  shows "keeps (on_db (admins_within R A)) (dispatch X N D h r e ctx)"
  using assms(1,2)
  by (cases e; simp only: dispatch.simps)
     (unfold program_defs Let_def, (intro keeps_intros admin_frames settings_admins stmt_keeps_read member_stmt [OF assms(3)])+)

lemma dispatch_installed: "keeps (on_db installed) (dispatch X N D h r e ctx)"
  by (cases e; simp only: dispatch.simps)
     (unfold program_defs UserStore_AddMemberRole_def Let_def, (intro keeps_intros installed_frames stmt_keeps_read)+)

lemma serve_installed: "keeps (on_db installed) (serve X N D h meth path r)"
  by (rule keeps_serve [OF keeps_db_env(1)]) (rule dispatch_installed)

lemma UpdateUser_admins:
  assumes "u \<in> A"
  shows "keeps (on_db (admins_within R A)) (AdminService_UpdateUser X u rs st)"
  unfolding admin_defs user_store_defs Let_def by (intro keeps_intros admin_frames assign_admins assms)

lemma InstallCreate_installed:
  assumes "installed (w_db w)"
  shows "w_db (snd (Install_Create X P r w)) = w_db w"
proof (cases "decode_installRequest r")
  case None
  then show ?thesis by (simp add: Install_Create_def returnE_def)
next
  case (Some inp)
  then show ?thesis using Setup_installed_refused [OF assms, of X P inp] by (auto simp: Install_Create_def)
qed

lemma UpdateUser_handler_admins:
  assumes "\<And>i. pathID X r ''userID'' = Some i \<Longrightarrow> i \<in> A"
  shows "keeps (on_db (admins_within R A)) (Admin_UpdateUser X r)"
proof (cases "pathID X r ''userID''")
  case None
  then show ?thesis by (simp add: Admin_UpdateUser_def keeps_returnE)
next
  case (Some i)
  show ?thesis unfolding Admin_UpdateUser_def Some option.case
    by (intro keeps_intros UpdateUser_admins assms [OF Some])
qed

text \<open>C3: Nobody becomes an administrator by themselves: whenever a request makes an account an
  administrator, it is either the setup of a forum that was not installed, or a role update of
  exactly this account by a caller whose token carries the administrator role. No request resets
  the installation, so in an installed forum administrators are made by administrators only.\<close>

theorem administrators_made_by_administrators:
  assumes route: "net_chi N (map fst routes) meth path = Inr (key, param)" "map_of routes key = Some (ms, e)"
    and ok: "db_ok X (w_db w)" and run: "serve X N D h meth path r w = (x, w1)"
  shows "(u \<in> admins (w_db w1) \<and> u \<notin> admins (w_db w) \<longrightarrow>
      (e = EInstallCreate \<and> \<not> installed (w_db w)) \<or>
      (e = EUpdateUser \<and> pathID X (routed N param r) ''userID'' = Some u \<and>
        (\<exists>c. caller X (jwt_of D) (ans_now (w_env w (w_tick w))) r = Some c \<and> RoleAdmin \<in> set (ui_Roles c)))) \<and>
    (installed (w_db w) \<longrightarrow> installed (w_db w1))"
proof (intro conjI impI)
  assume "installed (w_db w)"
  then show "installed (w_db w1)" by (rule keeps_dbD [OF serve_installed _ run])
next
  assume new: "u \<in> admins (w_db w1) \<and> u \<notin> admins (w_db w)"
  let ?R = "roles (w_db w)"
  have ids: "distinct (map role_ID ?R)" using ok by (simp add: db_ok_def roles_ok_def)
  have start: "admins_within ?R A (w_db w)" if "admins (w_db w) \<subseteq> A" for A using that by (simp add: admins_within_def)
  consider (other) "e \<noteq> EInstallCreate" "e \<noteq> EUpdateUser" | (install) "e = EInstallCreate" | (update) "e = EUpdateUser" by blast
  then show "(e = EInstallCreate \<and> \<not> installed (w_db w)) \<or>
      (e = EUpdateUser \<and> pathID X (routed N param r) ''userID'' = Some u \<and>
        (\<exists>c. caller X (jwt_of D) (ans_now (w_env w (w_tick w))) r = Some c \<and> RoleAdmin \<in> set (ui_Roles c)))"
  proof cases
    case other
    have "keeps (on_db (admins_within ?R (admins (w_db w)))) (serve X N D h meth path r)"
      by (rule keeps_serve [OF keeps_db_env(1)]) (use route other ids dispatch_admins in auto)
    from keeps_dbD [OF this start run] new show ?thesis by (auto simp: admins_within_def)
  next
    case install
    then have "w1 = snd (Install_Create X (as_hasher (NewAuthService (deps_Config D))) (routed N param r) w)"
      using run serve_route [OF route, of X D h r] by (simp add: guards_def endpoint_kinds) (metis answered_world snd_conv)
    then have "\<not> installed (w_db w)" using InstallCreate_installed new by metis
    with install show ?thesis by simp
  next
    case update
    let ?P = "\<lambda>i. pathID X (routed N param r) ''userID'' = Some i"
    have "keeps (on_db (admins_within ?R (admins (w_db w) \<union> {i. ?P i}))) (serve X N D h meth path r)"
      by (rule keeps_serve [OF keeps_db_env(1)]) (use route update in \<open>auto intro!: UpdateUser_handler_admins\<close>)
    from keeps_dbD [OF this start run] new have p: "?P u" by (auto simp: admins_within_def)
    have "w_db w1 \<noteq> w_db w" using new by auto
    then have "\<not> refused st (serve X N D h meth path r) w" for st using refused_same [where f = "serve X N D h meth path r" and w = w] run by blast
    then show ?thesis
      using serve_protected [OF route _ refl, where w = w and X = X and D = D and h = h and r = r] update p
      by (auto simp: endpoint_kinds split: option.splits if_splits)
  qed
qed

section \<open>Witness\<close>

definition setup_request :: request where
  "setup_request = sample_request\<lparr>rq_Body := Some (JObject
     [(''forum_name'', JString ''Lodge''), (''admin_username'', JString ''carol''),
      (''admin_email'', JString ''carol@example.org''), (''admin_password'', JString ''sesame-street'')])\<rparr>"

lemma setup_request_decodes: "decode_installRequest setup_request = Some sample_setup"
proof -
  have "EqualFold s t \<longleftrightarrow> s = t" if "list_all (\<lambda>c. byte_of c < 128 \<and> fold_rune (byte_of c) = byte_of c) (s @ t)" for s t
  proof -
    have "map fold_rune (map byte_of s) = map byte_of s" "map fold_rune (map byte_of t) = map byte_of t" "ascii s" "ascii t"
      using that by (auto simp: ascii_def list_all_iff)
    moreover have "inj byte_of" by (rule injI) simp
    ultimately show ?thesis by (simp only: EqualFold_def runes_ascii inj_map_eq_map)
  qed
  then show ?thesis
    by (simp add: decode_installRequest_def setup_request_def decodeJSON_def json_str_def fold_rune_def sample_setup_def)
qed

theorem administrators_made_by_administrators_witness:
  "\<exists>x w1 u. serve sample_ext (sample_net []) sample_deps NewHub ''POST'' ''/api/v1/install'' setup_request fresh_forum = (x, w1) \<and>
     u \<in> admins (w_db w1) \<and> \<not> installed (w_db fresh_forum)"
proof -
  have r: "map_of routes (''POST'', ''/api/v1/install'') = Some ([], EInstallCreate)" by (simp add: routes_def NewRouter_def)
  let ?serve = "serve sample_ext (sample_net []) sample_deps NewHub ''POST'' ''/api/v1/install'' setup_request"
  from Setup_succeeds [OF sample_setup_env sample_argon2_lawful] obtain u w1 where
    s: "InstallService_Setup sample_ext DefaultParams sample_setup fresh_forum = (Inr u, w1)" by blast
  have "decode_installRequest (routed (sample_net []) (\<lambda>_. []) setup_request) = Some sample_setup"
    using setup_request_decodes by (simp add: decode_installRequest_def decodeJSON_def routed_def)
  then have "snd (?serve fresh_forum) = w1"
    using serve_route [OF sample_chi [OF r, of "[]"] r, of sample_ext sample_deps NewHub setup_request] s
    by (simp add: guards_def endpoint_kinds Install_Create_def NewAuthService_def)
  then obtain x where run: "?serve fresh_forum = (x, w1)" by (metis prod.collapse)
  have "\<exists>q \<in> set (roles (w_db fresh_forum)). role_Key q = RoleAdmin" by (simp add: fresh_forum_def migrated_def RoleAdmin_def)
  then have new: "user_ID u \<in> admins (w_db w1)"
    using Setup_Inr [OF s] Setup_roles [OF s] by (auto simp: admins_def)
  moreover have "user_ID u \<notin> admins (w_db fresh_forum)" by (simp add: admins_def fresh_forum_def migrated_def)
  moreover have "db_ok sample_ext (w_db fresh_forum)" by (simp add: fresh_forum_def migrated_ok)
  ultimately have "\<not> installed (w_db fresh_forum)"
    using administrators_made_by_administrators [OF sample_chi [OF r, of "[]"] r _ run, of "user_ID u"] by auto
  with run new show ?thesis by blast
qed

end
