(* ===== verification/Startup.thy ===== *)
theory Startup
  imports Router
begin

text \<open>
  Start-up and shutdown: \<^verbatim>\<open>main\<close> of \<^verbatim>\<open>cmd/server\<close>, \<^verbatim>\<open>Open\<close>, \<^verbatim>\<open>Migrate\<close> and \<^verbatim>\<open>Close\<close> of
  \<^verbatim>\<open>internal/db\<close>, \<^verbatim>\<open>New\<close> of \<^verbatim>\<open>internal/storage\<close> and the error path of \<^verbatim>\<open>NewRouter\<close>. The state is
  the list of effects on the outside, in order. What pgx, goose, minio and the operating system
  answer is a parameter.
\<close>

datatype effect =
    PoolOpened
  | PoolClosed
  | Migrated
  | BucketMade string
  | Listening string
  | ShutdownCalled

datatype startup_error =
    ErrConfig string | ErrPool | ErrProvider | ErrMigrate | ErrS3Client | ErrS3Check | ErrS3Create

text \<open>How the server ends: a signal, with whether the graceful shutdown fails, or an error of the
  listener, with whether it is \<^verbatim>\<open>http.ErrServerClosed\<close>.\<close>

datatype ending = Signalled bool | ListenFailed bool

record outside =
  os_Getenv :: "string \<Rightarrow> string"
  pgxpool_New :: "string \<Rightarrow> bool"
  goose_NewProvider :: bool
  goose_Up :: bool
  minio_New :: bool
  minio_BucketExists :: "string \<Rightarrow> bool option"
  minio_MakeBucket :: "string \<Rightarrow> bool"
  server_Ending :: ending

type_synonym 'a boot = "(effect list, startup_error, 'a) op"

definition emit :: "effect \<Rightarrow> unit boot" where
  "emit x log = (Inr (), log @ [x])"

definition need :: "startup_error \<Rightarrow> bool \<Rightarrow> unit boot" where
  "need e b = (if b then returnE () else throwE e)"

definition db_Open :: "outside \<Rightarrow> string \<Rightarrow> unit boot" where
  "db_Open B url =
     bindE (need ErrPool (pgxpool_New B url)) (\<lambda>_.
     bindE (emit PoolOpened) (\<lambda>_.
     if \<not> goose_NewProvider B then bindE (emit PoolClosed) (\<lambda>_. throwE ErrProvider)
     else returnE ()))"

definition db_Migrate :: "outside \<Rightarrow> unit boot" where
  "db_Migrate B = bindE (need ErrMigrate (goose_Up B)) (\<lambda>_. emit Migrated)"

definition db_Close :: "unit boot" where
  "db_Close = emit PoolClosed"

definition S3_New :: "outside \<Rightarrow> Config \<Rightarrow> unit boot" where
  "S3_New B cfg =
     bindE (need ErrS3Client (minio_New B)) (\<lambda>_.
     case minio_BucketExists B (cfg_S3Bucket cfg) of
       None \<Rightarrow> throwE ErrS3Check
     | Some exists \<Rightarrow>
         if \<not> exists then
           bindE (need ErrS3Create (minio_MakeBucket B (cfg_S3Bucket cfg))) (\<lambda>_. emit (BucketMade (cfg_S3Bucket cfg)))
         else returnE ())"

text \<open>The steps of \<^verbatim>\<open>main\<close> up to the listening server; each error ends in \<^verbatim>\<open>os.Exit(1)\<close>, which
  skips the deferred \<^verbatim>\<open>database.Close()\<close>.\<close>

definition startup :: "outside \<Rightarrow> string \<Rightarrow> Dependencies boot" where
  "startup B version =
     (let cfg = Load (os_Getenv B) in
      bindE (case Validate cfg of Some msg \<Rightarrow> throwE (ErrConfig msg) | None \<Rightarrow> returnE ()) (\<lambda>_.
      bindE (db_Open B (cfg_DatabaseURL cfg)) (\<lambda>_.
      bindE (db_Migrate B) (\<lambda>_.
      bindE (S3_New B cfg) (\<lambda>_.
      bindE (emit (Listening (cfg_HTTPAddr cfg))) (\<lambda>_.
      returnE \<lparr>deps_Version = version, deps_Config = cfg\<rparr>))))))"

text \<open>\<^verbatim>\<open>main\<close>: the exit status and the effects. A return from \<^verbatim>\<open>main\<close> runs the deferred calls.\<close>

definition main :: "outside \<Rightarrow> string \<Rightarrow> nat \<times> effect list" where
  "main B version =
     (case startup B version [] of
        (Inl e, log) \<Rightarrow> (1, log)
      | (Inr deps, log) \<Rightarrow>
          (case server_Ending B of
             Signalled failed \<Rightarrow> (0, snd (db_Close (log @ [ShutdownCalled])))
           | ListenFailed closed \<Rightarrow> if closed then (0, snd (db_Close log)) else (1, log)))"

lemmas startup_defs = startup_def db_Open_def db_Migrate_def db_Close_def S3_New_def emit_def need_def Let_def

lemma startup_ready:
  assumes "startup B version [] = (Inr deps, log)"
  shows "deps = \<lparr>deps_Version = version, deps_Config = Load (os_Getenv B)\<rparr> \<and> Validate (Load (os_Getenv B)) = None \<and>
    log = [PoolOpened, Migrated] @
      (if minio_BucketExists B (cfg_S3Bucket (Load (os_Getenv B))) = Some True then []
       else [BucketMade (cfg_S3Bucket (Load (os_Getenv B)))]) @ [Listening (cfg_HTTPAddr (Load (os_Getenv B)))]"
  using assms by (auto simp: startup_defs op_defs split: if_splits option.splits)

lemma startup_failed: "startup B version [] = (Inl e, log) \<Longrightarrow> Listening a \<notin> set log"
  by (auto simp: startup_defs op_defs split: if_splits option.splits)

lemma Open_no_leak: "fst (db_Open B url l) \<noteq> Inr () \<Longrightarrow> snd (db_Open B url l) \<in> {l, l @ [PoolOpened, PoolClosed]}"
  by (auto simp: startup_defs op_defs split: if_splits)

text \<open>C27: The server listens only when it is ready: a run of \<^verbatim>\<open>main\<close> that reaches the listener has
  a valid configuration (with a database, a signing secret of at least 32 bytes and storage
  credentials), an open pool, applied migrations and an existing bucket, in this order; the
  router gets that configuration; status 0 is returned only after the listener was reached, and
  then the pool is closed as the last effect. A failed \<^verbatim>\<open>Open\<close> leaves no pool behind.\<close>

theorem listens_only_when_ready:
  assumes "main B version = (code, log)" and "cfg = Load (os_Getenv B)"
  shows "(\<forall>a. Listening a \<in> set log \<longrightarrow>
      cfg_DatabaseURL cfg \<noteq> [] \<and> 32 \<le> length (cfg_JWTSecret cfg) \<and> cfg_S3Endpoint cfg \<noteq> [] \<and>
      a = cfg_HTTPAddr cfg \<and>
      (\<exists>bucket rest. log = [PoolOpened, Migrated] @ bucket @ [Listening a] @ rest \<and>
        bucket = (if minio_BucketExists B (cfg_S3Bucket cfg) = Some True then [] else [BucketMade (cfg_S3Bucket cfg)]) \<and>
        startup B version [] = (Inr \<lparr>deps_Version = version, deps_Config = cfg\<rparr>, [PoolOpened, Migrated] @ bucket @ [Listening a]))) \<and>
    (code = 0 \<longrightarrow> Listening (cfg_HTTPAddr cfg) \<in> set log \<and> last log = PoolClosed) \<and>
    (fst (db_Open B url l) \<noteq> Inr () \<longrightarrow> snd (db_Open B url l) \<in> {l, l @ [PoolOpened, PoolClosed]})"
proof (cases "startup B version []")
  case (Pair res log0)
  show ?thesis
  proof (cases res)
    case (Inl e)
    with assms(1) Pair startup_failed [of B version e log0] show ?thesis
      using Open_no_leak [of B url l] by (auto simp: main_def)
  next
    case (Inr deps)
    note R = startup_ready [of B version deps log0, unfolded assms(2) [symmetric]]
    from assms(1) Pair Inr obtain rest where log: "log = log0 @ rest" "\<forall>a. Listening a \<notin> set rest"
      "code = 0 \<longrightarrow> rest \<noteq> [] \<and> last rest = PoolClosed"
      by (auto simp: main_def db_Close_def emit_def split: ending.splits if_splits)
    let ?b = "if minio_BucketExists B (cfg_S3Bucket cfg) = Some True then [] else [BucketMade (cfg_S3Bucket cfg)]"
    have log0: "log0 = [PoolOpened, Migrated] @ ?b @ [Listening (cfg_HTTPAddr cfg)]" and v: "Validate cfg = None"
      and d: "deps = \<lparr>deps_Version = version, deps_Config = cfg\<rparr>" using R Pair Inr by simp_all
    have only: "a = cfg_HTTPAddr cfg" if "Listening a \<in> set log" for a using that log(1,2) log0 by (auto split: if_splits)
    have "log = [PoolOpened, Migrated] @ ?b @ [Listening (cfg_HTTPAddr cfg)] @ rest" using log(1) log0 by simp
    moreover have "startup B version [] = (Inr \<lparr>deps_Version = version, deps_Config = cfg\<rparr>,
        [PoolOpened, Migrated] @ ?b @ [Listening (cfg_HTTPAddr cfg)])" using Pair Inr log0 d by simp
    moreover have "cfg_DatabaseURL cfg \<noteq> [] \<and> 32 \<le> length (cfg_JWTSecret cfg) \<and> cfg_S3Endpoint cfg \<noteq> []"
      using v by (auto simp: Validate_def split: if_splits)
    moreover have "code = 0 \<longrightarrow> Listening (cfg_HTTPAddr cfg) \<in> set log \<and> last log = PoolClosed"
      using log log0 by auto
    ultimately show ?thesis using only Open_no_leak by blast
  qed
qed

definition sample_outside :: outside where
  "sample_outside = \<lparr>os_Getenv = (\<lambda>k. if k = ''JWT_SECRET'' then replicate 32 CHR ''k'' else ''x''), pgxpool_New = (\<lambda>_. True),
     goose_NewProvider = True, goose_Up = True, minio_New = True, minio_BucketExists = (\<lambda>_. Some False),
     minio_MakeBucket = (\<lambda>_. True), server_Ending = Signalled False\<rparr>"

lemma sample_main: "main sample_outside ''dev'' = (0, [PoolOpened, Migrated, BucketMade ''x'', Listening ''x'', ShutdownCalled, PoolClosed])"
  by (simp add: main_def startup_defs op_defs sample_outside_def Load_def getenv_def Validate_def)

theorem listens_only_when_ready_witness:
  "32 \<le> length (cfg_JWTSecret (Load (os_Getenv sample_outside))) \<and> fst (main sample_outside ''dev'') = 0"
proof -
  have "Listening ''x'' \<in> set [PoolOpened, Migrated, BucketMade ''x'', Listening ''x'', ShutdownCalled, PoolClosed]" by simp
  then have "32 \<le> length (cfg_JWTSecret (Load (os_Getenv sample_outside)))"
    using listens_only_when_ready [OF sample_main refl, where url = "[]" and l = "[]"] by blast
  then show ?thesis using sample_main by simp
qed

end
