(* ===== verification/Tasks.thy ===== *)
theory Tasks
  imports Prelude
begin

text \<open>
  Requests that run at the same time. The goroutine of a request is a resumption: it has finished
  with a result, or it makes one call to the outside (a statement, a transaction, a clock) and goes
  on with what the call gave. A schedule picks, call by call, which of the running requests moves,
  so a theorem about all schedules is a theorem about all interleavings. \<open>run\<close> is a task that is left
  alone; it turns the combinators of tasks into those of operations, which ties a request written
  as a task to the same request written as an operation.

  Two arguments about interleavings are proved once, as locales: of the requests that contend for
  something that can be taken once, at most one wins; and a counter that requests update in two
  calls is right whenever none of them is between the two.
\<close>

section \<open>Tasks\<close>

datatype ('w, 'r) task =
    Finished 'r
  | Step "'w \<Rightarrow> 'w" "'w \<Rightarrow> ('w, 'r) task"

definition atomic :: "('w, 'e, 'a) op \<Rightarrow> ('w, 'e + 'a) task" where
  "atomic m = Step (\<lambda>w. snd (m w)) (\<lambda>w. Finished (fst (m w)))"

primrec thenT :: "('w, 'r) task \<Rightarrow> ('r \<Rightarrow> ('w, 's) task) \<Rightarrow> ('w, 's) task" where
  "thenT (Finished r) k = k r"
| "thenT (Step u n) k = Step u (\<lambda>w. thenT (n w) k)"

lemma thenT_Finished [simp]: "thenT t Finished = t"
  by (induction t) auto

definition returnT :: "'a \<Rightarrow> ('w, 'e + 'a) task" where
  "returnT x = Finished (Inr x)"

definition throwT :: "'e \<Rightarrow> ('w, 'e + 'a) task" where
  "throwT e = Finished (Inl e)"

definition bindT :: "('w, 'e + 'a) task \<Rightarrow> ('a \<Rightarrow> ('w, 'e + 'b) task) \<Rightarrow> ('w, 'e + 'b) task" where
  "bindT t k = thenT t (\<lambda>r. case r of Inl e \<Rightarrow> throwT e | Inr x \<Rightarrow> k x)"

definition handleT :: "('w, 'e + 'a) task \<Rightarrow> ('e \<Rightarrow> ('w, 'e + 'a) task) \<Rightarrow> ('w, 'e + 'a) task" where
  "handleT t h = thenT t (\<lambda>r. case r of Inl e \<Rightarrow> h e | Inr x \<Rightarrow> returnT x)"

definition mapErrT :: "('e \<Rightarrow> 'e) \<Rightarrow> ('w, 'e + 'a) task \<Rightarrow> ('w, 'e + 'a) task" where
  "mapErrT g t = handleT t (\<lambda>e. throwT (g e))"

definition ignoreT :: "('w, 'e + 'a) task \<Rightarrow> ('w, 'e + unit) task" where
  "ignoreT t = thenT t (\<lambda>_. returnT ())"

lemma thenT_assoc: "thenT (thenT t k) l = thenT t (\<lambda>r. thenT (k r) l)"
  by (induction t) auto

lemma bindT_throwT [simp]: "bindT (throwT e) k = throwT e"
  by (simp add: bindT_def throwT_def)

lemma bindT_returnT [simp]: "bindT (returnT x) k = k x"
  by (simp add: bindT_def returnT_def)

lemma bindT_assoc: "bindT (bindT t k) l = bindT t (\<lambda>x. bindT (k x) l)"
proof -
  have "thenT (case r of Inl e \<Rightarrow> throwT e | Inr x \<Rightarrow> k x) (case_sum throwT l) =
      (case r of Inl e \<Rightarrow> throwT e | Inr x \<Rightarrow> thenT (k x) (case_sum throwT l))" for r
    by (simp add: throwT_def split: sum.split)
  then show ?thesis by (simp add: bindT_def thenT_assoc)
qed

lemma bindT_if: "bindT (if b then s else t) k = (if b then bindT s k else bindT t k)"
  by simp

section \<open>A task that is left alone\<close>

primrec run :: "('w, 'r) task \<Rightarrow> 'w \<Rightarrow> 'r \<times> 'w" where
  "run (Finished r) w = (r, w)"
| "run (Step u n) w = run (n w) (u w)"

named_theorems run_simps \<open>tasks that run alone\<close>

lemma run_thenT: "run (thenT t k) w = (case run t w of (r, w1) \<Rightarrow> run (k r) w1)"
  by (induction t arbitrary: w) auto

lemma run_atomic [run_simps]: "run (atomic m) = m"
  by (simp add: fun_eq_iff atomic_def)

lemma run_returnT [run_simps]: "run (returnT x) = returnE x"
  by (simp add: fun_eq_iff returnT_def returnE_def)

lemma run_throwT [run_simps]: "run (throwT e) = throwE e"
  by (simp add: fun_eq_iff throwT_def throwE_def)

lemma run_bindT [run_simps]: "run (bindT t k) = bindE (run t) (\<lambda>x. run (k x))"
  by (simp add: fun_eq_iff bindT_def run_thenT bindE_def run_throwT throwE_def split: prod.split sum.split)

lemma run_handleT [run_simps]: "run (handleT t h) = handleE (run t) (\<lambda>e. run (h e))"
  by (simp add: fun_eq_iff handleT_def run_thenT handleE_def run_returnT returnE_def split: prod.split sum.split)

lemma run_mapErrT [run_simps]: "run (mapErrT g t) = mapErrE g (run t)"
  by (simp add: mapErrT_def mapErrE_def run_simps)

lemma run_ignoreT [run_simps]: "run (ignoreT t) = ignoreE (run t)"
  by (simp add: fun_eq_iff ignoreT_def ignoreE_def run_thenT run_returnT returnE_def split: prod.split)

lemma run_if [run_simps]: "run (if b then s else t) = (if b then run s else run t)"
  by simp

lemma run_case_option [run_simps]:
  "run (case v of None \<Rightarrow> s | Some x \<Rightarrow> f x) = (case v of None \<Rightarrow> run s | Some x \<Rightarrow> run (f x))"
  by (simp split: option.split)

section \<open>Interleavings\<close>

text \<open>One entry of a schedule: the request with that number makes its next call. Nothing happens
  when it has finished or does not exist.\<close>

fun move :: "nat \<Rightarrow> 'w \<times> ('w, 'r) task list \<Rightarrow> 'w \<times> ('w, 'r) task list" where
  "move i (w, ts) =
     (if i < length ts
      then (case ts ! i of Finished r \<Rightarrow> (w, ts) | Step u n \<Rightarrow> (u w, ts[i := n w]))
      else (w, ts))"

fun schedule :: "nat list \<Rightarrow> 'w \<times> ('w, 'r) task list \<Rightarrow> 'w \<times> ('w, 'r) task list" where
  "schedule [] c = c"
| "schedule (i # sch) c = schedule sch (move i c)"

lemma schedule_append: "schedule (s1 @ s2) c = schedule s2 (schedule s1 c)"
  by (induction s1 arbitrary: c) auto

text \<open>An invariant of interleavings: it holds of the pool and every call keeps it.\<close>

lemma schedule_invariant:
  assumes "schedule sch (w, ts) = (w1, ts1)" "P w ts"
    and "\<And>i w ts u n. P w ts \<Longrightarrow> i < length ts \<Longrightarrow> ts ! i = Step u n \<Longrightarrow> P (u w) (ts[i := n w])"
  shows "P w1 ts1"
  using assms(1,2)
proof (induction sch arbitrary: w ts)
  case (Cons i sch)
  obtain w2 ts2 where m: "move i (w, ts) = (w2, ts2)" by fastforce
  with Cons.prems(2) have "P w2 ts2" by (auto split: if_splits task.splits intro: assms(3))
  with Cons m show ?case by simp
qed simp

text \<open>Left alone long enough, a request gets through the first part of its work, and to its end, as
  it would by itself.\<close>

lemma schedule_run_then:
  assumes "i < length ts" "run t w = (r, w1)"
  shows "\<exists>n. schedule (replicate n i) (w, ts[i := thenT t k]) = (w1, ts[i := k r])"
  using assms(2)
proof (induction t arbitrary: w)
  case (Finished r)
  then show ?case by (intro exI [of _ 0]) simp
next
  case (Step u n)
  from Step(1) [of "n w" "u w"] Step(2) obtain m where
    "schedule (replicate m i) (u w, ts[i := thenT (n w) k]) = (w1, ts[i := k r])" by auto
  then show ?case using assms(1) by (intro exI [of _ "Suc m"]) simp
qed

lemma schedule_run:
  assumes "i < length ts" "run (ts ! i) w = (r, w1)"
  shows "\<exists>n. schedule (replicate n i) (w, ts) = (w1, ts[i := Finished r])"
  using schedule_run_then [OF assms, of Finished] by simp

lemma schedule_run_bind:
  assumes "i < length ts" "ts ! i = bindT t k" "run t w = (Inr x, w1)"
  shows "\<exists>n. schedule (replicate n i) (w, ts) = (w1, ts[i := k x])"
  using schedule_run_then [OF assms(1,3), of "case_sum throwT k"] assms(2)
  by (simp add: bindT_def) (metis list_update_id)

lemma run_Finished [run_simps]: "run (Finished r) = liftE r"
  by (simp add: fun_eq_iff liftE_def)

section \<open>What every call of a task keeps\<close>

primrec keepsT :: "('w \<Rightarrow> bool) \<Rightarrow> ('w, 'r) task \<Rightarrow> bool" where
  "keepsT B (Finished r) = True"
| "keepsT B (Step u n) = (\<forall>w. (B w \<longrightarrow> B (u w)) \<and> keepsT B (n w))"

named_theorems keepsT_intros \<open>what every call of a task keeps\<close>

lemma keepsT_thenT: "keepsT B t \<Longrightarrow> (\<And>r. keepsT B (k r)) \<Longrightarrow> keepsT B (thenT t k)"
  by (induction t) auto

lemma keepsT_atomic [keepsT_intros]: "keeps B m \<Longrightarrow> keepsT B (atomic m)"
  by (simp add: atomic_def keeps_def)

lemma keepsT_returnT [keepsT_intros]: "keepsT B (returnT x)"
  by (simp add: returnT_def)

lemma keepsT_throwT [keepsT_intros]: "keepsT B (throwT x)"
  by (simp add: throwT_def)

lemma keepsT_bindT [keepsT_intros]: "keepsT B t \<Longrightarrow> (\<And>x. keepsT B (k x)) \<Longrightarrow> keepsT B (bindT t k)"
  unfolding bindT_def by (intro keepsT_thenT) (auto intro: keepsT_throwT split: sum.split)

lemma keepsT_handleT [keepsT_intros]: "keepsT B t \<Longrightarrow> (\<And>e. keepsT B (h e)) \<Longrightarrow> keepsT B (handleT t h)"
  unfolding handleT_def by (intro keepsT_thenT) (auto intro: keepsT_returnT split: sum.split)

lemma keepsT_mapErrT [keepsT_intros]: "keepsT B t \<Longrightarrow> keepsT B (mapErrT g t)"
  unfolding mapErrT_def by (intro keepsT_intros)

lemma keepsT_ignoreT [keepsT_intros]: "keepsT B t \<Longrightarrow> keepsT B (ignoreT t)"
  unfolding ignoreT_def by (intro keepsT_thenT keepsT_returnT)

lemma keepsT_if [keepsT_intros]: "(b \<Longrightarrow> keepsT B s) \<Longrightarrow> (\<not> b \<Longrightarrow> keepsT B t) \<Longrightarrow> keepsT B (if b then s else t)"
  by simp

lemma keepsT_case_prod [keepsT_intros]: "(\<And>x y. keepsT B (f x y)) \<Longrightarrow> keepsT B (case v of (x, y) \<Rightarrow> f x y)"
  by (simp split: prod.split)

lemma schedule_keeps:
  assumes "schedule sch (w, ts) = (w1, ts1)" "B w" "\<And>t. t \<in> set ts \<Longrightarrow> keepsT B t"
  shows "B w1"
proof -
  let ?P = "\<lambda>w ts. B w \<and> (\<forall>t \<in> set ts. keepsT B t)"
  have "?P w1 ts1"
  proof (rule schedule_invariant [where P = ?P, OF assms(1)])
    fix i w ts and u :: "'a \<Rightarrow> 'a" and n :: "'a \<Rightarrow> ('a, 'b) task"
    assume "?P w ts" "i < length ts" "ts ! i = Step u n"
    then have "keepsT B (Step u n)" by (metis nth_mem)
    with \<open>?P w ts\<close> show "?P (u w) (ts[i := n w])" using set_update_subset_insert [of ts i "n w"] by auto
  qed (use assms in auto)
  then show ?thesis by blast
qed

section \<open>Something that can be taken once\<close>

text \<open>
  \<open>claims S taken won t A\<close>: in a world of which \<open>A\<close> is known, the task cannot end with a winning
  result unless one of its own calls takes what was not taken before. What a task has learned is an
  assertion of \<open>S\<close>; these are the assertions that no call of any request can make false, so a task
  may rely on them from one of its calls to the next.
\<close>

primrec claims :: "('w \<Rightarrow> bool) set \<Rightarrow> ('w \<Rightarrow> bool) \<Rightarrow> ('r \<Rightarrow> bool) \<Rightarrow> ('w, 'r) task \<Rightarrow> ('w \<Rightarrow> bool) \<Rightarrow> bool" where
  "claims S taken won (Finished r) A = (\<not> won r)"
| "claims S taken won (Step u n) A =
     (\<forall>w. A w \<longrightarrow> \<not> taken w \<and> taken (u w) \<or> (\<exists>B \<in> S. B (u w) \<and> claims S taken won (n w) B))"

text \<open>Calls that add no knowledge.\<close>

lemma claims_thenT:
  assumes "A \<in> S" "keepsT A t" "\<And>r. claims S taken won (k r) A"
  shows "claims S taken won (thenT t k) A"
  using assms(2)
proof (induction t)
  case (Step u n)
  show ?case
  proof (simp, intro allI impI disjI2)
    fix w assume "A w"
    with Step.prems have "A (u w)" "keepsT A (n w)" by auto
    with Step.IH [of "n w"] assms(1) show "\<exists>B \<in> S. B (u w) \<and> claims S taken won (thenT (n w) k) B" by auto
  qed
qed (simp add: assms(3))

lemma claims_throwT: "\<not> won (Inl e) \<Longrightarrow> claims S taken won (throwT e) A"
  by (simp add: throwT_def)

lemma claims_bindT:
  assumes "A \<in> S" "keepsT A t" "\<And>e. \<not> won (Inl e)" "\<And>x. claims S taken won (k x) A"
  shows "claims S taken won (bindT t k) A"
  unfolding bindT_def using assms by (intro claims_thenT) (auto simp: claims_throwT split: sum.split)

text \<open>A call that either fails, or takes the thing, or is worth a new assertion.\<close>

lemma claims_call:
  assumes "A \<in> S" "keeps A m" "\<And>e. \<not> won (Inl e)"
    and "\<And>w w1 x. A w \<Longrightarrow> m w = (Inr x, w1) \<Longrightarrow>
           \<not> taken w \<and> taken w1 \<or> (\<exists>B \<in> S. B w1 \<and> claims S taken won (k x) B)"
  shows "claims S taken won (bindT (atomic m) k) A"
proof (simp add: bindT_def atomic_def, intro allI impI)
  fix w assume A: "A w"
  show "\<not> taken w \<and> taken (snd (m w)) \<or> (\<exists>B \<in> S. B (snd (m w)) \<and>
      claims S taken won (case fst (m w) of Inl e \<Rightarrow> throwT e | Inr x \<Rightarrow> k x) B)"
  proof (cases "fst (m w)")
    case (Inl e)
    then show ?thesis using A assms(1-3) by (auto simp: claims_throwT dest: keepsD)
  next
    case (Inr x)
    then have "m w = (Inr x, snd (m w))" by (metis prod.collapse)
    from assms(4) [OF A this] Inr show ?thesis by simp
  qed
qed

locale contended =
  fixes S :: "('w \<Rightarrow> bool) set" and taken :: "'w \<Rightarrow> bool" and start :: "'w \<Rightarrow> bool"
    and won :: "'r \<Rightarrow> bool" and task_of :: "'q \<Rightarrow> ('w, 'r) task" and contender :: "'q \<Rightarrow> bool"
  assumes assertions: "B \<in> S \<Longrightarrow> keepsT B (task_of q)"
    and stays_taken: "keepsT taken (task_of q)"
    and start: "start \<in> S"
    and contends: "contender q \<Longrightarrow> claims S taken won (task_of q) start"
begin

definition still_open :: "'w \<Rightarrow> ('w, 'r) task \<Rightarrow> bool" where
  "still_open w t \<longleftrightarrow> (\<exists>B \<in> S. B w \<and> claims S taken won t B)"

definition one_claim :: "'q list \<Rightarrow> 'w \<Rightarrow> ('w, 'r) task list \<Rightarrow> bool" where
  "one_claim qs w ts \<longleftrightarrow>
     length ts = length qs \<and> (\<forall>t \<in> set ts. (\<forall>B \<in> S. keepsT B t) \<and> keepsT taken t) \<and>
     ((\<forall>i < length qs. contender (qs ! i) \<longrightarrow> still_open w (ts ! i)) \<or>
      taken w \<and> (\<exists>k. \<forall>i < length qs. contender (qs ! i) \<and> i \<noteq> k \<longrightarrow> still_open w (ts ! i)))"

lemma open_step:
  "still_open w (Step u n) \<Longrightarrow> \<not> taken w \<and> taken (u w) \<or> still_open (u w) (n w)"
  by (auto simp: still_open_def)

lemma open_other: "still_open w t \<Longrightarrow> (\<And>B. B \<in> S \<Longrightarrow> keepsT B (Step u n)) \<Longrightarrow> still_open (u w) t"
  by (auto simp: still_open_def)

lemma one_claim_move:
  assumes inv: "one_claim qs w ts" and j: "j < length ts" "ts ! j = Step u n"
  shows "one_claim qs (u w) (ts[j := n w])"
proof -
  have len: "length ts = length qs" using inv by (simp add: one_claim_def)
  have all: "\<forall>t \<in> set ts. (\<forall>B \<in> S. keepsT B t) \<and> keepsT taken t" using inv by (simp add: one_claim_def)
  have "Step u n \<in> set ts" using j by (metis nth_mem)
  with all have st: "\<And>B. B \<in> S \<Longrightarrow> keepsT B (Step u n)" "keepsT taken (Step u n)" by blast+
  then have "(\<forall>B \<in> S. keepsT B (n w)) \<and> keepsT taken (n w)" by simp
  with all have "\<forall>t \<in> set (ts[j := n w]). (\<forall>B \<in> S. keepsT B t) \<and> keepsT taken t"
    using set_update_subset_insert [of ts j "n w"] by blast
  moreover have others: "still_open (u w) (ts[j := n w] ! i)" if "still_open w (ts ! i)" "i \<noteq> j" for i
    using open_other [OF that(1) st(1)] that(2) by simp
  moreover have own: "\<not> taken w \<and> taken (u w) \<or> still_open (u w) (ts[j := n w] ! j)" if "still_open w (ts ! j)"
    using open_step [of w u n] that j by simp
  moreover have "taken w \<Longrightarrow> taken (u w)" using st(2) by simp
  ultimately show ?thesis
    using inv len unfolding one_claim_def by (metis length_list_update)
qed

lemma one_winner:
  assumes "start w" "schedule sch (w, map task_of qs) = (w1, ts)"
    and win: "i < length qs" "contender (qs ! i)" "ts ! i = Finished r" "won r"
  shows "taken w1 \<and> (\<forall>j r'. j < length qs \<and> contender (qs ! j) \<and> ts ! j = Finished r' \<and> won r' \<longrightarrow> j = i)"
proof -
  have "one_claim qs w (map task_of qs)"
    using assms(1) assertions stays_taken start contends by (auto simp: one_claim_def still_open_def)
  then have inv: "one_claim qs w1 ts"
    by (rule schedule_invariant [where P = "one_claim qs", OF assms(2)]) (rule one_claim_move)
  have "\<not> still_open w1 (Finished x)" if "won x" for x using that by (simp add: still_open_def)
  with inv win show ?thesis unfolding one_claim_def by metis
qed

end

section \<open>Counters that are updated in two calls\<close>

lemma sum_list_update_int: "i < length ks \<Longrightarrow> sum_list (ks[i := j]) = sum_list ks + j - (ks ! i :: int)"
  by (induction ks arbitrary: i) (auto split: nat.splits)

text \<open>
  \<open>owes I m ok t k\<close>: the task is behind by \<open>k\<close> with the quantity \<open>m\<close>. Every call changes the
  quantity by as much as it changes what the task owes, and a task that ends well owes nothing. A
  task that ends with an error may leave a debt.
\<close>

primrec owes :: "('w \<Rightarrow> bool) \<Rightarrow> ('w \<Rightarrow> int) \<Rightarrow> ('r \<Rightarrow> bool) \<Rightarrow> ('w, 'r) task \<Rightarrow> int \<Rightarrow> bool" where
  "owes I m ok (Finished r) k = (ok r \<longrightarrow> k = 0)"
| "owes I m ok (Step u n) k = (\<forall>w. I w \<longrightarrow> (\<exists>j. owes I m ok (n w) j \<and> m (u w) - m w = j - k))"

definition neutral :: "('w \<Rightarrow> bool) \<Rightarrow> ('w \<Rightarrow> int) \<Rightarrow> ('w, 'r) task \<Rightarrow> bool" where
  "neutral I m t \<longleftrightarrow> (\<forall>c. keepsT (\<lambda>w. I w \<and> m w = c) t)"

lemma owes_thenT:
  assumes "neutral I m t" "\<And>r. owes I m ok (k r) d"
  shows "owes I m ok (thenT t k) d"
proof -
  have "\<forall>c. keepsT (\<lambda>w. I w \<and> m w = c) t" using assms(1) by (simp add: neutral_def)
  then show ?thesis
  proof (induction t)
    case (Step u n)
    show ?case
    proof (simp, intro allI impI)
      fix w assume "I w"
      with Step.prems have "m (u w) = m w" "\<forall>c. keepsT (\<lambda>w. I w \<and> m w = c) (n w)" by simp_all
      with Step.IH [of "n w"] show "\<exists>j. owes I m ok (thenT (n w) k) j \<and> m (u w) - m w = j - d" by auto
    qed
  qed (simp add: assms(2))
qed

lemma owes_neutral: "neutral I m t \<Longrightarrow> owes I m ok t 0"
  using owes_thenT [of I m t ok Finished 0] by simp

lemma owes_bindT:
  assumes "neutral I m t" "\<And>e. \<not> ok (Inl e)" "\<And>x. owes I m ok (k x) d"
  shows "owes I m ok (bindT t k) d"
  unfolding bindT_def using assms by (intro owes_thenT) (auto simp: throwT_def split: sum.split)

lemma owes_call:
  assumes "\<And>e. \<not> ok (Inl e)"
    and "\<And>w w1 x. I w \<Longrightarrow> p w = (Inr x, w1) \<Longrightarrow> \<exists>j. owes I m ok (k x) j \<and> m w1 - m w = j - d"
  shows "owes I m ok (bindT (atomic p) k) d"
proof (simp add: bindT_def atomic_def, intro allI impI)
  fix w assume I: "I w"
  show "\<exists>j. owes I m ok (case fst (p w) of Inl e \<Rightarrow> throwT e | Inr x \<Rightarrow> k x) j \<and> m (snd (p w)) - m w = j - d"
  proof (cases "fst (p w)")
    case (Inl e)
    then show ?thesis
      using assms(1) by (intro exI [of _ "m (snd (p w)) - m w + d"]) (simp add: throwT_def)
  next
    case (Inr x)
    then have "p w = (Inr x, snd (p w))" by (metis prod.collapse)
    from assms(2) [OF I this] Inr show ?thesis by simp
  qed
qed

locale accounted =
  fixes I :: "'w \<Rightarrow> bool" and m :: "'w \<Rightarrow> int" and ok :: "'r \<Rightarrow> bool"
    and task_of :: "'q \<Rightarrow> ('w, 'r) task" and admitted :: "'q \<Rightarrow> bool"
  assumes inv: "admitted q \<Longrightarrow> keepsT I (task_of q)" and pays: "admitted q \<Longrightarrow> owes I m ok (task_of q) 0"
begin

definition balanced :: "int \<Rightarrow> 'w \<Rightarrow> ('w, 'r) task list \<Rightarrow> bool" where
  "balanced c w ts \<longleftrightarrow> I w \<and> (\<forall>t \<in> set ts. keepsT I t) \<and>
     (\<exists>ks. list_all2 (owes I m ok) ts ks \<and> m w = c + sum_list ks)"

lemma balanced_move:
  assumes bal: "balanced c w ts" and i: "i < length ts" "ts ! i = Step u n"
  shows "balanced c (u w) (ts[i := n w])"
proof -
  from bal obtain ks where I: "I w" and all: "\<forall>t \<in> set ts. keepsT I t"
    and ks: "list_all2 (owes I m ok) ts ks" "m w = c + sum_list ks" by (auto simp: balanced_def)
  have "keepsT I (Step u n)" using all i by (metis nth_mem)
  moreover have "owes I m ok (Step u n) (ks ! i)" using ks(1) i by (metis list_all2_nthD)
  then obtain j where j: "owes I m ok (n w) j" "m (u w) - m w = j - ks ! i" using I by auto
  have len: "i < length ks" using ks(1) i(1) by (simp add: list_all2_lengthD)
  have "list_all2 (owes I m ok) (ts[i := n w]) (ks[i := j])" using ks(1) j(1) by (rule list_all2_update_cong)
  moreover have "m (u w) = c + sum_list (ks[i := j])"
    using ks(2) j(2) len by (simp add: sum_list_update_int)
  ultimately show ?thesis
    using I all set_update_subset_insert [of ts i "n w"] by (auto simp: balanced_def)
qed

text \<open>When every request has ended well, the quantity is what it was.\<close>

lemma settled:
  assumes "I w" "schedule sch (w, map task_of qs) = (w1, ts)" and adm: "list_all admitted qs"
    and fin: "\<And>t. t \<in> set ts \<Longrightarrow> \<exists>r. t = Finished r \<and> ok r"
  shows "m w1 = m w"
proof -
  have "list_all2 (owes I m ok) (map task_of qs) (map (\<lambda>_. 0) qs)"
    using adm by (simp add: list_all2_conv_all_nth list_all_length pays)
  then have "balanced (m w) w (map task_of qs)"
    using assms(1) adm inv unfolding balanced_def list_all_iff by (intro conjI exI [of _ "map (\<lambda>_. 0) qs"]) auto
  then have "balanced (m w) w1 ts"
    by (rule schedule_invariant [where P = "balanced (m w)", OF assms(2)]) (rule balanced_move)
  then obtain ks where ks: "list_all2 (owes I m ok) ts ks" "m w1 = m w + sum_list ks"
    by (auto simp: balanced_def)
  have "k = 0" if "k \<in> set ks" for k
  proof -
    from that ks(1) obtain i where "i < length ts" "k = ks ! i" "owes I m ok (ts ! i) (ks ! i)"
      by (auto simp: in_set_conv_nth list_all2_conv_all_nth)
    moreover from fin [of "ts ! i"] calculation(1) obtain r where "ts ! i = Finished r" "ok r" by auto
    ultimately show ?thesis by simp
  qed
  then have "sum_list ks = 0" by (induction ks) auto
  with ks(2) show ?thesis by simp
qed

end

end
