(* ===== verification/Concurrent_Auth.thy ===== *)
theory Concurrent_Auth
  imports Auth_Service Tasks
begin

text \<open>
  Requests to the authentication service that run at the same time. Every operation of
  \<^verbatim>\<open>internal/services/auth.go\<close> that writes is given again as a task whose calls are the
  statements, clock readings and random draws of the operation, and is shown to be that operation
  when it runs alone. Over all interleavings of such requests, a refresh token is exchanged at
  most once.
\<close>

section \<open>The operations as tasks\<close>

type_synonym 'a auth_op = "(world, error + 'a) task"

definition issueTokens_task :: "ext \<Rightarrow> AuthService \<Rightarrow> User \<Rightarrow> string \<Rightarrow> string \<Rightarrow> Tokens auth_op" where
  "issueTokens_task X S user userAgent ip =
     bindT (atomic (UserStore_RolesForUser X (user_ID user))) (\<lambda>rs.
     bindT (atomic (NewAccessToken X (as_jwt S) (user_ID user) (user_Username user) rs)) (\<lambda>access.
     bindT (atomic (NewRefreshToken X)) (\<lambda>(refresh, refreshHash).
     bindT (atomic time_Now) (\<lambda>now.
     bindT (atomic (SessionStore_Create X
              \<lparr>newsession_UserID = user_ID user, newsession_TokenHash = refreshHash,
               newsession_UserAgent = userAgent, newsession_IP = normalizeIP ip,
               newsession_ExpiresAt = now + sint (cfg_RefreshTTL (as_cfg S))\<rparr>)) (\<lambda>_.
     returnT \<lparr>tok_AccessToken = access, tok_RefreshToken = refresh, tok_User = user, tok_Roles = rs\<rparr>)))))"

definition Register_task :: "ext \<Rightarrow> AuthService \<Rightarrow> string \<Rightarrow> string \<Rightarrow> string \<Rightarrow> User auth_op" where
  "Register_task X S username0 email0 password0 =
     (let username = TrimSpace username0; email = TrimSpace email0; password = TrimSpace password0 in
      if \<not> MatchString usernameRe username
      then throwT (ErrValidation ''username must be 3-32 chars [a-zA-Z0-9_]'')
      else if \<not> MatchString emailRe email then throwT (ErrValidation ''invalid email'')
      else if length password < 8 then throwT (ErrValidation ''password must be at least 8 chars'')
      else
        bindT (atomic (PasswordHasher_Hash X (as_hasher S) password)) (\<lambda>hash.
        bindT (mapErrT (\<lambda>e. if e = StoreErrConflict then ErrUsernameTaken else e)
                 (atomic (UserStore_Create X
                   \<lparr>newuser_Username = username, newuser_Email = email, newuser_PasswordHash = hash,
                    newuser_DisplayName = username\<rparr>))) (\<lambda>user.
        bindT (atomic (UserStore_AddMemberRole (user_ID user))) (\<lambda>_.
        returnT user))))"

definition Login_task ::
    "ext \<Rightarrow> AuthService \<Rightarrow> string \<Rightarrow> string \<Rightarrow> string \<Rightarrow> string \<Rightarrow> Tokens auth_op" where
  "Login_task X S identifier0 password userAgent ip =
     (let identifier = TrimSpace identifier0 in
      bindT (handleT (atomic (UserStore_GetByUsername X identifier)) (\<lambda>err.
               if err = StoreErrNotFound
               then mapErrT (\<lambda>_. ErrInvalidCredentials) (atomic (UserStore_GetByEmail X identifier))
               else throwT err)) (\<lambda>user.
      if user_Status user \<noteq> UserStatusActive then throwT ErrUserNotActive
      else
        bindT (Finished (PasswordHasher_Verify X password (user_PasswordHash user))) (\<lambda>valid.
        if \<not> valid then throwT ErrInvalidCredentials
        else issueTokens_task X S user userAgent ip)))"

text \<open>\<^verbatim>\<open>Revoke(ctx, session.ID, time.Now())\<close> reads the clock and then runs its statement.\<close>

definition revoke_task :: "uuid \<Rightarrow> unit auth_op" where
  "revoke_task i = bindT (atomic time_Now) (\<lambda>now. atomic (SessionStore_Revoke i now))"

definition Refresh_task :: "ext \<Rightarrow> AuthService \<Rightarrow> string \<Rightarrow> string \<Rightarrow> string \<Rightarrow> Tokens auth_op" where
  "Refresh_task X S refreshToken userAgent ip =
     bindT (atomic (mapErrE (\<lambda>e. if e = StoreErrNotFound then ErrInvalidRefresh else e)
              (SessionStore_GetByTokenHash (HashRefreshToken X refreshToken)))) (\<lambda>session.
     bindT (handleT (atomic (UserStore_GetByID (session_UserID session))) (\<lambda>err.
              if err = StoreErrNotFound
              then bindT (ignoreT (revoke_task (session_ID session))) (\<lambda>_. throwT ErrInvalidRefresh)
              else throwT err)) (\<lambda>user.
     if user_Status user \<noteq> UserStatusActive then throwT ErrUserNotActive
     else
       bindT (atomic time_Now) (\<lambda>now.
       bindT (atomic (SessionStore_Revoke (session_ID session) now)) (\<lambda>_.
       issueTokens_task X S user userAgent ip))))"

definition Logout_task :: "ext \<Rightarrow> string \<Rightarrow> unit auth_op" where
  "Logout_task X refreshToken =
     handleT
       (bindT (atomic (SessionStore_GetByTokenHash (HashRefreshToken X refreshToken))) (\<lambda>session.
        ignoreT (revoke_task (session_ID session))))
       (\<lambda>_. returnT ())"

lemmas auth_task_defs =
  issueTokens_task_def Register_task_def Login_task_def revoke_task_def Refresh_task_def Logout_task_def

lemma run_issueTokens_task [run_simps]: "run (issueTokens_task X S u ua ip) = AuthService_issueTokens X S u ua ip"
  by (simp add: issueTokens_task_def AuthService_issueTokens_def run_simps split_def)

lemma run_revoke_task [run_simps]: "run (revoke_task i) = revoke_now i"
  by (simp add: revoke_task_def revoke_now_def run_simps)

lemma run_Register_task: "run (Register_task X S a b c) = AuthService_Register X S a b c"
  by (simp add: Register_task_def AuthService_Register_def run_simps Let_def cong: if_cong)

lemma run_Login_task: "run (Login_task X S a b ua ip) = AuthService_Login X S a b ua ip"
  by (simp add: Login_task_def AuthService_Login_def login_lookup_def run_simps Let_def cong: if_cong)

lemma run_Refresh_task: "run (Refresh_task X S t ua ip) = AuthService_Refresh X S t ua ip"
  by (simp add: Refresh_task_def AuthService_Refresh_def revoke_now_def run_simps bindE_assoc cong: if_cong)

lemma run_Logout_task: "run (Logout_task X t) = AuthService_Logout X t"
  by (simp add: Logout_task_def AuthService_Logout_def run_simps)

section \<open>Requests\<close>

datatype auth_request =
    ReqRegister string string string
  | ReqLogin string string string string
  | ReqRefresh string string string
  | ReqLogout string

definition with_result :: "('a \<Rightarrow> 'b) \<Rightarrow> 'a auth_op \<Rightarrow> 'b auth_op" where
  "with_result f t = bindT t (\<lambda>x. returnT (f x))"

fun auth_task :: "ext \<Rightarrow> AuthService \<Rightarrow> auth_request \<Rightarrow> Tokens option auth_op" where
  "auth_task X S (ReqRegister username email password) = with_result (\<lambda>_. None) (Register_task X S username email password)"
| "auth_task X S (ReqLogin identifier password ua ip) = with_result Some (Login_task X S identifier password ua ip)"
| "auth_task X S (ReqRefresh token ua ip) = with_result Some (Refresh_task X S token ua ip)"
| "auth_task X S (ReqLogout token) = with_result (\<lambda>_. None) (Logout_task X token)"

fun presents :: "string \<Rightarrow> auth_request \<Rightarrow> bool" where
  "presents token (ReqRefresh t ua ip) = (t = token)"
| "presents token _ = False"

text \<open>The result of a request that handed out tokens.\<close>

fun issued :: "error + Tokens option \<Rightarrow> bool" where
  "issued (Inr (Some t)) = True"
| "issued _ = False"

section \<open>What no request can undo\<close>

text \<open>A session that a request has read stays in its table, with its id and token hash.\<close>

definition session_keys :: "db \<Rightarrow> (uuid \<times> string) list" where
  "session_keys d = map (\<lambda>s. (session_ID s, session_TokenHash s)) (user_sessions d)"

definition known :: "ext \<Rightarrow> string \<Rightarrow> uuid \<Rightarrow> db \<Rightarrow> bool" where
  "known X token i d \<longleftrightarrow> db_ok X d \<and> (i, HashRefreshToken X token) \<in> set (session_keys d)"

lemma known_stmt:
  assumes "stmt_keeps (db_ok X) f"
    and "\<And>a d x d'. f a d = Inr (x, d') \<Longrightarrow> \<exists>new. session_keys d' = session_keys d @ new"
  shows "stmt_keeps (known X token i) f"
proof (rule stmt_keepsI)
  fix a d x d' assume k: "known X token i d" and r: "f a d = Inr (x, d')"
  from assms(2) [OF r] obtain new where "session_keys d' = session_keys d @ new" by blast
  moreover have "db_ok X d'" using assms(1) k r by (auto simp: stmt_keeps_def known_def)
  ultimately show "known X token i d'" using k by (simp add: known_def)
qed

lemma known_stmts:
  "stmt_keeps (known X token i) (sql_sessions_insert X ns)"
  "stmt_keeps (known X token i) (sql_sessions_update p (\<lambda>s. s\<lparr>session_RevokedAt := Some t\<rparr>))"
  "stmt_keeps (known X token i) (sql_users_insert X nu)"
  "stmt_keeps (known X token i) (sql_user_roles_insert u q)"
proof -
  show "stmt_keeps (known X token i) (sql_sessions_insert X ns)"
    by (rule known_stmt [OF sql_sessions_insert_ok]) (auto simp: session_keys_def dest!: sql_sessions_insert_Inr)
  show "stmt_keeps (known X token i) (sql_sessions_update p (\<lambda>s. s\<lparr>session_RevokedAt := Some t\<rparr>))"
    by (rule known_stmt [OF sql_sessions_update_ok])
       (auto simp: session_keys_def sql_sessions_update_def map_update_rows)
  show "stmt_keeps (known X token i) (sql_users_insert X nu)"
    by (rule known_stmt [OF sql_users_insert_ok]) (auto simp: session_keys_def sql_users_insert_def Let_def split: if_splits)
  show "stmt_keeps (known X token i) (sql_user_roles_insert u q)"
    by (rule known_stmt [OF sql_user_roles_insert_ok])
       (auto simp: session_keys_def sql_user_roles_insert_def Let_def split: if_splits)
qed

lemma auth_task_keeps:
  assumes "\<And>ns. stmt_keeps B (sql_sessions_insert X ns)"
    and "\<And>p t. stmt_keeps B (sql_sessions_update p (\<lambda>s. s\<lparr>session_RevokedAt := Some t\<rparr>))"
    and "\<And>nu. stmt_keeps B (sql_users_insert X nu)" "\<And>u q. stmt_keeps B (sql_user_roles_insert u q)"
  shows "keepsT (on_db B) (auth_task X S q)"
  by (cases q)
     (simp_all only: auth_task.simps with_result_def auth_task_defs user_store_defs Let_def,
      (intro keepsT_intros keeps_intros assms | simp)+)

definition assertions :: "ext \<Rightarrow> string \<Rightarrow> (world \<Rightarrow> bool) set" where
  "assertions X token = insert (on_db (db_ok X)) {on_db (known X token i) | i. True}"

lemma revoke_claims:
  assumes "known X token i (w_db w)" "SessionStore_Revoke i at w = (Inr (), w1)"
  shows "\<not> spent X token (w_db w) \<and> spent X token (w_db w1)"
proof -
  let ?p = "\<lambda>s. session_ID s = i \<and> session_RevokedAt s = None"
  from assms(1) obtain s where s: "s \<in> set (user_sessions (w_db w))" "session_ID s = i"
    "session_TokenHash s = HashRefreshToken X token" by (auto simp: known_def session_keys_def)
  have ok: "sessions_ok (w_db w)" using assms(1) by (simp add: known_def db_ok_def)
  from assms(2) [unfolded SessionStore_Revoke_def] have
    n: "count_rows ?p (user_sessions (w_db w)) \<noteq> 0"
    and w1: "w_db w1 = (w_db w)\<lparr>user_sessions := update_rows ?p (\<lambda>s. s\<lparr>session_RevokedAt := Some (pg_time at)\<rparr>) (user_sessions (w_db w))\<rparr>"
    by (cases rule: need_rows_cases; simp add: sql_sessions_update_def)+
  from n obtain s' where s': "s' \<in> set (user_sessions (w_db w))" "?p s'"
    by (auto simp: count_rows_def filter_empty_conv)
  then have "s' = s" using s ok by (simp add: sessions_ok_def) (metis distinct_map inj_onD)
  then have "\<not> spent X token (w_db w)" using s s' by (auto simp: spent_def)
  with spent_after_revoke [OF ok s(1,3)] s(2) show ?thesis by (simp add: w1)
qed

lemma spent_tasks: "keepsT (on_db (spent X token)) (auth_task X S q)"
  by (intro auth_task_keeps spent_stmts)

lemma assertions_kept: "B \<in> assertions X token \<Longrightarrow> keepsT B (auth_task X S q)"
  by (auto simp: assertions_def intro!: auth_task_keeps known_stmts sql_sessions_insert_ok
      sql_sessions_update_ok sql_users_insert_ok sql_user_roles_insert_ok)

lemma in_assertions [simp]: "on_db (db_ok X) \<in> assertions X token" "on_db (known X token i) \<in> assertions X token"
  by (auto simp: assertions_def)

text \<open>What is left of a refresh when it has read the session.\<close>

definition Refresh_rest :: "ext \<Rightarrow> AuthService \<Rightarrow> string \<Rightarrow> string \<Rightarrow> Session \<Rightarrow> Tokens option auth_op" where
  "Refresh_rest X S ua ip session =
     bindT (handleT (atomic (UserStore_GetByID (session_UserID session))) (\<lambda>err.
              if err = StoreErrNotFound
              then bindT (ignoreT (revoke_task (session_ID session))) (\<lambda>_. throwT ErrInvalidRefresh)
              else throwT err)) (\<lambda>user.
     if user_Status user \<noteq> UserStatusActive then throwT ErrUserNotActive
     else bindT (atomic time_Now) (\<lambda>now. bindT (atomic (SessionStore_Revoke (session_ID session) now)) (\<lambda>_.
       with_result Some (issueTokens_task X S user ua ip))))"

lemma Refresh_split:
  "auth_task X S (ReqRefresh token ua ip) =
     bindT (atomic (mapErrE (\<lambda>e. if e = StoreErrNotFound then ErrInvalidRefresh else e)
              (SessionStore_GetByTokenHash (HashRefreshToken X token)))) (Refresh_rest X S ua ip)"
  unfolding auth_task.simps with_result_def Refresh_task_def Refresh_rest_def bindT_assoc bindT_if bindT_throwT ..

text \<open>From there on a refresh has to revoke the session to succeed.\<close>

lemma revoke_call_claims:
  "claims (assertions X token) (on_db (spent X token)) issued (bindT (atomic (SessionStore_Revoke i now)) k)
     (on_db (known X token i))"
proof (rule claims_call)
  show "keeps (on_db (known X token i)) (SessionStore_Revoke i now)"
    unfolding user_store_defs by (intro keeps_intros known_stmts)
qed (auto simp: on_db_def dest: revoke_claims)

lemma Refresh_rest_claims:
  "claims (assertions X token) (on_db (spent X token)) issued (Refresh_rest X S ua ip session)
     (on_db (known X token (session_ID session)))"
  unfolding Refresh_rest_def
proof (rule claims_bindT)
  let ?B = "on_db (known X token (session_ID session))"
  show "keepsT ?B (handleT (atomic (UserStore_GetByID (session_UserID session))) (\<lambda>err.
      if err = StoreErrNotFound then bindT (ignoreT (revoke_task (session_ID session))) (\<lambda>_. throwT ErrInvalidRefresh)
      else throwT err))"
    unfolding revoke_task_def user_store_defs by (intro keepsT_intros keeps_intros known_stmts)
  have "claims (assertions X token) (on_db (spent X token)) issued
      (bindT (atomic time_Now) (\<lambda>now. bindT (atomic (SessionStore_Revoke (session_ID session) now)) k)) ?B"
    for k :: "unit \<Rightarrow> Tokens option auth_op"
    by (rule claims_bindT) (auto intro: revoke_call_claims keepsT_intros keeps_intros)
  then show "claims (assertions X token) (on_db (spent X token)) issued
      (if user_Status user \<noteq> UserStatusActive then throwT ErrUserNotActive
       else bindT (atomic time_Now) (\<lambda>now. bindT (atomic (SessionStore_Revoke (session_ID session) now)) (\<lambda>_.
         with_result Some (issueTokens_task X S user ua ip)))) ?B" for user
    by (simp add: claims_throwT)
qed simp_all

lemma Refresh_claims:
  "claims (assertions X token) (on_db (spent X token)) issued (auth_task X S (ReqRefresh token ua ip)) (on_db (db_ok X))"
  unfolding Refresh_split
proof (rule claims_call)
  let ?get = "mapErrE (\<lambda>e. if e = StoreErrNotFound then ErrInvalidRefresh else e)
      (SessionStore_GetByTokenHash (HashRefreshToken X token))"
  show "keeps (on_db (db_ok X)) ?get" unfolding SessionStore_GetByTokenHash_def by (intro keeps_intros)
  fix w w1 session
  assume w: "on_db (db_ok X) w" and get: "?get w = (Inr session, w1)"
  from get have "w1 = tick w" "session \<in> set (user_sessions (w_db w))" "session_TokenHash session = HashRefreshToken X token"
    by (auto simp: mapErrE_Inr_iff SessionStore_GetByTokenHash_def dest!: scan_query_result find_SomeD)
  with w have "on_db (known X token (session_ID session)) w1"
    by (force simp: on_db_def known_def session_keys_def)
  with Refresh_rest_claims show "\<not> on_db (spent X token) w \<and> on_db (spent X token) w1 \<or>
      (\<exists>B \<in> assertions X token. B w1 \<and> claims (assertions X token) (on_db (spent X token)) issued (Refresh_rest X S ua ip session) B)"
    by (intro disjI2 bexI [where x = "on_db (known X token (session_ID session))"]) simp_all
qed simp_all

interpretation refreshC: contended "assertions X token" "on_db (spent X token)" "on_db (db_ok X)" issued
    "auth_task X S" "presents token" for X S token
proof
  show "presents token q \<Longrightarrow> claims (assertions X token) (on_db (spent X token)) issued (auth_task X S q) (on_db (db_ok X))" for q
    by (cases q) (simp_all only: presents.simps Refresh_claims)
qed (simp_all add: assertions_kept spent_tasks)

section \<open>A refresh token is exchanged once\<close>

text \<open>C16: However registrations, logins, refreshes and logouts interleave, call by call, and
  whatever fails, at most one of the refreshes that present the same token hands out tokens. The
  token is spent from then on, and the constraints of the schema hold.\<close>

theorem concurrent_refresh_once:
  assumes "db_ok X (w_db w)" "schedule sch (w, map (auth_task X S) qs) = (w1, ts)"
    and "i < length qs" "presents token (qs ! i)" "ts ! i = Finished (Inr (Some t))"
  shows "db_ok X (w_db w1) \<and> spent X token (w_db w1) \<and>
    (\<forall>j t'. j < length qs \<and> presents token (qs ! j) \<and> ts ! j = Finished (Inr (Some t')) \<longrightarrow> j = i)"
proof -
  have w: "on_db (db_ok X) w" using assms(1) by (simp add: on_db_def)
  have "on_db (db_ok X) w1"
    by (rule schedule_keeps [where B = "on_db (db_ok X)", OF assms(2) w])
       (auto intro: assertions_kept [where token = token])
  with refreshC.one_winner [OF w assms(2-5)] show ?thesis by (auto simp: on_db_def)
qed

text \<open>The request that comes second learns from its own statement that the session is gone, and
  hands on the store's error.\<close>

lemma revoke_lost:
  assumes "calm w" "known X token i (w_db w)" "spent X token (w_db w)"
  shows "SessionStore_Revoke i at w = (Inl StoreErrNotFound, tick w)"
proof -
  let ?p = "\<lambda>s. session_ID s = i \<and> session_RevokedAt s = None"
  from assms(2) obtain s where s: "s \<in> set (user_sessions (w_db w))" "session_ID s = i"
    "session_TokenHash s = HashRefreshToken X token" by (auto simp: known_def session_keys_def)
  have ok: "sessions_ok (w_db w)" using assms(2) by (simp add: known_def db_ok_def)
  have none: "\<not> ?p r" if "r \<in> set (user_sessions (w_db w))" for r
  proof
    assume p: "?p r"
    with s that ok have "r = s" by (simp add: sessions_ok_def) (metis distinct_map inj_onD)
    with p s assms(3) show False by (force simp: spent_def)
  qed
  then have "count_rows ?p (user_sessions (w_db w)) = 0" by (simp add: count_rows_0_iff)
  moreover have "update_rows ?p f (user_sessions (w_db w)) = user_sessions (w_db w)" for f
    using none by (intro update_rows_id)
  ultimately show ?thesis
    using assms(1) by (simp add: SessionStore_Revoke_def need_rows_def bindE_def sql_calm sql_sessions_update_def)
qed

subsection \<open>Two refreshes at once\<close>

text \<open>Both requests read the session; the first then runs to its end, and after it the second.\<close>

definition sample_refreshes :: "auth_request list" where
  "sample_refreshes = [ReqRefresh ''token'' ''agent'' [], ReqRefresh ''token'' ''agent'' []]"

lemma second_refresh_fails:
  assumes "calm w" "known X token (session_ID s) (w_db w)" "spent X token (w_db w)"
    and u: "find_key user_ID (session_UserID s) (users (w_db w)) = Some usr" "user_Status usr = UserStatusActive"
  shows "fst (run (Refresh_rest X S ua ip s) w) = Inl StoreErrNotFound"
proof -
  have "UserStore_GetByID (session_UserID s) w = (Inr usr, tick w)"
    using assms(1) u(1) by (simp add: UserStore_GetByID_def scan_query_calm)
  moreover have "SessionStore_Revoke (session_ID s) now (tick (tick w)) = (Inl StoreErrNotFound, tick (tick (tick w)))" for now
    using assms(1-3) by (intro revoke_lost [where X = X and token = token]) simp_all
  ultimately show ?thesis using u(2) by (simp add: Refresh_rest_def run_simps bindE_def handleE_def time_Now_def)
qed

lemma session_world_tick:
  "session_active (ans_now (stmt_answer (tick session_world))) sample_session"
  "login_env sample_ext ''agent'' [] (tick (tick (tick (tick session_world))))"
  using sample_token_fresh
  by (simp_all add: session_world_def sample_session_def sample_db_def session_active_def stmt_answer_def
      sample_answer_def pg_time_def login_env_def normalizeIP_def SplitHostPort_no_colon pg_text_ascii)

lemma session_world_ok: "db_ok sample_ext (w_db session_world)"
  using sample_db_ok session_world_facts(2) by (simp add: session_world_def db_ok_def schema_defs)

lemma calm_tasks: "keepsT calm (auth_task X S q)"
  by (cases q)
     (simp_all only: auth_task.simps with_result_def auth_task_defs user_store_defs auth_defs Let_def,
      (intro keepsT_intros keeps_intros | simp)+)

lemma second_reads:
  "\<exists>n. schedule (replicate n 1) (session_world, map (auth_task sample_ext sample_service) sample_refreshes) =
     (tick session_world, [auth_task sample_ext sample_service (ReqRefresh ''token'' ''agent'' []),
                           Refresh_rest sample_ext sample_service ''agent'' [] sample_session])"
proof -
  let ?pool = "map (auth_task sample_ext sample_service) sample_refreshes"
  let ?get = "mapErrE (\<lambda>e. if e = StoreErrNotFound then ErrInvalidRefresh else e)
      (SessionStore_GetByTokenHash (HashRefreshToken sample_ext ''token''))"
  have "find (\<lambda>r. session_TokenHash r = HashRefreshToken sample_ext ''token'' \<and>
      session_active (ans_now (stmt_answer session_world)) r) (user_sessions (w_db session_world)) = Some sample_session"
    using session_world_facts(4,5) by (simp add: session_world_def live_session_def)
  moreover have "list_all pg_text [HashRefreshToken sample_ext ''token'']" by (simp add: HashRefreshToken_def hex_text)
  ultimately have "run (atomic ?get) session_world = (Inr sample_session, tick session_world)"
    using session_world_facts(1)
    by (simp add: run_simps mapErrE_Inr_iff SessionStore_GetByTokenHash_def scan_query_calm)
  from schedule_run_bind [OF _ _ this, of 1 ?pool "Refresh_rest sample_ext sample_service ''agent'' []"] show ?thesis
    by (simp add: sample_refreshes_def Refresh_split del: auth_task.simps)
qed

lemma first_refresh_wins:
  "\<exists>t w1. run (auth_task sample_ext sample_service (ReqRefresh ''token'' ''agent'' [])) (tick session_world) = (Inr (Some t), w1) \<and>
     users (w_db w1) = users (w_db session_world)"
proof -
  have "live_session sample_ext ''token'' sample_session" by (rule session_world_facts(4))
  moreover have "calm (tick session_world)" using session_world_facts(1) by simp
  ultimately obtain t w1 where
    r: "AuthService_Refresh sample_ext sample_service ''token'' ''agent'' [] (tick session_world) = (Inr t, w1)"
    using Refresh_succeeds [of sample_session "tick session_world" sample_ext "''token''" alice "''agent''" "[]" sample_service]
      session_world_facts session_world_tick sample_jwt_signs by auto
  have "users (w_db w1) = users (w_db session_world)" using Refresh_Inr [OF r] by auto
  with r show ?thesis by (simp add: with_result_def run_simps run_Refresh_task bindE_def)
qed

theorem concurrent_refresh_once_witness:
  "\<exists>sch w1 ts t. schedule sch (session_world, map (auth_task sample_ext sample_service) sample_refreshes) = (w1, ts) \<and>
     ts ! 0 = Finished (Inr (Some t)) \<and> ts ! 1 = Finished (Inl StoreErrNotFound) \<and> spent sample_ext ''token'' (w_db w1)"
proof -
  let ?pool = "map (auth_task sample_ext sample_service) sample_refreshes"
  obtain k ts1 where one: "schedule (replicate k 1) (session_world, ?pool) = (tick session_world, ts1)"
    and ts1: "length ts1 = 2" "ts1 ! 0 = auth_task sample_ext sample_service (ReqRefresh ''token'' ''agent'' [])"
      "ts1 ! 1 = Refresh_rest sample_ext sample_service ''agent'' [] sample_session"
    using second_reads by fastforce
  obtain t w2 where t: "run (ts1 ! 0) (tick session_world) = (Inr (Some t), w2)"
    and us: "users (w_db w2) = users (w_db session_world)"
    using first_refresh_wins ts1(2) by auto
  obtain n where "schedule (replicate n 0) (tick session_world, ts1) = (w2, ts1[0 := Finished (Inr (Some t))])"
    using schedule_run [OF _ t] ts1(1) by auto
  then have two: "schedule (replicate k 1 @ replicate n 0) (session_world, ?pool) = (w2, ts1[0 := Finished (Inr (Some t))])"
    using one by (simp add: schedule_append)
  have q: "0 < length sample_refreshes" "presents ''token'' (sample_refreshes ! 0)" by (simp_all add: sample_refreshes_def)
  have "spent sample_ext ''token'' (w_db w2)"
    using concurrent_refresh_once [OF session_world_ok two q, of t] ts1(1) by simp
  moreover have "calm w2" by (rule schedule_keeps [OF two]) (use session_world_facts(1) calm_tasks in auto)
  moreover have "known sample_ext ''token'' (session_ID sample_session) (w_db session_world)"
    using session_world_ok by (simp add: known_def session_keys_def session_world_def sample_session_def)
  then have "on_db (known sample_ext ''token'' (session_ID sample_session)) w2"
    by (intro schedule_keeps [where B = "on_db _", OF two])
       (simp add: on_db_def, auto simp del: auth_task.simps intro: assertions_kept [where token = "''token''"])
  ultimately have lost: "fst (run (ts1 ! 1) w2) = Inl StoreErrNotFound"
    unfolding ts1(3) using us session_world_facts(6,7) by (intro second_refresh_fails) (simp_all add: on_db_def)
  obtain m where "schedule (replicate m 1) (w2, ts1[0 := Finished (Inr (Some t))]) =
      (snd (run (ts1 ! 1) w2), ts1[0 := Finished (Inr (Some t)), 1 := Finished (Inl StoreErrNotFound)])"
    using schedule_run [of 1 "ts1[0 := Finished (Inr (Some t))]" w2 "Inl StoreErrNotFound"] ts1(1) lost by (auto simp: prod_eq_iff)
  then have all: "schedule ((replicate k 1 @ replicate n 0) @ replicate m 1) (session_world, ?pool) =
      (snd (run (ts1 ! 1) w2), ts1[0 := Finished (Inr (Some t)), 1 := Finished (Inl StoreErrNotFound)])"
    by (simp only: schedule_append [of "replicate k 1 @ replicate n 0"] two)
  let ?ts = "ts1[0 := Finished (Inr (Some t)), 1 := Finished (Inl StoreErrNotFound)]"
  have ends: "?ts ! 0 = Finished (Inr (Some t))" "?ts ! 1 = Finished (Inl StoreErrNotFound)" using ts1(1) by simp_all
  from concurrent_refresh_once [OF session_world_ok all q ends(1)] all ends show ?thesis by blast
qed

end
