(* ===== verification/Forum_Spec.thy ===== *)
theory Forum_Spec
  imports Forum_Service Samples
begin

text \<open>
  What the forum promises. The abstract forum maps a thread to its group, author, title, flags
  and posts, and forgets statistics, times and views; \<open>forum_step\<close> lists the changes a user
  with given roles may make to it. The services simulate it: whatever fails, an operation
  leaves the abstract forum as it was or makes one permitted step.
\<close>

section \<open>The abstract forum\<close>

record athread =
  at_group :: uuid
  at_author :: uuid
  at_title :: string
  at_pinned :: bool
  at_locked :: bool
  at_posts :: "(uuid \<times> uuid \<times> string) list"

type_synonym forum = "uuid \<rightharpoonup> athread"

definition post_view :: "Post \<Rightarrow> uuid \<times> uuid \<times> string" where
  "post_view p = (post_ID p, post_AuthorID p, post_Body p)"

definition post_views :: "Post list \<Rightarrow> uuid \<Rightarrow> (uuid \<times> uuid \<times> string) list" where
  "post_views ps i = map post_view (filter (\<lambda>p. post_ThreadID p = i) ps)"

definition thread_view :: "Post list \<Rightarrow> Thread \<Rightarrow> athread" where
  "thread_view ps t =
     \<lparr>at_group = thread_GroupID t, at_author = thread_AuthorID t, at_title = thread_Title t,
      at_pinned = thread_Pinned t, at_locked = thread_Locked t, at_posts = post_views ps (thread_ID t)\<rparr>"

definition forum_of :: "Thread list \<Rightarrow> Post list \<Rightarrow> forum" where
  "forum_of ts ps i = map_option (thread_view ps) (find_key thread_ID i ts)"

definition abs_forum :: "db \<Rightarrow> forum" where
  "abs_forum d = forum_of (threads d) (posts d)"

definition forum_posts :: "forum \<Rightarrow> uuid set" where
  "forum_posts F = (\<Union>T \<in> ran F. fst ` set (at_posts T))"

abbreviation valid_title :: "string \<Rightarrow> bool" where
  "valid_title t \<equiv> validateTitle t = Inr ()"

abbreviation valid_body :: "string \<Rightarrow> bool" where
  "valid_body b \<equiv> validateBody b = Inr ()"

inductive forum_step :: "uuid \<Rightarrow> string list \<Rightarrow> forum \<Rightarrow> forum \<Rightarrow> bool"
  for u :: uuid and rs :: "string list" where
  start: "F i = None \<Longrightarrow> p \<notin> forum_posts F \<Longrightarrow> valid_title t \<Longrightarrow> valid_body b \<Longrightarrow>
    forum_step u rs F (F(i \<mapsto> \<lparr>at_group = g, at_author = u, at_title = t, at_pinned = False,
                              at_locked = False, at_posts = [(p, u, b)]\<rparr>))"
| reply: "F i = Some T \<Longrightarrow> \<not> at_locked T \<Longrightarrow> p \<notin> forum_posts F \<Longrightarrow> valid_body b \<Longrightarrow>
    forum_step u rs F (F(i \<mapsto> T\<lparr>at_posts := at_posts T @ [(p, u, b)]\<rparr>))"
| edit: "F i = Some T \<Longrightarrow> (p, u, b0) \<in> set (at_posts T) \<Longrightarrow> valid_body b \<Longrightarrow>
    forum_step u rs F
      (F(i \<mapsto> T\<lparr>at_posts := map (\<lambda>q. if fst q = p then (p, u, b) else q) (at_posts T)\<rparr>))"
| rename: "F i = Some T \<Longrightarrow> at_author T = u \<or> moderator rs \<Longrightarrow>
    t = at_title T \<or> at_author T = u \<and> valid_title t \<Longrightarrow>
    (pin = at_pinned T \<and> lock = at_locked T) \<or> moderator rs \<Longrightarrow>
    forum_step u rs F (F(i \<mapsto> T\<lparr>at_title := t, at_pinned := pin, at_locked := lock\<rparr>))"
| withdraw: "F i = Some T \<Longrightarrow> (p, a, b) \<in> set (at_posts T) \<Longrightarrow> a = u \<or> moderator rs \<Longrightarrow>
    forum_step u rs F (F(i \<mapsto> T\<lparr>at_posts := filter (\<lambda>q. fst q \<noteq> p) (at_posts T)\<rparr>))"
| remove: "F i = Some T \<Longrightarrow> at_author T = u \<or> moderator rs \<Longrightarrow> forum_step u rs F (F(i := None))"

section \<open>The tables as an abstract forum\<close>

lemma forum_of_Some:
  "forum_of ts ps i = Some T \<longleftrightarrow> (\<exists>t. find_key thread_ID i ts = Some t \<and> T = thread_view ps t)"
  by (auto simp: forum_of_def)

lemma forum_of_None: "forum_of ts ps i = None \<longleftrightarrow> i \<notin> thread_ID ` set ts"
  by (simp add: forum_of_def threadT.find_key_None)

lemma in_post_views: "x \<in> set (post_views ps i) \<longleftrightarrow> (\<exists>p \<in> set ps. post_ThreadID p = i \<and> x = post_view p)"
  by (auto simp: post_views_def)

lemma forum_posts_of: "forum_posts (forum_of ts ps) \<subseteq> post_ID ` set ps"
  by (auto simp: forum_posts_def ran_def forum_of_Some thread_view_def in_post_views post_view_def)

text \<open>A change of the posts that concerns one thread only, a change of one thread's row, a new
  thread, and the removal of a thread with its posts.\<close>

lemma forum_of_posts:
  assumes "find_key thread_ID i ts = Some t" "\<And>j. j \<noteq> i \<Longrightarrow> post_views ps' j = post_views ps j"
  shows "forum_of ts ps' = (forum_of ts ps)(i \<mapsto> (thread_view ps t)\<lparr>at_posts := post_views ps' i\<rparr>)"
proof
  fix j
  have "thread_view ps' s = thread_view ps s" if "find_key thread_ID j ts = Some s" "j \<noteq> i" for s
    using that assms(2) by (auto simp: thread_view_def dest: threadT.find_key_Some)
  moreover have "thread_ID t = i" using assms(1) by (simp add: threadT.find_key_Some)
  ultimately show "forum_of ts ps' j =
      ((forum_of ts ps)(i \<mapsto> (thread_view ps t)\<lparr>at_posts := post_views ps' i\<rparr>)) j"
    using assms(1) by (cases "find_key thread_ID j ts") (auto simp: forum_of_def thread_view_def)
qed

lemma forum_of_update:
  assumes "find_key thread_ID i ts = Some t" "\<And>t. thread_ID (f t) = thread_ID t"
  shows "forum_of (update_rows (\<lambda>t. thread_ID t = i) f ts) ps = (forum_of ts ps)(i \<mapsto> thread_view ps (f t))"
  using assms by (auto simp: forum_of_def fun_eq_iff threadT.find_key_update)

lemma forum_of_update_same:
  assumes "\<And>t. thread_ID (f t) = thread_ID t" "\<And>t. thread_view ps (f t) = thread_view ps t"
  shows "forum_of (update_rows p f ts) ps = forum_of ts ps"
proof
  fix j
  show "forum_of (update_rows p f ts) ps j = forum_of ts ps j"
    using assms by (cases "find_key thread_ID j ts")
      (auto simp: forum_of_def threadT.find_key_update_where)
qed

lemma forum_of_insert:
  assumes "thread_ID t \<notin> thread_ID ` set ts"
  shows "forum_of (ts @ [t]) ps = (forum_of ts ps)(thread_ID t \<mapsto> thread_view ps t)"
  using assms
  by (auto simp: forum_of_def fun_eq_iff threadT.find_key_insert threadT.find_key_insert_other)

lemma forum_of_delete:
  assumes "\<And>j. j \<noteq> i \<Longrightarrow> post_views ps' j = post_views ps j"
  shows "forum_of (delete_rows (\<lambda>t. thread_ID t = i) ts) ps' = (forum_of ts ps)(i := None)"
proof
  fix j
  show "forum_of (delete_rows (\<lambda>t. thread_ID t = i) ts) ps' j = ((forum_of ts ps)(i := None)) j"
    using assms by (cases "find_key thread_ID j ts")
      (auto simp: forum_of_def threadT.find_key_delete thread_view_def dest: threadT.find_key_Some)
qed

section \<open>The outcomes of the writing operations\<close>

text \<open>The rows that starting a thread adds: one transaction, hence one time.\<close>

definition created_thread :: "uuid \<Rightarrow> NewThread \<Rightarrow> time \<Rightarrow> Thread" where
  "created_thread i nt at =
     \<lparr>thread_ID = i, thread_GroupID = newthread_GroupID nt, thread_AuthorID = newthread_AuthorID nt,
      thread_Title = newthread_Title nt, thread_Pinned = False, thread_Locked = False,
      thread_Views = 0, thread_PostCount = 1, thread_LastPostAt = Some at,
      thread_CreatedAt = at, thread_UpdatedAt = at\<rparr>"

definition created_post :: "uuid \<Rightarrow> NewPost \<Rightarrow> time \<Rightarrow> Post" where
  "created_post j np at =
     \<lparr>post_ID = j, post_ThreadID = newpost_ThreadID np, post_AuthorID = newpost_AuthorID np,
      post_Body = newpost_Body np, post_EditedByID = None, post_EditedAt = None,
      post_CreatedAt = at, post_UpdatedAt = at\<rparr>"

lemma sql_posts_insert_Inr:
  "sql_posts_insert np a d = Inr (p, d') \<longleftrightarrow>
     ans_uuid a \<notin> post_ids d \<and> newpost_ThreadID np \<in> thread_ids d \<and> newpost_AuthorID np \<in> user_ids d \<and>
     p = created_post (ans_uuid a) np (ans_now a) \<and> d' = d\<lparr>posts := posts d @ [p]\<rparr>"
  by (auto simp: sql_posts_insert_def created_post_def Let_def)

lemma sql_threads_insert_Inr:
  "sql_threads_insert nt a d = Inr (t, d') \<longleftrightarrow>
     ans_uuid a \<notin> thread_ids d \<and> newthread_GroupID nt \<in> group_ids d \<and> newthread_AuthorID nt \<in> user_ids d \<and>
     t = (created_thread (ans_uuid a) nt (ans_now a))\<lparr>thread_PostCount := 0, thread_LastPostAt := None\<rparr> \<and>
     d' = d\<lparr>threads := threads d @ [t]\<rparr>"
  by (auto simp: sql_threads_insert_def created_thread_def Let_def)

lemma sql_threads_update_Inr:
  "sql_threads_update i f a d = Inr (x, d') \<Longrightarrow>
     d' = d\<lparr>threads := update_rows (\<lambda>t. thread_ID t = i) (f a d) (threads d)\<rparr> \<and>
     x = find_key thread_ID i (threads d')"
  by (auto simp: sql_threads_update_def Let_def split: if_splits)

lemma update_last:
  "thread_ID t \<notin> thread_ID ` set ts \<Longrightarrow>
     update_rows (\<lambda>s. thread_ID s = thread_ID t) f (ts @ [t]) = ts @ [f t]"
proof -
  assume "thread_ID t \<notin> thread_ID ` set ts"
  then have "update_rows (\<lambda>s. thread_ID s = thread_ID t) f ts = ts"
    by (intro update_rows_id) (metis imageI)
  then show ?thesis by (simp add: update_rows_Cons)
qed

lemma ThreadStore_Create_cases:
  assumes run: "ThreadStore_Create nt first w = (r, w1)"
  obtains (unchanged) e where "r = Inl e" "w_db w1 = w_db w"
  | (created) i j at where "i \<notin> thread_ids (w_db w)" "j \<notin> post_ids (w_db w)"
      "newthread_GroupID nt \<in> group_ids (w_db w)" "newthread_AuthorID nt \<in> user_ids (w_db w)"
      "newpost_AuthorID first \<in> user_ids (w_db w)"
      "w_db w1 = (w_db w)\<lparr>threads := threads (w_db w) @ [created_thread i nt at],
         posts := posts (w_db w) @ [created_post j (first\<lparr>newpost_ThreadID := i\<rparr>) at]\<rparr>"
      "\<forall>th. r = Inr th \<longrightarrow> th = created_thread i nt at"
  using run [unfolded ThreadStore_Create_def]
proof (cases rule: with_tx_cases)
  case (committed x w2)
  let ?w0 = "(tick w)\<lparr>w_tx := Some (ans_now (w_env w (w_tick w)))\<rparr>"
  let ?at = "pg_time (ans_now (w_env w (w_tick w)))"
  from committed(1) obtain th wa p wb y where
      a: "sql [newthread_Title nt] (sql_threads_insert nt) ?w0 = (Inr th, wa)"
    and b: "sql [newpost_Body first] (sql_posts_insert (first\<lparr>newpost_ThreadID := thread_ID th\<rparr>)) wa = (Inr p, wb)"
    and c: "sql [] (sql_threads_update (thread_ID th) (bump_post (post_CreatedAt p))) wb = (Inr y, w2)"
    and x: "x = th\<lparr>thread_PostCount := 1, thread_LastPostAt := Some (post_CreatedAt p)\<rparr>"
    by (auto simp: bindE_Inr_iff)
  define i where "i = ans_uuid (stmt_answer ?w0)"
  from sql_Inr [OF a] have th: "th = (created_thread i nt ?at)\<lparr>thread_PostCount := 0, thread_LastPostAt := None\<rparr>"
    and wa: "wa = (tick ?w0)\<lparr>w_db := (w_db w)\<lparr>threads := threads (w_db w) @ [th]\<rparr>\<rparr>"
    and fresh: "i \<notin> thread_ids (w_db w)" "newthread_GroupID nt \<in> group_ids (w_db w)"
      "newthread_AuthorID nt \<in> user_ids (w_db w)"
    by (auto simp: sql_threads_insert_Inr stmt_answer_tx i_def)
  have ID: "thread_ID th = i" by (simp add: th created_thread_def)
  define j where "j = ans_uuid (stmt_answer wa)"
  from sql_Inr [OF b] have p: "p = created_post j (first\<lparr>newpost_ThreadID := i\<rparr>) ?at"
    and wb: "wb = (tick wa)\<lparr>w_db := (w_db wa)\<lparr>posts := posts (w_db wa) @ [p]\<rparr>\<rparr>"
    and fresh2: "j \<notin> post_ids (w_db w)" "newpost_AuthorID first \<in> user_ids (w_db w)"
    by (auto simp: sql_posts_insert_Inr stmt_answer_tx j_def wa ID)
  have bump: "bump_post (post_CreatedAt p) (stmt_answer wb) (w_db wb) th = created_thread i nt ?at"
    by (simp add: bump_post_def th p created_post_def created_thread_def wa wb stmt_answer_tx)
  from sql_Inr [OF c] have "w_db w2 = (w_db wb)\<lparr>threads :=
      update_rows (\<lambda>t. thread_ID t = thread_ID th)
        (bump_post (post_CreatedAt p) (stmt_answer wb) (w_db wb)) (threads (w_db w) @ [th])\<rparr>"
    by (auto dest!: sql_threads_update_Inr simp: wb wa)
  also have "\<dots> = (w_db w)\<lparr>threads := threads (w_db w) @ [created_thread i nt ?at], posts := posts (w_db w) @ [p]\<rparr>"
    using fresh by (subst update_last) (simp add: ID, subst bump, simp add: wb wa)
  finally have "w_db w1 = \<dots>" using committed(2) by simp
  moreover have "x = created_thread i nt ?at" by (simp add: x th p created_thread_def created_post_def)
  ultimately show ?thesis using created [of i j ?at] fresh fresh2 committed(3) by (auto simp: p)
qed (use unchanged in blast)

section \<open>The views of changed posts\<close>

lemma post_views_insert:
  "post_views (ps @ [p]) j = (if post_ThreadID p = j then post_views ps j @ [post_view p] else post_views ps j)"
  by (simp add: post_views_def)

lemma post_views_edit:
  assumes "distinct (map post_ID ps)" "p \<in> set ps" "\<And>q. post_view (f q) = (post_ID q, post_AuthorID q, b)"
    and "\<And>q. post_ThreadID (f q) = post_ThreadID q"
  shows "post_views (update_rows (\<lambda>q. post_ID q = post_ID p) f ps) j =
    map (\<lambda>x. if fst x = post_ID p then (post_ID p, post_AuthorID p, b) else x) (post_views ps j)"
proof -
  have "q = p" if "q \<in> set ps" "post_ID q = post_ID p" for q
    using that assms(1,2) by (metis distinct_map inj_onD)
  then show ?thesis
    using assms(3,4) by (simp add: post_views_def filter_update_rows)
      (auto simp: update_rows_def post_view_def)
qed

lemma post_views_drop:
  "post_views (delete_rows (\<lambda>q. post_ID q = k) ps) j = filter (\<lambda>x. fst x \<noteq> k) (post_views ps j)"
  by (induction ps) (auto simp: post_views_def delete_rows_def post_view_def)

lemma post_views_other:
  assumes "distinct (map post_ID ps)" "p \<in> set ps" "j \<noteq> post_ThreadID p"
  shows "x \<in> set (post_views ps j) \<Longrightarrow> fst x \<noteq> post_ID p"
  using assms by (auto simp: in_post_views post_view_def) (metis distinct_map inj_onD)

section \<open>The forum after a change of one row\<close>

lemma post_thread:
  assumes "db_ok X d" "p \<in> set (posts d)"
  obtains t where "find_key thread_ID (post_ThreadID p) (threads d) = Some t"
    "abs_forum d (post_ThreadID p) = Some (thread_view (posts d) t)"
    "post_view p \<in> set (at_posts (thread_view (posts d) t))"
proof -
  from assms have "post_ThreadID p \<in> thread_ids d" by (auto simp: db_ok_def posts_ok_def)
  then obtain t where t: "find_key thread_ID (post_ThreadID p) (threads d) = Some t"
    using threadT.find_key_None [of "post_ThreadID p" "threads d"] by auto
  moreover from this have "thread_ID t = post_ThreadID p" by (simp add: threadT.find_key_Some)
  ultimately show ?thesis
    using assms(2) by (intro that) (auto simp: abs_forum_def forum_of_Some thread_view_def in_post_views)
qed

lemma abs_forum_start:
  assumes "db_ok X d" "i \<notin> thread_ids d" "newpost_ThreadID np = i"
  shows "abs_forum (d\<lparr>threads := threads d @ [created_thread i nt at], posts := posts d @ [created_post j np at]\<rparr>) =
    (abs_forum d)(i \<mapsto> \<lparr>at_group = newthread_GroupID nt, at_author = newthread_AuthorID nt,
      at_title = newthread_Title nt, at_pinned = False, at_locked = False,
      at_posts = [(j, newpost_AuthorID np, newpost_Body np)]\<rparr>)"
proof -
  let ?t = "created_thread i nt at" and ?p = "created_post j np at"
  have none: "post_views (posts d) i = []"
    using assms(1,2) by (auto simp: post_views_def filter_empty_conv db_ok_def posts_ok_def)
  have "find_key thread_ID i (threads d @ [?t]) = Some ?t"
    using assms(2) threadT.find_key_insert [of ?t "threads d"] by (simp add: created_thread_def)
  then have "forum_of (threads d @ [?t]) (posts d @ [?p]) =
      (forum_of (threads d @ [?t]) (posts d))(i \<mapsto>
         (thread_view (posts d) ?t)\<lparr>at_posts := post_views (posts d @ [?p]) i\<rparr>)"
    by (rule forum_of_posts) (use assms(3) in \<open>auto simp: post_views_insert created_post_def\<close>)
  then show ?thesis
    using assms(2,3) none
    by (simp add: abs_forum_def forum_of_insert created_thread_def thread_view_def post_views_insert
        created_post_def post_view_def)
qed

lemma abs_forum_reply:
  assumes "find_key thread_ID (post_ThreadID p) (threads d) = Some t"
  shows "abs_forum (d\<lparr>posts := posts d @ [p]\<rparr>) = (abs_forum d)(post_ThreadID p \<mapsto>
    (thread_view (posts d) t)\<lparr>at_posts := at_posts (thread_view (posts d) t) @ [post_view p]\<rparr>)"
proof -
  have "forum_of (threads d) (posts d @ [p]) = (forum_of (threads d) (posts d))(post_ThreadID p \<mapsto>
      (thread_view (posts d) t)\<lparr>at_posts := post_views (posts d @ [p]) (post_ThreadID p)\<rparr>)"
    using assms by (rule forum_of_posts) (simp add: post_views_insert)
  then show ?thesis
    using assms by (auto simp: abs_forum_def post_views_insert thread_view_def dest: threadT.find_key_Some)
qed

lemma abs_forum_edit:
  assumes dist: "distinct (map post_ID (posts d))" and p: "p \<in> set (posts d)"
    and t: "find_key thread_ID (post_ThreadID p) (threads d) = Some t"
    and f: "\<And>q. post_view (f q) = (post_ID q, post_AuthorID q, b)" "\<And>q. post_ThreadID (f q) = post_ThreadID q"
  shows "abs_forum (d\<lparr>posts := update_rows (\<lambda>q. post_ID q = post_ID p) f (posts d)\<rparr>) =
    (abs_forum d)(post_ThreadID p \<mapsto> (thread_view (posts d) t)\<lparr>at_posts :=
      map (\<lambda>x. if fst x = post_ID p then (post_ID p, post_AuthorID p, b) else x)
          (at_posts (thread_view (posts d) t))\<rparr>)"
proof -
  note v = post_views_edit [OF dist p f]
  have "post_views (update_rows (\<lambda>q. post_ID q = post_ID p) f (posts d)) j = post_views (posts d) j"
    if "j \<noteq> post_ThreadID p" for j
    using v post_views_other [OF dist p that] by (simp add: map_idI)
  from forum_of_posts [OF t this] t show ?thesis
    by (simp add: abs_forum_def v thread_view_def threadT.find_key_Some)
qed

lemma abs_forum_withdraw:
  assumes dist: "distinct (map post_ID (posts d))" and p: "p \<in> set (posts d)"
    and t: "find_key thread_ID (post_ThreadID p) (threads d) = Some t"
    and d1: "threads d1 = threads d" "posts d1 = delete_rows (\<lambda>q. post_ID q = post_ID p) (posts d)"
  shows "abs_forum d1 = (abs_forum d)(post_ThreadID p \<mapsto> (thread_view (posts d) t)\<lparr>at_posts :=
    filter (\<lambda>x. fst x \<noteq> post_ID p) (at_posts (thread_view (posts d) t))\<rparr>)"
proof -
  have "post_views (delete_rows (\<lambda>q. post_ID q = post_ID p) (posts d)) j = post_views (posts d) j"
    if "j \<noteq> post_ThreadID p" for j
    using post_views_other [OF dist p that] by (simp add: post_views_drop filter_id_conv)
  from forum_of_posts [OF t this] t show ?thesis
    by (simp add: abs_forum_def d1 post_views_drop thread_view_def threadT.find_key_Some)
qed

section \<open>The services implement the abstract forum\<close>

definition simulates :: "uuid \<Rightarrow> string list \<Rightarrow> 'a dbop \<Rightarrow> world \<Rightarrow> bool" where
  "simulates u rs m w \<longleftrightarrow>
     abs_forum (w_db (snd (m w))) = abs_forum (w_db w) \<or>
     forum_step u rs (abs_forum (w_db w)) (abs_forum (w_db (snd (m w))))"

lemma simulates_same: "m w = (r, w1) \<Longrightarrow> w_db w1 = w_db w \<Longrightarrow> simulates u rs m w"
  by (simp add: simulates_def)

lemma summary_reads:
  "ThreadStore_SummaryByID i w = (r, w1) \<Longrightarrow> w1 = tick w"
  "PostStore_SummaryByID i w = (r2, w1) \<Longrightarrow> w1 = tick w"
  by (auto simp: ThreadStore_SummaryByID_def PostStore_SummaryByID_def dest: scan_query_result)

lemma ThreadService_Create_simulates:
  assumes ok: "db_ok X (w_db w)"
  shows "simulates (cti_AuthorID inp) rs (ThreadService_Create inp) w"
proof -
  obtain r w1 where run: "ThreadService_Create inp w = (r, w1)" by fastforce
  let ?d = "w_db w"
  let ?nt = "\<lparr>newthread_GroupID = cti_GroupID inp, newthread_AuthorID = cti_AuthorID inp,
               newthread_Title = cti_Title inp\<rparr>"
  let ?np = "\<lparr>newpost_ThreadID = uuid_Nil, newpost_AuthorID = cti_AuthorID inp, newpost_Body = cti_Body inp\<rparr>"
  from run [unfolded ThreadService_Create_def GroupStore_GetByID_def scan_defs] show ?thesis
  proof (cases rule: bind_read_cases)
    case (found g)
    show ?thesis
    proof (cases "valid_title (cti_Title inp) \<and> valid_body (cti_Body inp)")
      case True
      obtain r2 w2 where create: "ThreadStore_Create ?nt ?np (tick w) = (r2, w2)" by fastforce
      with found True have w1: "w_db w1 = w_db w2"
        by (auto simp: bindE_def liftE_def split: sum.splits dest!: summary_reads)
      from create show ?thesis
      proof (cases rule: ThreadStore_Create_cases)
        case (created i j at)
        then have "forum_step (cti_AuthorID inp) rs (abs_forum ?d) (abs_forum (w_db w2))"
          using abs_forum_start [OF ok, where i = i and j = j and nt = ?nt and at = at
              and np = "?np\<lparr>newpost_ThreadID := i\<rparr>"] True forum_posts_of [of "threads ?d" "posts ?d"]
          by (auto simp: abs_forum_def forum_of_None intro!: forum_step.start)
        then show ?thesis by (simp add: simulates_def run w1)
      qed (use run w1 in \<open>simp add: simulates_def\<close>)
    next
      case False
      with found have "w1 = tick w"
        by (auto simp: bindE_def liftE_def split: sum.splits)
      with run show ?thesis by (simp add: simulates_def)
    qed
  qed (use run in \<open>simp_all add: simulates_def\<close>)
qed

text \<open>Statements on \<^verbatim>\<open>threads\<close> that leave the view of every thread alone.\<close>

lemma thread_stat_updates:
  assumes f: "\<And>a d t. thread_ID (f a d t) = thread_ID t"
      "\<And>a d t ps. thread_view ps (f a d t) = thread_view ps t"
    and run: "bindE (sql [] (sql_threads_update i f)) (\<lambda>_. returnE ()) w = (r, w1)"
  shows "abs_forum (w_db w1) = abs_forum (w_db w)"
proof -
  obtain r0 w0 where m: "sql [] (sql_threads_update i f) w = (r0, w0)" by fastforce
  with run have "w1 = w0" by (auto simp: op_defs split: sum.splits)
  moreover from m have "abs_forum (w_db w0) = abs_forum (w_db w)"
    by (cases rule: sql_cases)
       (auto simp: abs_forum_def f forum_of_update_same dest!: sql_threads_update_Inr)
  ultimately show ?thesis by simp
qed

lemma stat_updates_invisible:
  "ThreadStore_BumpPost i at w = (r, w1) \<Longrightarrow> abs_forum (w_db w1) = abs_forum (w_db w)"
  "ThreadStore_RecalcStats i w = (r, w1) \<Longrightarrow> abs_forum (w_db w1) = abs_forum (w_db w)"
  "ThreadStore_IncrementViews i w = (r, w1) \<Longrightarrow> abs_forum (w_db w1) = abs_forum (w_db w)"
  unfolding ThreadStore_BumpPost_def ThreadStore_RecalcStats_def ThreadStore_IncrementViews_def
  by (erule thread_stat_updates [rotated 2]; simp add: bump_post_def recalc_stats_def thread_view_def)+

lemma bump_then_summary:
  "bindE (ThreadStore_BumpPost i at) (\<lambda>_. PostStore_SummaryByID j) w = (r, w1) \<Longrightarrow>
     abs_forum (w_db w1) = abs_forum (w_db w)"
  by (erule bindE_cases) (auto dest!: stat_updates_invisible summary_reads)

lemma PostService_Create_simulates:
  "simulates u rs (PostService_Create i u body) w"
proof -
  obtain r w1 where run: "PostService_Create i u body w = (r, w1)" by fastforce
  let ?d = "w_db w" and ?np = "\<lparr>newpost_ThreadID = i, newpost_AuthorID = u, newpost_Body = body\<rparr>"
  from run [unfolded PostService_Create_def ThreadStore_GetByID_def scan_defs] show ?thesis
  proof (cases rule: bind_read_cases)
    case (found t)
    show ?thesis
    proof (cases "thread_Locked t \<or> \<not> valid_body body")
      case True
      with found have "w1 = tick w"
        by (auto simp: bindE_def liftE_def split: sum.splits if_splits)
      with run show ?thesis by (simp add: simulates_def)
    next
      case False
      obtain r2 w2 where create: "PostStore_Create ?np (tick w) = (r2, w2)" by fastforce
      with found(2) False have "abs_forum (w_db w1) = abs_forum (w_db w2)"
        by (auto simp: bindE_def [of "liftE _"] liftE_def bindE_def [of "PostStore_Create _"]
            split: sum.splits dest!: bump_then_summary)
      moreover from create [unfolded PostStore_Create_def]
      have "w_db w2 = ?d \<or> forum_step u rs (abs_forum ?d) (abs_forum (w_db w2))"
      proof (cases rule: sql_cases)
        case (ran p d)
        then have p: "p = created_post (post_ID p) ?np (post_CreatedAt p)" "post_ID p \<notin> post_ids ?d"
          and d: "d = ?d\<lparr>posts := posts ?d @ [p]\<rparr>"
          by (auto simp: sql_posts_insert_Inr created_post_def)
        have pv: "post_ThreadID p = i" "post_view p = (post_ID p, u, body)"
          by (subst p(1), simp add: created_post_def post_view_def)+
        then have "abs_forum (w_db w2) = (abs_forum ?d)(i \<mapsto> (thread_view (posts ?d) t)\<lparr>at_posts :=
            at_posts (thread_view (posts ?d) t) @ [(post_ID p, u, body)]\<rparr>)"
          using abs_forum_reply [of p ?d t] found(1) by (simp add: ran d)
        moreover have "\<not> at_locked (thread_view (posts ?d) t)" using False by (simp add: thread_view_def)
        ultimately show ?thesis
          using found(1) p(2) False forum_posts_of [of "threads ?d" "posts ?d"]
          by (auto simp: abs_forum_def forum_of_Some intro!: forum_step.reply)
      qed simp
      ultimately show ?thesis by (auto simp: simulates_def run)
    qed
  qed (use run in \<open>simp_all add: simulates_def\<close>)
qed

lemma apply_thread_update_Inr:
  assumes "apply_thread_update inp u rs t0 = Inr t"
  shows "thread_AuthorID t0 = u \<or> moderator rs"
    and "thread_Title t = thread_Title t0 \<or> thread_AuthorID t0 = u \<and> valid_title (thread_Title t)"
    and "thread_Pinned t = thread_Pinned t0 \<and> thread_Locked t = thread_Locked t0 \<or> moderator rs"
  using assms by (auto simp: apply_thread_update_def Let_def split: if_splits option.splits sum.splits)

lemma update_then_summary:
  assumes "bindE (mapErrE g (scan_row (sql args f))) (\<lambda>x. ThreadStore_SummaryByID (h x)) w = (r, w1)"
  obtains "w_db w1 = w_db w" | x d where "f (stmt_answer w) (w_db w) = Inr (x, d)" "w_db w1 = d"
  using assms
proof (cases rule: bindE_cases)
  case (failed e)
  from failed(1) show ?thesis by (auto elim!: mapErrE_cases scan_sql_cases intro: that)
next
  case (went_on x w2)
  from went_on(1) show ?thesis
    using summary_reads(1) [OF went_on(2)] by (auto elim!: mapErrE_cases scan_sql_cases intro: that)
qed

lemma ThreadService_Update_simulates: "simulates u rs (ThreadService_Update i inp u rs) w"
proof -
  obtain r w1 where run: "ThreadService_Update i inp u rs w = (r, w1)" by fastforce
  let ?d = "w_db w"
  from run [unfolded ThreadService_Update_def ThreadStore_GetByID_def scan_defs] show ?thesis
  proof (cases rule: bind_read_cases)
    case (found t0)
    show ?thesis
    proof (cases "apply_thread_update inp u rs t0")
      case (Inl e)
      with found(2) have "w1 = tick w" by (simp add: op_defs)
      with run show ?thesis by (simp add: simulates_def)
    next
      case (Inr t)
      note rules = apply_thread_update_Inr [OF Inr]
      let ?T = "(thread_view (posts ?d) t0)\<lparr>at_title := thread_Title t, at_pinned := thread_Pinned t,
                  at_locked := thread_Locked t\<rparr>"
      from found(2) Inr have "bindE (mapErrE (notFoundAs ErrThreadNotFound)
          (ThreadStore_Update i (thread_Title t) (thread_Pinned t) (thread_Locked t)))
          (\<lambda>updated. ThreadStore_SummaryByID (thread_ID updated)) (tick w) = (r, w1)"
        by (simp add: bindE_def [of "liftE _"] liftE_def)
      then have "w_db w1 = ?d \<or> abs_forum (w_db w1) = (abs_forum ?d)(i \<mapsto> ?T)"
        unfolding ThreadStore_Update_def scan_defs
      proof (cases rule: update_then_summary)
        case (2 x d)
        from sql_threads_update_Inr [OF this(1)] found(1) 2(2) show ?thesis
          by (simp add: abs_forum_def forum_of_update) (simp add: thread_view_def)
      qed simp
      moreover have "forum_step u rs (abs_forum ?d) ((abs_forum ?d)(i \<mapsto> ?T))"
        using found(1) rules
        by (intro forum_step.rename) (auto simp: abs_forum_def forum_of_Some thread_view_def)
      ultimately show ?thesis by (auto simp: simulates_def run)
    qed
  qed (use run in \<open>simp_all add: simulates_def\<close>)
qed

lemma PostService_Update_simulates:
  assumes ok: "db_ok X (w_db w)"
  shows "simulates u rs (PostService_Update i u body) w"
proof -
  obtain r w1 where run: "PostService_Update i u body w = (r, w1)" by fastforce
  let ?d = "w_db w"
  from run [unfolded PostService_Update_def PostStore_GetByID_def scan_defs] show ?thesis
  proof (cases rule: bind_read_cases)
    case (found p)
    then have p: "p \<in> set (posts ?d)" "post_ID p = i" by (auto dest: postT.find_key_Some)
    show ?thesis
    proof (cases "post_AuthorID p \<noteq> u \<or> \<not> valid_body body")
      case True
      with found have "w1 = tick w" by (auto simp: bindE_def liftE_def split: sum.splits if_splits)
      with run show ?thesis by (simp add: simulates_def)
    next
      case False
      have dist: "distinct (map post_ID (posts ?d))" using ok by (simp add: db_ok_def posts_ok_def)
      from post_thread [OF ok p(1)] obtain t where
        t: "find_key thread_ID (post_ThreadID p) (threads ?d) = Some t"
          "abs_forum ?d (post_ThreadID p) = Some (thread_view (posts ?d) t)"
          "post_view p \<in> set (at_posts (thread_view (posts ?d) t))" .
      let ?T = "(thread_view (posts ?d) t)\<lparr>at_posts := map (\<lambda>x. if fst x = i then (i, u, body) else x)
                  (at_posts (thread_view (posts ?d) t))\<rparr>"
      from found(2) False have "bindE (mapErrE (notFoundAs ErrPostNotFound) (PostStore_UpdateBody i body u))
          (\<lambda>_. PostStore_SummaryByID i) (tick w) = (r, w1)"
        by (simp add: bindE_def [of "liftE _"] liftE_def)
      then obtain w2 r2 where upd: "PostStore_UpdateBody i body u (tick w) = (r2, w2)" and w1: "w_db w1 = w_db w2"
        by (elim bindE_cases mapErrE_cases) (auto dest!: summary_reads)
      from upd [unfolded PostStore_UpdateBody_def scan_defs]
      have "w_db w2 = ?d \<or> abs_forum (w_db w2) = (abs_forum ?d)(post_ThreadID p \<mapsto> ?T)"
        by (cases rule: scan_sql_cases)
           (use abs_forum_edit [OF dist p(1) t(1)] False p(2) in
             \<open>auto simp: sql_posts_update_def Let_def post_view_def split: if_splits\<close>)
      moreover have "forum_step u rs (abs_forum ?d) ((abs_forum ?d)(post_ThreadID p \<mapsto> ?T))"
        using t(2,3) False p(2) by (intro forum_step.edit) (auto simp: post_view_def)
      ultimately show ?thesis by (auto simp: simulates_def run w1)
    qed
  qed (use run in \<open>simp_all add: simulates_def\<close>)
qed

lemma PostService_Delete_simulates:
  assumes ok: "db_ok X (w_db w)"
  shows "simulates u rs (PostService_Delete i u rs) w"
proof -
  obtain r w1 where run: "PostService_Delete i u rs w = (r, w1)" by fastforce
  let ?d = "w_db w"
  from run [unfolded PostService_Delete_def PostStore_GetByID_def scan_defs] show ?thesis
  proof (cases rule: bind_read_cases)
    case (found p)
    then have p: "p \<in> set (posts ?d)" "post_ID p = i" by (auto dest: postT.find_key_Some)
    show ?thesis
    proof (cases "post_AuthorID p \<noteq> u \<and> \<not> moderator rs")
      case True
      with found run show ?thesis by (simp add: simulates_def)
    next
      case False
      have dist: "distinct (map post_ID (posts ?d))" using ok by (simp add: db_ok_def posts_ok_def)
      from post_thread [OF ok p(1)] obtain t where
        t: "find_key thread_ID (post_ThreadID p) (threads ?d) = Some t"
          "abs_forum ?d (post_ThreadID p) = Some (thread_view (posts ?d) t)"
          "post_view p \<in> set (at_posts (thread_view (posts ?d) t))" .
      let ?T = "(thread_view (posts ?d) t)\<lparr>at_posts := filter (\<lambda>x. fst x \<noteq> i) (at_posts (thread_view (posts ?d) t))\<rparr>"
      from found(2) False obtain r2 w2 where del: "PostStore_Delete i (tick w) = (r2, w2)"
        and w1: "abs_forum (w_db w1) = abs_forum (w_db w2)"
        by (auto elim!: bindE_cases mapErrE_cases dest!: stat_updates_invisible split: if_splits)
      from del [unfolded PostStore_Delete_def]
      have "w_db w2 = ?d \<or> abs_forum (w_db w2) = (abs_forum ?d)(post_ThreadID p \<mapsto> ?T)"
        by (cases rule: need_rows_cases)
           (use abs_forum_withdraw [OF dist p(1) t(1)] p(2) in
             \<open>auto simp: sql_posts_delete_def delete_posts_def Let_def\<close>)
      moreover have "forum_step u rs (abs_forum ?d) ((abs_forum ?d)(post_ThreadID p \<mapsto> ?T))"
        using t(2,3) False p(2) by (intro forum_step.withdraw) (auto simp: post_view_def)
      ultimately show ?thesis by (auto simp: simulates_def run w1)
    qed
  qed (use run in \<open>simp_all add: simulates_def\<close>)
qed

lemma abs_forum_delete_thread:
  "abs_forum (delete_threads (\<lambda>t. thread_ID t = i) d) = (abs_forum d)(i := None)"
proof -
  have "post_views (delete_rows (\<lambda>q. post_ThreadID q \<in> thread_ID ` {t \<in> set (threads d). thread_ID t = i}) (posts d)) j
      = post_views (posts d) j" if "j \<noteq> i" for j
    using that by (auto simp: post_views_def delete_rows_def intro!: arg_cong [where f = "map post_view"] filter_cong)
  then show ?thesis
    by (simp add: abs_forum_def delete_threads_def delete_posts_def Let_def forum_of_delete)
qed

lemma ThreadService_Delete_simulates: "simulates u rs (ThreadService_Delete i u rs) w"
proof -
  obtain r w1 where run: "ThreadService_Delete i u rs w = (r, w1)" by fastforce
  let ?d = "w_db w"
  from run [unfolded ThreadService_Delete_def ThreadStore_GetByID_def scan_defs] show ?thesis
  proof (cases rule: bind_read_cases)
    case (found t)
    show ?thesis
    proof (cases "thread_AuthorID t \<noteq> u \<and> \<not> moderator rs")
      case False
      with found(2) obtain r2 where "ThreadStore_Delete i (tick w) = (r2, w1)"
        by (auto elim!: mapErrE_cases split: if_splits)
      then have "w_db w1 = ?d \<or> abs_forum (w_db w1) = (abs_forum ?d)(i := None)"
        unfolding ThreadStore_Delete_def
        by (cases rule: need_rows_cases) (auto simp: sql_threads_delete_def abs_forum_delete_thread)
      moreover have "forum_step u rs (abs_forum ?d) ((abs_forum ?d)(i := None))"
        using found(1) False
        by (intro forum_step.remove [where T = "thread_view (posts ?d) t"])
           (auto simp: abs_forum_def forum_of_Some thread_view_def)
      ultimately show ?thesis by (auto simp: simulates_def run)
    qed (use found run in \<open>simp add: simulates_def\<close>)
  qed (use run in \<open>simp_all add: simulates_def\<close>)
qed

text \<open>C9: The forum services implement the abstract forum. Whatever the environment does (failed
  or unacknowledged statements, failed commits), each of the six writing operations of threads
  and posts, run by user \<open>u\<close> with roles \<open>rs\<close>, leaves the abstract forum unchanged or performs
  one step that \<open>forum_step\<close> permits to \<open>u\<close>: replies go to unlocked threads, bodies and titles
  are valid, only authors edit and rename, only moderators pin and lock, only authors and
  moderators delete.\<close>

theorem forum_refinement:
  assumes "db_ok X (w_db w)"
  shows "simulates u rs (ThreadService_Create
             \<lparr>cti_GroupID = g, cti_AuthorID = u, cti_Title = title, cti_Body = body\<rparr>) w \<and>
         simulates u rs (ThreadService_Update i upd u rs) w \<and>
         simulates u rs (ThreadService_Delete i u rs) w \<and>
         simulates u rs (PostService_Create i u body) w \<and>
         simulates u rs (PostService_Update i u body) w \<and>
         simulates u rs (PostService_Delete i u rs) w"
  using ThreadService_Create_simulates [OF assms, of
      "\<lparr>cti_GroupID = g, cti_AuthorID = u, cti_Title = title, cti_Body = body\<rparr>" rs]
    ThreadService_Update_simulates ThreadService_Delete_simulates PostService_Create_simulates
    PostService_Update_simulates [OF assms] PostService_Delete_simulates [OF assms]
  by simp

theorem forum_refinement_witness:
  "db_ok sample_ext sample_db \<and>
   simulates 2 [''member''] (PostService_Create 31 2 ''Thanks'') (sample_world sample_db) \<and>
   simulates 1 [''admin''] (ThreadService_Delete 31 1 [''admin'']) (sample_world sample_db)"
  using forum_refinement [of sample_ext "sample_world sample_db" 2 "[''member'']" _ _ "''Thanks''" 31]
    forum_refinement [of sample_ext "sample_world sample_db" 1 "[''admin'']" _ _ _ 31] sample_db_ok
  by simp

end
