(* ===== verification/Forum_Stats.thy ===== *)
theory Forum_Stats
  imports Forum_Spec
begin

text \<open>
  The statistics of a thread, \<^verbatim>\<open>post_count\<close> and \<^verbatim>\<open>last_post_at\<close>, are redundant data that
  the code maintains by hand: in the transaction that starts a thread, by \<^verbatim>\<open>BumpPost\<close> after a
  reply and by \<^verbatim>\<open>RecalcStats\<close> after a deletion. Here: when they agree with the posts.
\<close>

section \<open>Agreement of statistics and posts\<close>

definition posts_in :: "Post list \<Rightarrow> uuid \<Rightarrow> Post list" where
  "posts_in ps i = filter (\<lambda>p. post_ThreadID p = i) ps"

definition stat_ok :: "Post list \<Rightarrow> Thread \<Rightarrow> bool" where
  "stat_ok ps t \<longleftrightarrow>
     thread_PostCount t = int (length (posts_in ps (thread_ID t))) \<and>
     thread_LastPostAt t = latest (map post_CreatedAt (posts_in ps (thread_ID t)))"

definition stats_ok :: "db \<Rightarrow> bool" where
  "stats_ok d \<longleftrightarrow> list_all (stat_ok (posts d)) (threads d)"

definition forum_inv :: "ext \<Rightarrow> db \<Rightarrow> bool" where
  "forum_inv X d \<longleftrightarrow> db_ok X d \<and> stats_ok d"

lemma recalc_stats_ok: "stat_ok (posts d) (recalc_stats a d t)"
  by (simp add: stat_ok_def recalc_stats_def posts_in_def count_rows_def thread_times_def)

lemma latest_append:
  "(\<And>t. t \<in> set ts \<Longrightarrow> t \<le> at) \<Longrightarrow> latest (ts @ [at]) = Some at"
proof (cases ts)
  case (Cons t r)
  assume le: "\<And>t. t \<in> set ts \<Longrightarrow> t \<le> at"
  have "fold max r t \<le> at" if "t \<le> at" "\<forall>x \<in> set r. x \<le> at" for t
    using that by (induction r arbitrary: t) auto
  with le Cons show ?thesis by (simp add: latest_def)
qed (simp add: latest_def)

lemma latest_max: "latest ts = Some m \<Longrightarrow> m \<in> set ts \<and> (\<forall>t \<in> set ts. t \<le> m)"
proof (cases ts)
  case (Cons t r)
  assume "latest ts = Some m"
  then have "m = Max (set (t # r))" using Cons by (simp add: latest_def Max.set_eq_fold [symmetric])
  then show ?thesis using Cons Max_in [of "set ts"] Max_ge [of "set ts"] by auto
qed (simp add: latest_def)

section \<open>Statements that keep them\<close>

text \<open>A change of posts and threads keeps the statistics when every thread that stays is
  accounted for.\<close>

lemma stats_stay:
  assumes "stats_ok d"
    and "\<And>t'. t' \<in> set (threads d') \<Longrightarrow> \<exists>t \<in> set (threads d). thread_ID t' = thread_ID t \<and>
      thread_PostCount t' = thread_PostCount t \<and> thread_LastPostAt t' = thread_LastPostAt t \<and>
      map post_CreatedAt (posts_in (posts d') (thread_ID t)) = map post_CreatedAt (posts_in (posts d) (thread_ID t))"
  shows "stats_ok d'"
  unfolding stats_ok_def list_all_iff
proof
  fix t' assume "t' \<in> set (threads d')"
  from assms(2) [OF this] obtain t where t: "t \<in> set (threads d)" "thread_ID t' = thread_ID t"
      "thread_PostCount t' = thread_PostCount t" "thread_LastPostAt t' = thread_LastPostAt t"
    and m: "map post_CreatedAt (posts_in (posts d') (thread_ID t)) = map post_CreatedAt (posts_in (posts d) (thread_ID t))"
    by blast
  have "length (posts_in (posts d') (thread_ID t)) = length (posts_in (posts d) (thread_ID t))"
    using m by (metis length_map)
  with t m assms(1) show "stat_ok (posts d') t'" by (auto simp: stats_ok_def list_all_iff stat_ok_def)
qed

lemma stats_same_times:
  assumes "stats_ok d" "threads d' = threads d"
    and "\<And>j. map post_CreatedAt (posts_in (posts d') j) = map post_CreatedAt (posts_in (posts d) j)"
  shows "stats_ok d'"
  using assms(2) by (intro stats_stay [OF assms(1)]) (metis assms(3))

lemma stats_frame: "stats_ok d \<Longrightarrow> threads d' = threads d \<Longrightarrow> posts d' = posts d \<Longrightarrow> stats_ok d'"
  by (simp add: stats_ok_def)

lemma inv_stmt: "stmt_keeps (db_ok X) f \<Longrightarrow>
    (\<And>a d x d'. forum_inv X d \<Longrightarrow> f a d = Inr (x, d') \<Longrightarrow> stats_ok d') \<Longrightarrow> stmt_keeps (forum_inv X) f"
  by (auto simp: stmt_keeps_def forum_inv_def)

lemma stats_delete_threads:
  assumes "stats_ok d" and dist: "distinct (map thread_ID (threads d))"
  shows "stats_ok (delete_threads p d)"
proof (rule stats_stay [OF assms(1)])
  fix t assume "t \<in> set (threads (delete_threads p d))"
  then have t: "t \<in> set (threads d)" and "\<not> p t"
    by (auto simp: delete_threads_def delete_posts_def Let_def)
  have "\<not> p s" if "s \<in> set (threads d)" "thread_ID s = thread_ID t" for s
    using that t dist \<open>\<not> p t\<close> by (metis distinct_map inj_onD)
  then have "posts_in (posts (delete_threads p d)) (thread_ID t) = posts_in (posts d) (thread_ID t)"
    by (auto simp: posts_in_def delete_threads_def delete_posts_def delete_rows_def Let_def intro!: filter_cong)
  with t show "\<exists>s \<in> set (threads d). thread_ID t = thread_ID s \<and> thread_PostCount t = thread_PostCount s \<and>
      thread_LastPostAt t = thread_LastPostAt s \<and>
      map post_CreatedAt (posts_in (posts (delete_threads p d)) (thread_ID s)) =
      map post_CreatedAt (posts_in (posts d) (thread_ID s))"
    by (intro bexI [of _ t]) simp_all
qed

lemma group_stmts_inv:
  "stmt_keeps (forum_inv X) (sql_groups_insert g)"
  "stmt_keeps (forum_inv X) (sql_groups_update i g)"
  "stmt_keeps (forum_inv X) (sql_groups_delete i)"
proof -
  show "stmt_keeps (forum_inv X) (sql_groups_insert g)"
    by (rule inv_stmt [OF sql_groups_insert_ok])
       (auto simp: forum_inv_def sql_groups_insert_def Let_def elim!: stats_frame split: if_splits)
  show "stmt_keeps (forum_inv X) (sql_groups_update i g)"
    by (rule inv_stmt [OF sql_groups_update_ok])
       (auto simp: forum_inv_def sql_groups_update_def Let_def elim!: stats_frame split: if_splits)
  show "stmt_keeps (forum_inv X) (sql_groups_delete i)"
  proof (rule inv_stmt [OF sql_groups_delete_ok])
    fix a d x d' assume inv: "forum_inv X d" and r: "sql_groups_delete i a d = Inr (x, d')"
    then have "distinct (map thread_ID (threads d))" "stats_ok d"
      by (auto simp: forum_inv_def db_ok_def threads_ok_def)
    then have "stats_ok (delete_group i d)" unfolding delete_group_def
      by (intro stats_delete_threads) (auto elim: stats_frame)
    with r \<open>stats_ok d\<close> show "stats_ok d'" by (auto simp: sql_groups_delete_def Let_def split: if_splits)
  qed
qed

lemma thread_update_inv:
  assumes f: "\<And>a d t. thread_ID (f a d t) = thread_ID t"
      "\<And>a d t. thread_GroupID (f a d t) = thread_GroupID t"
      "\<And>a d t. thread_AuthorID (f a d t) = thread_AuthorID t"
    and s: "\<And>a d t. stat_ok (posts d) t \<Longrightarrow> stat_ok (posts d) (f a d t)"
  shows "stmt_keeps (forum_inv X) (sql_threads_update i f)"
proof (rule inv_stmt [OF sql_threads_update_ok [OF f]])
  fix a d x d' assume "forum_inv X d" and r: "sql_threads_update i f a d = Inr (x, d')"
  then have "\<forall>t \<in> set (update_rows (\<lambda>t. thread_ID t = i) (f a d) (threads d)). stat_ok (posts d) t"
    by (auto simp: forum_inv_def stats_ok_def list_all_iff s elim!: in_update_rowsE)
  with r show "stats_ok d'" by (auto simp: stats_ok_def list_all_iff dest!: sql_threads_update_Inr)
qed

lemma threads_delete_inv: "stmt_keeps (forum_inv X) (sql_threads_delete i)"
proof (rule inv_stmt [OF sql_deletes_ok(2)])
  fix a d x d' assume "forum_inv X d" and "sql_threads_delete i a d = Inr (x, d')"
  then show "stats_ok d'"
    by (auto simp: sql_threads_delete_def forum_inv_def db_ok_def threads_ok_def intro!: stats_delete_threads)
qed

lemma posts_update_inv: "stmt_keeps (forum_inv X) (sql_posts_update i b e)"
proof (rule inv_stmt [OF sql_posts_update_ok])
  fix a d x d' assume "forum_inv X d" and r: "sql_posts_update i b e a d = Inr (x, d')"
  then have s: "stats_ok d" by (simp add: forum_inv_def)
  from r have t: "threads d' = threads d" and p:
    "posts d' = update_rows (\<lambda>p. post_ID p = i) (\<lambda>p. p\<lparr>post_Body := b, post_EditedByID := Some e,
       post_EditedAt := Some (ans_now a), post_UpdatedAt := ans_now a\<rparr>) (posts d)"
    by (auto simp: sql_posts_update_def Let_def split: if_splits)
  have m: "map post_CreatedAt (posts_in (posts d') j) = map post_CreatedAt (posts_in (posts d) j)" for j
    unfolding p posts_in_def by (subst filter_update_rows) (simp_all add: map_update_rows)
  show "stats_ok d'" by (rule stats_same_times [OF s t m])
qed

lemma thread_create_inv: "keeps (on_db (forum_inv X)) (ThreadStore_Create nt np)"
proof (rule keepsI)
  fix w assume inv: "on_db (forum_inv X) w"
  obtain r w1 where run: "ThreadStore_Create nt np w = (r, w1)" by fastforce
  let ?d = "w_db w"
  have "db_ok X (w_db w1)"
    using keeps_resultD [OF forum_store_keeps_schema(13) _ run] inv by (simp add: on_db_def forum_inv_def)
  moreover from run have "stats_ok (w_db w1)"
  proof (cases rule: ThreadStore_Create_cases)
    case (created i j at)
    have none: "posts_in (posts ?d) i = []"
      using inv created(1)
      by (auto simp: on_db_def forum_inv_def posts_in_def filter_empty_conv db_ok_def posts_ok_def)
    have "stat_ok (posts ?d @ [p]) t" if "t \<in> set (threads ?d)" "post_ThreadID p = i" for t p
      using that created(1) inv
      by (auto simp: stat_ok_def posts_in_def on_db_def forum_inv_def stats_ok_def list_all_iff)
    with none show ?thesis
      by (simp add: created(6) stats_ok_def list_all_iff)
         (simp add: created_thread_def created_post_def stat_ok_def posts_in_def latest_def)
  qed (use inv in \<open>simp add: on_db_def forum_inv_def\<close>)
  ultimately show "on_db (forum_inv X) (snd (ThreadStore_Create nt np w))"
    by (simp add: run on_db_def forum_inv_def)
qed

lemma forum_store_keeps_stats [keeps_intros]:
  "keeps (on_db (forum_inv X)) (GroupStore_Create g)" "keeps (on_db (forum_inv X)) (GroupStore_List X)"
  "keeps (on_db (forum_inv X)) (GroupStore_GetByID i)" "keeps (on_db (forum_inv X)) (GroupStore_Update i g)"
  "keeps (on_db (forum_inv X)) (GroupStore_Delete i)" "keeps (on_db (forum_inv X)) (PostStore_ListByThread i l k)"
  "keeps (on_db (forum_inv X)) (PostStore_GetByID i)" "keeps (on_db (forum_inv X)) (PostStore_SummaryByID i)"
  "keeps (on_db (forum_inv X)) (PostStore_UpdateBody i b e)"
  "keeps (on_db (forum_inv X)) (ThreadStore_ListByGroup i l k)" "keeps (on_db (forum_inv X)) (ThreadStore_GetByID i)"
  "keeps (on_db (forum_inv X)) (ThreadStore_SummaryByID i)" "keeps (on_db (forum_inv X)) (ThreadStore_Update i b p q)"
  "keeps (on_db (forum_inv X)) (ThreadStore_Delete i)" "keeps (on_db (forum_inv X)) (ThreadStore_IncrementViews i)"
  "keeps (on_db (forum_inv X)) (ThreadStore_CountByGroup i)" "keeps (on_db (forum_inv X)) (ThreadStore_RecalcStats i)"
  unfolding forum_store_defs
  by (intro keeps_intros group_stmts_inv threads_delete_inv posts_update_inv thread_update_inv recalc_stats_ok;
      simp add: stat_ok_def recalc_stats_def)+

text \<open>C10: Under every failure, starting a thread, renaming, pinning, locking, viewing and deleting
  it, editing a post, and every operation on groups keep the schema's constraints and the
  agreement of each thread's statistics with its posts.\<close>

theorem forum_ops_keep_stats:
  "keeps (on_db (forum_inv X)) (ThreadService_Create tin) \<and>
   keeps (on_db (forum_inv X)) (ThreadService_Update i uin c rs) \<and>
   keeps (on_db (forum_inv X)) (ThreadService_Get i) \<and>
   keeps (on_db (forum_inv X)) (ThreadService_Delete i c rs) \<and>
   keeps (on_db (forum_inv X)) (PostService_Update i c b) \<and>
   keeps (on_db (forum_inv X)) (GroupService_Create gin) \<and>
   keeps (on_db (forum_inv X)) (GroupService_Update i gin) \<and>
   keeps (on_db (forum_inv X)) (GroupService_Delete i)"
  unfolding forum_service_defs by (intro conjI keeps_intros thread_create_inv)

section \<open>Replies and deletions when nothing fails\<close>

text \<open>The tables after a reply that ran undisturbed.\<close>

definition reply_post :: "world \<Rightarrow> uuid \<Rightarrow> uuid \<Rightarrow> string \<Rightarrow> Post" where
  "reply_post w i u body =
     created_post (ans_uuid (stmt_answer (tick w)))
       \<lparr>newpost_ThreadID = i, newpost_AuthorID = u, newpost_Body = body\<rparr> (ans_now (stmt_answer (tick w)))"

lemma reply_insert_calm:
  assumes "calm w" "i \<in> thread_ids (w_db w)" "u \<in> user_ids (w_db w)" "pg_text body"
    and "ans_uuid (stmt_answer (tick w)) \<notin> post_ids (w_db w)"
  shows "PostStore_Create \<lparr>newpost_ThreadID = i, newpost_AuthorID = u, newpost_Body = body\<rparr> (tick w)
    = (Inr (reply_post w i u body), (tick (tick w))\<lparr>w_db := (w_db w)\<lparr>posts := posts (w_db w) @ [reply_post w i u body]\<rparr>\<rparr>)"
proof -
  have "sql_posts_insert \<lparr>newpost_ThreadID = i, newpost_AuthorID = u, newpost_Body = body\<rparr>
      (stmt_answer (tick w)) (w_db w) =
    Inr (reply_post w i u body, (w_db w)\<lparr>posts := posts (w_db w) @ [reply_post w i u body]\<rparr>)"
    using assms by (simp add: sql_posts_insert_Inr reply_post_def)
  then show ?thesis using assms by (simp add: PostStore_Create_def sql_calm)
qed

lemma thread_update_calm:
  assumes "calm w" and ok: "threads_ok (w_db w)" and t: "find_key thread_ID i (threads (w_db w)) = Some t"
    and f: "int4 (thread_Views (f (stmt_answer w) (w_db w) t))" "int4 (thread_PostCount (f (stmt_answer w) (w_db w) t))"
  shows "bindE (sql [] (sql_threads_update i f)) (\<lambda>_. returnE ()) w = (Inr (), (tick w)\<lparr>w_db := (w_db w)\<lparr>threads :=
    update_rows (\<lambda>s. thread_ID s = i) (f (stmt_answer w) (w_db w)) (threads (w_db w))\<rparr>\<rparr>)"
proof -
  let ?ts = "update_rows (\<lambda>s. thread_ID s = i) (f (stmt_answer w) (w_db w)) (threads (w_db w))"
  have "\<forall>s \<in> set (threads (w_db w)). int4 (thread_Views s) \<and> int4 (thread_PostCount s)"
    and "distinct (map thread_ID (threads (w_db w)))" using ok by (auto simp: threads_ok_def)
  moreover have "s = t" if "s \<in> set (threads (w_db w))" "thread_ID s = i" for s
    using that t calculation(2) by (simp add: threadT.find_key_eq) (metis distinct_map inj_onD)
  ultimately have "\<not> (\<exists>s \<in> set ?ts. \<not> int4 (thread_Views s) \<or> \<not> int4 (thread_PostCount s))"
    using f by (auto elim!: in_update_rowsE)
  then have "sql_threads_update i f (stmt_answer w) (w_db w)
      = Inr (find_key thread_ID i ?ts, (w_db w)\<lparr>threads := ?ts\<rparr>)"
    by (simp add: sql_threads_update_def Let_def)
  then show ?thesis using assms(1) by (simp add: bindE_def sql_calm returnE_def)
qed

lemma row_ranges:
  "threads_ok d \<Longrightarrow> find_key thread_ID i (threads d) = Some t \<Longrightarrow> int4 (thread_Views t)"
  using threadT.find_key_Some [of i "threads d" t] by (auto simp: threads_ok_def)

lemma bump_post_calm:
  assumes "calm w" "threads_ok (w_db w)"
    and "find_key thread_ID i (threads (w_db w)) = Some t" "int4 (thread_PostCount t + 1)"
  shows "ThreadStore_BumpPost i at w = (Inr (), (tick w)\<lparr>w_db := (w_db w)\<lparr>threads :=
    update_rows (\<lambda>s. thread_ID s = i) (bump_post at (stmt_answer w) (w_db w)) (threads (w_db w))\<rparr>\<rparr>)"
  unfolding ThreadStore_BumpPost_def
  by (rule thread_update_calm [OF assms(1-3)]) (use assms(4) row_ranges [OF assms(2,3)] in \<open>simp_all add: bump_post_def\<close>)

lemma post_summary_calm:
  assumes "calm w" "find_key post_ID j (posts (w_db w)) = Some p"
    and "find_key user_ID (post_AuthorID p) (users (w_db w)) = Some usr"
  shows "PostStore_SummaryByID j w =
    (Inr \<lparr>ps_Post = p, ps_AuthorUsername = user_Username usr, ps_AuthorDisplay = user_DisplayName usr\<rparr>, tick w)"
  using assms by (simp add: PostStore_SummaryByID_def scan_query_calm post_summary_def)

lemma PostService_Create_calm:
  assumes c: "calm w" and ok: "db_ok X (w_db w)"
    and t: "find_key thread_ID i (threads (w_db w)) = Some t" "\<not> thread_Locked t" "int4 (thread_PostCount t + 1)"
    and b: "valid_body body" "pg_text body"
    and u: "find_key user_ID u (users (w_db w)) = Some usr"
    and fresh: "ans_uuid (stmt_answer (tick w)) \<notin> post_ids (w_db w)"
  shows "\<exists>w1. PostService_Create i u body w =
      (Inr \<lparr>ps_Post = reply_post w i u body, ps_AuthorUsername = user_Username usr,
            ps_AuthorDisplay = user_DisplayName usr\<rparr>, w1) \<and>
    w_db w1 = (w_db w)\<lparr>posts := posts (w_db w) @ [reply_post w i u body],
      threads := update_rows (\<lambda>s. thread_ID s = i)
        (bump_post (post_CreatedAt (reply_post w i u body)) (stmt_answer (tick (tick w))) (w_db w)) (threads (w_db w))\<rparr>"
proof -
  let ?d = "w_db w" and ?p = "reply_post w i u body"
  let ?wi = "(tick (tick w))\<lparr>w_db := ?d\<lparr>posts := posts ?d @ [?p]\<rparr>\<rparr>"
  let ?f = "bump_post (post_CreatedAt ?p) (stmt_answer (tick (tick w))) ?d"
  let ?wb = "(tick ?wi)\<lparr>w_db := ?d\<lparr>posts := posts ?d @ [?p], threads := update_rows (\<lambda>s. thread_ID s = i) ?f (threads ?d)\<rparr>\<rparr>"
  have ids: "i \<in> thread_ids ?d" "u \<in> user_ids ?d"
    using t(1) u threadT.find_key_Some userT.find_key_Some by (metis imageI)+
  note ins = reply_insert_calm [OF c ids b(2) fresh]
  have "bump_post (post_CreatedAt ?p) (stmt_answer ?wi) (w_db ?wi) = ?f"
    by (simp add: bump_post_def fun_eq_iff)
  moreover have "threads_ok (w_db ?wi)" using ok by (simp add: db_ok_def threads_ok_def)
  ultimately have bump: "ThreadStore_BumpPost i (post_CreatedAt ?p) ?wi = (Inr (), ?wb)"
    using bump_post_calm [of ?wi i t "post_CreatedAt ?p"] c t(1,3) by simp
  have p: "post_AuthorID ?p = u" "post_ID ?p \<notin> post_ids ?d"
    using fresh by (simp_all add: reply_post_def created_post_def)
  have sum: "PostStore_SummaryByID (post_ID ?p) ?wb =
      (Inr \<lparr>ps_Post = ?p, ps_AuthorUsername = user_Username usr, ps_AuthorDisplay = user_DisplayName usr\<rparr>, tick ?wb)"
    by (rule post_summary_calm) (use c u p in \<open>simp_all add: postT.find_key_insert\<close>)
  from c t b ins bump sum show ?thesis
    by (simp add: PostService_Create_def ThreadStore_GetByID_def bindE_def mapErrE_def handleE_def
        scan_query_calm liftE_def)
qed

lemma stats_after_reply:
  assumes "stats_ok d" "distinct (map thread_ID (threads d))" "post_ThreadID p = i"
    and "\<And>q. q \<in> set (posts_in (posts d) i) \<Longrightarrow> post_CreatedAt q \<le> post_CreatedAt p"
    and "post_CreatedAt p = pg_time (post_CreatedAt p)"
  shows "stats_ok (d\<lparr>posts := posts d @ [p],
    threads := update_rows (\<lambda>s. thread_ID s = i) (bump_post (post_CreatedAt p) a d) (threads d)\<rparr>)"
proof -
  have "stat_ok (posts d @ [p]) t" if "t \<in> set (threads d)" "thread_ID t \<noteq> i" for t
    using that assms(1,3) by (simp add: stats_ok_def list_all_iff stat_ok_def posts_in_def)
  moreover have "stat_ok (posts d @ [p]) (bump_post (post_CreatedAt p) a d t)"
    if "t \<in> set (threads d)" "thread_ID t = i" for t
  proof -
    have "latest (map post_CreatedAt (posts_in (posts d) i) @ [post_CreatedAt p]) = Some (post_CreatedAt p)"
      using assms(4) by (intro latest_append) auto
    then show ?thesis
      using that assms(1,3,5) by (simp add: stats_ok_def list_all_iff stat_ok_def posts_in_def bump_post_def)
  qed
  ultimately show ?thesis by (auto simp: stats_ok_def list_all_iff elim!: in_update_rowsE)
qed

text \<open>C11: A reply to an unlocked thread succeeds when nothing fails: it returns the new post with
  its author's names, the post is stored after the posts the thread had, and when the clock is
  not behind the thread's posts the statistics of all threads still agree with their posts.\<close>

theorem reply_works:
  assumes "calm w" "forum_inv X (w_db w)"
    and "find_key thread_ID i (threads (w_db w)) = Some t" "\<not> thread_Locked t" "int4 (thread_PostCount t + 1)"
    and "valid_body body" "pg_text body" "find_key user_ID u (users (w_db w)) = Some usr"
    and "ans_uuid (stmt_answer (tick w)) \<notin> post_ids (w_db w)"
    and clock: "\<forall>q \<in> set (posts_in (posts (w_db w)) i). post_CreatedAt q \<le> ans_now (stmt_answer (tick w))"
  shows "\<exists>s w1. PostService_Create i u body w = (Inr s, w1) \<and>
           post_view (ps_Post s) = (ans_uuid (stmt_answer (tick w)), u, body) \<and>
           ps_AuthorUsername s = user_Username usr \<and>
           posts_in (posts (w_db w1)) i = posts_in (posts (w_db w)) i @ [ps_Post s] \<and>
           forum_inv X (w_db w1)"
proof -
  let ?p = "reply_post w i u body"
  have p: "post_ThreadID ?p = i" "post_CreatedAt ?p = ans_now (stmt_answer (tick w))"
    "post_view ?p = (ans_uuid (stmt_answer (tick w)), u, body)"
    by (simp_all add: reply_post_def created_post_def post_view_def)
  have inv: "db_ok X (w_db w)" "stats_ok (w_db w)" using assms(2) by (simp_all add: forum_inv_def)
  from PostService_Create_calm [OF assms(1) inv(1) assms(3-9)] obtain w1 where
    run: "PostService_Create i u body w = (Inr \<lparr>ps_Post = ?p, ps_AuthorUsername = user_Username usr,
            ps_AuthorDisplay = user_DisplayName usr\<rparr>, w1)" and
    db: "w_db w1 = (w_db w)\<lparr>posts := posts (w_db w) @ [?p], threads := update_rows (\<lambda>s. thread_ID s = i)
        (bump_post (post_CreatedAt ?p) (stmt_answer (tick (tick w))) (w_db w)) (threads (w_db w))\<rparr>"
    by blast
  have "stats_ok (w_db w1)"
    unfolding db using inv clock
    by (intro stats_after_reply)
       (auto simp: p db_ok_def threads_ok_def stmt_answer_def Let_def)
  moreover have "db_ok X (w_db w1)"
    using keeps_resultD [OF forum_service_keeps_schema(12) _ run, of X] inv(1) by (simp add: on_db_def)
  ultimately show ?thesis using run db p by (auto simp: forum_inv_def posts_in_def)
qed

lemma sample_inv: "forum_inv sample_ext sample_db"
  using sample_db_ok
  by (simp add: forum_inv_def stats_ok_def stat_ok_def posts_in_def latest_def sample_db_def sample_rows)

theorem reply_works_witness:
  "\<exists>s w1. PostService_Create 31 2 ''Thanks'' (sample_world sample_db) = (Inr s, w1) \<and>
     post_view (ps_Post s) = (1001, 2, ''Thanks'') \<and> forum_inv sample_ext (w_db w1)"
proof -
  have "valid_body ''Thanks''"
    by (simp add: validateBody_def Let_def TrimSpace_ascii_nospace RuneCount_ascii maxBodyLen_def IsSpace_def)
  moreover have "pg_text ''Thanks''" by (simp add: pg_text_ascii)
  ultimately show ?thesis
    using reply_works [of "sample_world sample_db" sample_ext 31 sample_thread "''Thanks''" 2 bob] sample_inv
    by (auto simp: sample_db_def sample_rows find_key_def int4_def stmt_answer_def sample_answer_def posts_in_def
        pg_time_def)
qed

text \<open>C12: Deleting a post repairs the statistics of its thread: after a deletion that reports
  success, the statistics of every thread agree with its posts, whatever those of the post's own
  thread were before, and whatever the environment did meanwhile.\<close>

theorem delete_post_repairs_stats:
  assumes run: "PostService_Delete i u rs w = (Inr (), w1)"
    and p: "find_key post_ID i (posts (w_db w)) = Some p"
    and others: "\<forall>t \<in> set (threads (w_db w)). thread_ID t \<noteq> post_ThreadID p \<longrightarrow> stat_ok (posts (w_db w)) t"
    and ok: "distinct (map post_ID (posts (w_db w)))"
  shows "i \<notin> post_ids (w_db w1) \<and> stats_ok (w_db w1)"
proof -
  let ?d = "w_db w" and ?ps = "delete_rows (\<lambda>q. post_ID q = i) (posts (w_db w))"
  from run [unfolded PostService_Delete_def PostStore_GetByID_def scan_defs] obtain w2 where
      del: "PostStore_Delete i (tick w) = (Inr (), w2)"
    and rec: "ThreadStore_RecalcStats (post_ThreadID p) w2 = (Inr (), w1)"
    by (cases rule: bind_read_cases) (auto simp: p bindE_Inr_iff mapErrE_Inr_iff split: if_splits)
  from del [unfolded PostStore_Delete_def] have d2: "posts (w_db w2) = ?ps" "threads (w_db w2) = threads ?d"
    by (auto simp: sql_posts_delete_def delete_posts_def Let_def elim!: need_rows_cases)
  from rec have d1: "threads (w_db w1) = update_rows (\<lambda>t. thread_ID t = post_ThreadID p)
       (recalc_stats (stmt_answer w2) (w_db w2)) (threads ?d)" "posts (w_db w1) = ?ps"
    by (auto simp: ThreadStore_RecalcStats_def bindE_Inr_iff d2 dest!: sql_Inr sql_threads_update_Inr)
  have "q = p" if "q \<in> set (posts ?d)" "post_ID q = i" for q
    using that p ok by (simp add: postT.find_key_eq) (metis distinct_map inj_onD)
  then have "posts_in ?ps j = posts_in (posts ?d) j" if "j \<noteq> post_ThreadID p" for j
    using that by (auto simp: posts_in_def delete_rows_def intro!: filter_cong)
  then have "stat_ok ?ps t" if "t \<in> set (threads ?d)" "thread_ID t \<noteq> post_ThreadID p" for t
    using that others by (simp add: stat_ok_def)
  moreover have "stat_ok ?ps (recalc_stats (stmt_answer w2) (w_db w2) t)" for t
    using recalc_stats_ok [of "w_db w2"] by (simp add: d2)
  ultimately show ?thesis by (auto simp: stats_ok_def list_all_iff d1 elim!: in_update_rowsE)
qed

lemma sample_delete_post:
  "\<exists>w1. PostService_Delete 41 1 [] (sample_world (sample_db\<lparr>threads := [sample_thread\<lparr>thread_PostCount := 7\<rparr>]\<rparr>)) = (Inr (), w1)"
  by (simp add: PostService_Delete_def PostStore_GetByID_def PostStore_Delete_def ThreadStore_RecalcStats_def op_defs
      scan_query_calm need_rows_def sql_calm sql_posts_delete_def delete_posts_def sql_threads_update_def recalc_stats_def
      sample_db_def sample_rows find_key_def count_rows_def update_rows_def delete_rows_def int4_def Let_def)

theorem delete_post_repairs_stats_witness:
  "\<exists>w1. PostService_Delete 41 1 [] (sample_world (sample_db\<lparr>threads := [sample_thread\<lparr>thread_PostCount := 7\<rparr>]\<rparr>)) = (Inr (), w1) \<and>
     41 \<notin> post_ids (w_db w1) \<and> stats_ok (w_db w1)"
proof -
  let ?w = "sample_world (sample_db\<lparr>threads := [sample_thread\<lparr>thread_PostCount := 7\<rparr>]\<rparr>)"
  obtain w1 where run: "PostService_Delete 41 1 [] ?w = (Inr (), w1)" using sample_delete_post by blast
  moreover have "41 \<notin> post_ids (w_db w1) \<and> stats_ok (w_db w1)"
    by (rule delete_post_repairs_stats [OF run, of sample_post])
       (simp_all add: sample_db_def sample_rows find_key_def)
  ultimately show ?thesis by blast
qed

end
