(* ===== verification/Concurrent_Forum.thy ===== *)
theory Concurrent_Forum
  imports Forum_Stats Tasks
begin

text \<open>
  Requests to the forum that run at the same time. A reply is stored by one statement and counted
  by another one, so the counter of a thread is behind while replies are under way. Over all
  interleavings of replies, edits, renames, views and new threads the counter is right again as
  soon as all of them have succeeded. The deletion of a post recounts the posts instead, and
  counts a reply under way that is then counted again; the theory shows the interleaving.
\<close>

section \<open>The operations as tasks\<close>

type_synonym 'a forum_op = "(world, error + 'a) task"

definition Get_task :: "uuid \<Rightarrow> ThreadSummary forum_op" where
  "Get_task i =
     bindT (mapErrT (notFoundAs ErrThreadNotFound) (atomic (ThreadStore_SummaryByID i))) (\<lambda>ts.
     bindT (atomic (ThreadStore_IncrementViews i)) (\<lambda>_.
     returnT ts))"

definition Start_task :: "CreateThreadInput \<Rightarrow> ThreadSummary forum_op" where
  "Start_task inp =
     bindT (mapErrT (notFoundAs ErrGroupNotFound) (atomic (GroupStore_GetByID (cti_GroupID inp)))) (\<lambda>_.
     bindT (Finished (validateTitle (cti_Title inp))) (\<lambda>_.
     bindT (Finished (validateBody (cti_Body inp))) (\<lambda>_.
     bindT (atomic (ThreadStore_Create
              \<lparr>newthread_GroupID = cti_GroupID inp, newthread_AuthorID = cti_AuthorID inp,
               newthread_Title = cti_Title inp\<rparr>
              \<lparr>newpost_ThreadID = uuid_Nil, newpost_AuthorID = cti_AuthorID inp,
               newpost_Body = cti_Body inp\<rparr>)) (\<lambda>th.
     atomic (ThreadStore_SummaryByID (thread_ID th))))))"

definition Change_task :: "uuid \<Rightarrow> UpdateThreadInput \<Rightarrow> uuid \<Rightarrow> string list \<Rightarrow> ThreadSummary forum_op" where
  "Change_task i inp callerID rs =
     bindT (mapErrT (notFoundAs ErrThreadNotFound) (atomic (ThreadStore_GetByID i))) (\<lambda>t0.
     bindT (Finished (apply_thread_update inp callerID rs t0)) (\<lambda>t.
     bindT (mapErrT (notFoundAs ErrThreadNotFound)
              (atomic (ThreadStore_Update i (thread_Title t) (thread_Pinned t) (thread_Locked t)))) (\<lambda>updated.
     atomic (ThreadStore_SummaryByID (thread_ID updated)))))"

definition Reply_task :: "uuid \<Rightarrow> uuid \<Rightarrow> string \<Rightarrow> PostSummary forum_op" where
  "Reply_task tid authorID body =
     bindT (mapErrT (notFoundAs ErrThreadNotFound) (atomic (ThreadStore_GetByID tid))) (\<lambda>th.
     if thread_Locked th then throwT ErrThreadLocked
     else
       bindT (Finished (validateBody body)) (\<lambda>_.
       bindT (atomic (PostStore_Create \<lparr>newpost_ThreadID = tid, newpost_AuthorID = authorID, newpost_Body = body\<rparr>)) (\<lambda>p.
       bindT (atomic (ThreadStore_BumpPost tid (post_CreatedAt p))) (\<lambda>_.
       atomic (PostStore_SummaryByID (post_ID p))))))"

definition Edit_task :: "uuid \<Rightarrow> uuid \<Rightarrow> string \<Rightarrow> PostSummary forum_op" where
  "Edit_task i authorID body =
     bindT (mapErrT (notFoundAs ErrPostNotFound) (atomic (PostStore_GetByID i))) (\<lambda>p.
     if post_AuthorID p \<noteq> authorID then throwT ErrForbidden
     else
       bindT (Finished (validateBody body)) (\<lambda>_.
       bindT (mapErrT (notFoundAs ErrPostNotFound) (atomic (PostStore_UpdateBody i body authorID))) (\<lambda>_.
       atomic (PostStore_SummaryByID i))))"

definition Delete_task :: "uuid \<Rightarrow> uuid \<Rightarrow> string list \<Rightarrow> unit forum_op" where
  "Delete_task i callerID rs =
     bindT (mapErrT (notFoundAs ErrPostNotFound) (atomic (PostStore_GetByID i))) (\<lambda>p.
     if post_AuthorID p \<noteq> callerID \<and> \<not> hasRole rs [RoleAdmin, RoleModerator] then throwT ErrForbidden
     else
       bindT (mapErrT (notFoundAs ErrPostNotFound) (atomic (PostStore_Delete i))) (\<lambda>_.
       atomic (ThreadStore_RecalcStats (post_ThreadID p))))"

lemmas forum_task_defs = Get_task_def Start_task_def Change_task_def Reply_task_def Edit_task_def Delete_task_def

lemma run_forum_tasks:
  "run (Get_task i) = ThreadService_Get i"
  "run (Start_task tin) = ThreadService_Create tin"
  "run (Change_task i uin c rs) = ThreadService_Update i uin c rs"
  "run (Reply_task i c b) = PostService_Create i c b"
  "run (Edit_task i c b) = PostService_Update i c b"
  "run (Delete_task i c rs) = PostService_Delete i c rs"
  by (simp_all add: forum_task_defs forum_service_defs run_simps cong: if_cong)

section \<open>Requests\<close>

datatype forum_request =
    ReqView uuid
  | ReqStart CreateThreadInput
  | ReqChange uuid UpdateThreadInput uuid "string list"
  | ReqReply uuid uuid string
  | ReqEdit uuid uuid string
  | ReqDeletePost uuid uuid "string list"

definition done_with :: "'a forum_op \<Rightarrow> unit forum_op" where
  "done_with t = bindT t (\<lambda>_. returnT ())"

fun forum_task :: "forum_request \<Rightarrow> unit forum_op" where
  "forum_task (ReqView i) = done_with (Get_task i)"
| "forum_task (ReqStart inp) = done_with (Start_task inp)"
| "forum_task (ReqChange i inp c rs) = done_with (Change_task i inp c rs)"
| "forum_task (ReqReply i c b) = done_with (Reply_task i c b)"
| "forum_task (ReqEdit i c b) = done_with (Edit_task i c b)"
| "forum_task (ReqDeletePost i c rs) = done_with (Delete_task i c rs)"

fun keeps_posts :: "forum_request \<Rightarrow> bool" where
  "keeps_posts (ReqDeletePost i c rs) = False"
| "keeps_posts _ = True"

section \<open>How far the counter of a thread is behind\<close>

definition counted :: "uuid \<Rightarrow> Thread list \<Rightarrow> int" where
  "counted i ts = sum_list (map thread_PostCount (filter (\<lambda>t. thread_ID t = i) ts))"

definition behind :: "uuid \<Rightarrow> db \<Rightarrow> int" where
  "behind i d = int (length (posts_in (posts d) i)) - counted i (threads d)"

definition has_thread :: "ext \<Rightarrow> uuid \<Rightarrow> db \<Rightarrow> bool" where
  "has_thread X i d \<longleftrightarrow> db_ok X d \<and> i \<in> thread_ids d"

definition held :: "ext \<Rightarrow> uuid \<Rightarrow> int \<Rightarrow> db \<Rightarrow> bool" where
  "held X i c d \<longleftrightarrow> has_thread X i d \<and> behind i d = c"

lemma one_row:
  assumes "has_thread X i d"
  obtains t where "filter (\<lambda>t. thread_ID t = i) (threads d) = [t]" "t \<in> set (threads d)" "thread_ID t = i"
proof -
  from assms obtain t where t: "t \<in> set (threads d)" "thread_ID t = i" by (auto simp: has_thread_def)
  have "filter (\<lambda>s. thread_ID s = thread_ID t) ts = [t]" if "distinct (map thread_ID ts)" "t \<in> set ts" for ts
    using that by (induction ts) (auto simp: filter_empty_conv image_iff)
  moreover have "distinct (map thread_ID (threads d))" using assms by (simp add: has_thread_def db_ok_def threads_ok_def)
  ultimately show ?thesis using t that by simp
qed

lemma counted_update:
  assumes "\<And>t. thread_ID (f t) = thread_ID t" "\<And>t. thread_PostCount (f t) = thread_PostCount t + k"
    and "has_thread X i d"
  shows "counted i (update_rows (\<lambda>t. thread_ID t = j) f (threads d)) = counted i (threads d) + (if i = j then k else 0)"
proof -
  obtain t where t: "filter (\<lambda>t. thread_ID t = i) (threads d) = [t]" "thread_ID t = i" using one_row [OF assms(3)] by blast
  have "filter (\<lambda>t. thread_ID t = i) (update_rows (\<lambda>t. thread_ID t = j) f (threads d)) = update_rows (\<lambda>t. thread_ID t = j) f [t]"
    using t(1) by (subst filter_update_rows) (simp_all add: assms(1))
  then show ?thesis using t by (auto simp: counted_def update_rows_def assms)
qed

lemma behind_update:
  assumes "sql_threads_update j f a d = Inr (x, d')" "has_thread X i d"
    and "\<And>t. thread_ID (f a d t) = thread_ID t" "\<And>t. thread_PostCount (f a d t) = thread_PostCount t + k"
  shows "behind i d' = behind i d - (if i = j then k else 0)"
  using sql_threads_update_Inr [OF assms(1)] counted_update [where f = "f a d", OF assms(3,4,2), of j]
  by (simp add: behind_def)

lemma behind_insert:
  assumes "sql_posts_insert np a d = Inr (p, d')"
  shows "behind i d' = behind i d + (if newpost_ThreadID np = i then 1 else 0)"
  using assms by (auto simp: sql_posts_insert_Inr behind_def posts_in_def created_post_def)

lemma behind_edit:
  assumes "sql_posts_update j b e a d = Inr (x, d')"
  shows "behind i d' = behind i d"
proof -
  have "length (posts_in (update_rows p f ps) i) = length (posts_in ps i)"
    if "\<And>q. post_ThreadID (f q) = post_ThreadID q" for p f ps
    unfolding posts_in_def using that by (subst filter_update_rows) (simp_all add: update_rows_def)
  with assms show ?thesis by (auto simp: sql_posts_update_def behind_def Let_def split: if_splits)
qed

section \<open>What the statements keep\<close>

lemma has_thread_stmt:
  assumes "stmt_keeps (db_ok X) f" "\<And>a d x d'. f a d = Inr (x, d') \<Longrightarrow> thread_ids d \<subseteq> thread_ids d'"
  shows "stmt_keeps (has_thread X i) f"
  using assms unfolding stmt_keeps_def has_thread_def by blast

lemma held_stmt:
  assumes "stmt_keeps (has_thread X i) f"
    and "\<And>a d x d'. f a d = Inr (x, d') \<Longrightarrow> has_thread X i d \<Longrightarrow> behind i d' = behind i d"
  shows "stmt_keeps (held X i c) f"
  using assms unfolding stmt_keeps_def held_def by metis

lemma updated_thread_ids:
  assumes "\<And>a d t. thread_ID (f a d t) = thread_ID t" "sql_threads_update j f a d = Inr (x, d')"
  shows "thread_ids d' = thread_ids d"
proof -
  have "map thread_ID (threads d') = map thread_ID (threads d)"
    using sql_threads_update_Inr [OF assms(2)] by (simp add: map_update_rows assms(1))
  then show ?thesis by (metis set_map)
qed

lemma has_thread_stmts:
  "stmt_keeps (has_thread X i) (sql_posts_insert np)"
  "stmt_keeps (has_thread X i) (sql_posts_update j b e)"
  "(\<And>a d t. thread_ID (f a d t) = thread_ID t) \<Longrightarrow> (\<And>a d t. thread_GroupID (f a d t) = thread_GroupID t) \<Longrightarrow>
   (\<And>a d t. thread_AuthorID (f a d t) = thread_AuthorID t) \<Longrightarrow> stmt_keeps (has_thread X i) (sql_threads_update j f)"
proof -
  show "stmt_keeps (has_thread X i) (sql_posts_insert np)"
    by (rule has_thread_stmt [OF sql_posts_insert_ok]) (simp add: sql_posts_insert_Inr)
  show "stmt_keeps (has_thread X i) (sql_posts_update j b e)"
    by (rule has_thread_stmt [OF sql_posts_update_ok]) (auto simp: sql_posts_update_def Let_def split: if_splits)
  assume f: "\<And>a d t. thread_ID (f a d t) = thread_ID t" "\<And>a d t. thread_GroupID (f a d t) = thread_GroupID t"
    "\<And>a d t. thread_AuthorID (f a d t) = thread_AuthorID t"
  show "stmt_keeps (has_thread X i) (sql_threads_update j f)"
    by (rule has_thread_stmt [OF sql_threads_update_ok [OF f]]) (use updated_thread_ids [OF f(1)] in auto)
qed

lemma held_insert: "newpost_ThreadID np \<noteq> i \<Longrightarrow> stmt_keeps (held X i c) (sql_posts_insert np)"
  by (rule held_stmt [OF has_thread_stmts(1)]) (simp add: behind_insert)

lemma held_edit: "stmt_keeps (held X i c) (sql_posts_update j b e)"
  by (rule held_stmt [OF has_thread_stmts(2)]) (rule behind_edit)

lemma held_update:
  assumes "\<And>a d t. thread_ID (f a d t) = thread_ID t" "\<And>a d t. thread_GroupID (f a d t) = thread_GroupID t"
    and "\<And>a d t. thread_AuthorID (f a d t) = thread_AuthorID t"
    and "\<And>a d t. thread_PostCount (f a d t) = thread_PostCount t + k" "i = j \<Longrightarrow> k = 0"
  shows "stmt_keeps (held X i c) (sql_threads_update j f)"
proof (rule held_stmt [OF has_thread_stmts(3) [OF assms(1-3)]])
  fix a d x d' assume "sql_threads_update j f a d = Inr (x, d')" "has_thread X i d"
  from behind_update [OF this assms(1,4)] assms(5) show "behind i d' = behind i d" by auto
qed

lemma held_create: "keeps (on_db (held X i c)) (ThreadStore_Create nt np)"
proof (rule keepsI)
  fix w assume h: "on_db (held X i c) w"
  obtain r w1 where run: "ThreadStore_Create nt np w = (r, w1)" by fastforce
  have "db_ok X (w_db w1)"
    using keeps_dbD [OF forum_store_keeps_schema(13) _ run] h by (simp add: on_db_def held_def has_thread_def)
  moreover from run have "i \<in> thread_ids (w_db w1) \<and> behind i (w_db w1) = behind i (w_db w)"
  proof (cases rule: ThreadStore_Create_cases)
    case (created j k at)
    have "j \<noteq> i" using created(1) h by (auto simp: on_db_def held_def has_thread_def)
    with created(6) h show ?thesis
      by (simp add: on_db_def held_def has_thread_def behind_def counted_def posts_in_def created_post_def created_thread_def)
  qed (use h in \<open>simp add: on_db_def held_def has_thread_def\<close>)
  ultimately show "on_db (held X i c) (snd (ThreadStore_Create nt np w))"
    using h by (simp add: run on_db_def held_def has_thread_def)
qed

lemma on_held: "on_db (held X i c) = (\<lambda>w. on_db (has_thread X i) w \<and> behind i (w_db w) = c)"
  by (simp add: fun_eq_iff on_db_def held_def)

text \<open>What the statements of the requests keep, the requests keep.\<close>

lemma forum_task_keeps:
  assumes "keeps_posts q" "\<And>nt np. keeps (on_db J) (ThreadStore_Create nt np)"
    and "\<And>j. keeps (on_db J) (ThreadStore_IncrementViews j)" "\<And>j b p q. keeps (on_db J) (ThreadStore_Update j b p q)"
    and "\<And>j b e. keeps (on_db J) (PostStore_UpdateBody j b e)"
    and "\<And>j u b. q = ReqReply j u b \<Longrightarrow> keeps (on_db J) (PostStore_Create
           \<lparr>newpost_ThreadID = j, newpost_AuthorID = u, newpost_Body = b\<rparr>) \<and> (\<forall>at. keeps (on_db J) (ThreadStore_BumpPost j at))"
  shows "keepsT (on_db J) (forum_task q)"
proof -
  have reads: "keeps (on_db J) (GroupStore_GetByID j)" "keeps (on_db J) (PostStore_GetByID j)"
    "keeps (on_db J) (PostStore_SummaryByID j)" "keeps (on_db J) (ThreadStore_GetByID j)"
    "keeps (on_db J) (ThreadStore_SummaryByID j)" for j
    unfolding forum_store_defs by (intro keeps_intros)+
  from assms(1) show ?thesis
    by (cases q)
       (auto simp: done_with_def forum_task_defs intro!: keepsT_intros reads assms(2-5) dest: assms(6))
qed

section \<open>What every request does to the counter\<close>

abbreviation "on_thread X i \<equiv> on_db (has_thread X i)"
abbreviation "behind_now i \<equiv> (\<lambda>w. behind i (w_db w))"

lemma neutral_if_held: "(\<And>c. keepsT (on_db (held X i c)) t) \<Longrightarrow> neutral (on_thread X i) (behind_now i) t"
  by (simp add: neutral_def on_held)

lemma reads_neutral:
  "neutral (on_thread X i) (behind_now i) (atomic (PostStore_SummaryByID j))"
  "neutral (on_thread X i) (behind_now i) (mapErrT g (atomic (ThreadStore_GetByID j)))"
  unfolding forum_store_defs by (rule neutral_if_held, intro keepsT_intros keeps_intros)+

lemma other_requests_neutral:
  assumes "keeps_posts q" "\<And>u b. q \<noteq> ReqReply i u b"
  shows "neutral (on_thread X i) (behind_now i) (forum_task q)"
proof (rule neutral_if_held)
  fix c
  have bump: "keeps (on_db (held X i c)) (ThreadStore_BumpPost j at)" if "j \<noteq> i" for j at
    unfolding ThreadStore_BumpPost_def
    by (intro keeps_intros held_update [where k = 1]; use that in \<open>simp add: bump_post_def\<close>)
  show "keepsT (on_db (held X i c)) (forum_task q)"
  proof (rule forum_task_keeps [OF assms(1) held_create])
    fix j u b assume "q = ReqReply j u b"
    with assms(2) have "j \<noteq> i" by auto
    then show "keeps (on_db (held X i c)) (PostStore_Create \<lparr>newpost_ThreadID = j, newpost_AuthorID = u, newpost_Body = b\<rparr>) \<and>
        (\<forall>at. keeps (on_db (held X i c)) (ThreadStore_BumpPost j at))"
      unfolding PostStore_Create_def by (auto intro!: keeps_intros held_insert bump)
  qed (unfold forum_store_defs, (intro keeps_intros held_edit held_update [where k = 0]; simp)+)
qed

lemma requests_keep_thread:
  assumes "keeps_posts q"
  shows "keepsT (on_thread X i) (forum_task q)"
proof (rule forum_task_keeps [OF assms])
  show "keeps (on_thread X i) (ThreadStore_Create nt np)" for nt np
    using held_create [of X i _ nt np] by (auto simp: keeps_def on_held)
qed (unfold forum_store_defs, (intro conjI allI keeps_intros has_thread_stmts; simp add: bump_post_def)+)

text \<open>A reply is behind by one between its two statements.\<close>

lemma reply_counts:
  "owes (on_thread X i) (behind_now i) (\<lambda>r. r = Inr ()) (forum_task (ReqReply i u b)) 0"
proof -
  let ?I = "on_thread X i" and ?m = "behind_now i" and ?ok = "\<lambda>r :: error + unit. r = Inr ()"
  let ?np = "\<lparr>newpost_ThreadID = i, newpost_AuthorID = u, newpost_Body = b\<rparr>"
  have rd: "owes ?I ?m ?ok (bindT (atomic (PostStore_SummaryByID j)) (\<lambda>_. returnT ())) 0" for j
    by (rule owes_bindT [OF reads_neutral(1)]) (simp_all add: returnT_def)
  have bump: "owes ?I ?m ?ok (bindT (atomic (ThreadStore_BumpPost i at)) (\<lambda>_.
      bindT (atomic (PostStore_SummaryByID j)) (\<lambda>_. returnT ()))) 1" for at j
  proof (rule owes_call)
    fix w w1 x assume "?I w" "ThreadStore_BumpPost i at w = (Inr x, w1)"
    then obtain y where "sql_threads_update i (bump_post at) (stmt_answer w) (w_db w) = Inr (y, w_db w1)"
      by (auto simp: ThreadStore_BumpPost_def bindE_Inr_iff dest!: sql_Inr)
    from behind_update [OF this, of X i 1] \<open>?I w\<close> have "?m w1 - ?m w = 0 - 1"
      by (simp add: on_db_def bump_post_def)
    with rd show "\<exists>k. owes ?I ?m ?ok (bindT (atomic (PostStore_SummaryByID j)) (\<lambda>_. returnT ())) k \<and> ?m w1 - ?m w = k - 1"
      by blast
  qed simp
  have ins: "owes ?I ?m ?ok (bindT (atomic (PostStore_Create ?np)) (\<lambda>p. bindT (atomic (ThreadStore_BumpPost i (post_CreatedAt p))) (\<lambda>_.
      bindT (atomic (PostStore_SummaryByID (post_ID p))) (\<lambda>_. returnT ())))) 0"
  proof (rule owes_call)
    fix w w1 p assume "?I w" "PostStore_Create ?np w = (Inr p, w1)"
    then have "sql_posts_insert ?np (stmt_answer w) (w_db w) = Inr (p, w_db w1)"
      by (auto simp: PostStore_Create_def dest!: sql_Inr)
    from behind_insert [OF this, of i] have "?m w1 - ?m w = 1 - 0" by simp
    with bump [of "post_CreatedAt p" "post_ID p"]
    show "\<exists>k. owes ?I ?m ?ok (bindT (atomic (ThreadStore_BumpPost i (post_CreatedAt p))) (\<lambda>_.
        bindT (atomic (PostStore_SummaryByID (post_ID p))) (\<lambda>_. returnT ()))) k \<and> ?m w1 - ?m w = k - 0"
      by blast
  qed simp
  have pure: "neutral ?I ?m (Finished x)" for x :: "error + unit" by (simp add: neutral_def)
  show ?thesis
    unfolding forum_task.simps done_with_def Reply_task_def bindT_assoc bindT_if bindT_throwT
    by (intro owes_bindT [OF reads_neutral(2)]) (auto simp: throwT_def intro!: owes_bindT [OF pure] ins)
qed

interpretation replies: accounted "on_thread X i" "behind_now i" "\<lambda>r. r = Inr ()" forum_task keeps_posts
  for X i
proof
  fix q assume q: "keeps_posts q"
  then show "keepsT (on_thread X i) (forum_task q)" by (rule requests_keep_thread)
  show "owes (on_thread X i) (behind_now i) (\<lambda>r. r = Inr ()) (forum_task q) 0"
  proof (cases "\<exists>c b. q = ReqReply i c b")
    case False
    with q show ?thesis by (intro owes_neutral other_requests_neutral) auto
  qed (auto intro: reply_counts)
qed

section \<open>The counter over all interleavings\<close>

lemma counter_row:
  assumes "has_thread X i d"
  obtains t where "find_key thread_ID i (threads d) = Some t" "counted i (threads d) = thread_PostCount t"
proof -
  from one_row [OF assms] obtain t where t: "filter (\<lambda>t. thread_ID t = i) (threads d) = [t]" "t \<in> set (threads d)" "thread_ID t = i"
    by blast
  have "find_key thread_ID i (threads d) = Some t"
    using assms t(2,3) by (simp add: has_thread_def db_ok_def threads_ok_def threadT.find_key_eq)
  with t that show ?thesis by (simp add: counted_def)
qed

text \<open>C13: Replies, edits, renames, views and new threads may run at the same time, with their
  statements interleaved in any way and whatever the environment does: when all of them have
  succeeded, the post count of every thread is off from its number of posts by exactly as much as
  it was before they started. No reply is counted twice and none is lost.\<close>

theorem concurrent_replies_counted:
  assumes "db_ok X (w_db w)" "find_key thread_ID i (threads (w_db w)) = Some t" "list_all keeps_posts qs"
    and "schedule sch (w, map forum_task qs) = (w1, ts)" "list_all (\<lambda>r. r = Finished (Inr ())) ts"
  shows "\<exists>t1. find_key thread_ID i (threads (w_db w1)) = Some t1 \<and>
     thread_PostCount t1 - int (length (posts_in (posts (w_db w1)) i)) =
     thread_PostCount t - int (length (posts_in (posts (w_db w)) i))"
proof -
  have I: "on_thread X i w"
    using assms(1) threadT.find_key_Some [OF assms(2)] by (auto simp: on_db_def has_thread_def)
  have "on_thread X i w1"
    by (rule schedule_keeps [where B = "on_thread X i", OF assms(4) I]) (use assms(3) in \<open>auto simp: list_all_iff requests_keep_thread\<close>)
  then obtain t1 where "find_key thread_ID i (threads (w_db w1)) = Some t1" "counted i (threads (w_db w1)) = thread_PostCount t1"
    unfolding on_db_def by (rule counter_row)
  moreover have "behind i (w_db w1) = behind i (w_db w)"
    by (rule replies.settled [OF I assms(4,3)]) (use assms(5) in \<open>auto simp: list_all_iff\<close>)
  moreover obtain t0 where "find_key thread_ID i (threads (w_db w)) = Some t0" "counted i (threads (w_db w)) = thread_PostCount t0"
    using I unfolding on_db_def by (rule counter_row)
  ultimately show ?thesis using assms(2) by (simp add: behind_def)
qed

lemma sample_title: "validateTitle ''hi'' = Inr ()"
  by (simp add: validateTitle_def Let_def TrimSpace_ascii_nospace RuneCount_ascii maxThreadTitleLen_def IsSpace_def)

lemma sample_bodies: "validateBody ''hi'' = Inr ()" "validateBody ''yo'' = Inr ()" "pg_text ''hi''" "pg_text ''yo''"
  "pg_text ''Hello''"
  by (simp_all add: validateBody_def Let_def TrimSpace_ascii_nospace RuneCount_ascii maxBodyLen_def IsSpace_def pg_text_ascii)

lemma scan_sql_calm:
  "calm w \<Longrightarrow> list_all pg_text args \<Longrightarrow>
     scan_row (sql args f) w =
       (case f (stmt_answer w) (w_db w) of
          Inl e \<Rightarrow> (Inl (PgErr e), tick w)
        | Inr (x, d) \<Rightarrow> (case x of None \<Rightarrow> Inl StoreErrNotFound | Some y \<Rightarrow> Inr y, (tick w)\<lparr>w_db := d\<rparr>))"
  by (simp add: scan_row_def bindE_def sql_calm op_defs split: sum.split option.split)

lemmas sample_eval =
  done_with_def forum_task_defs forum_store_defs bindT_def mapErrT_def handleT_def returnT_def throwT_def
  atomic_def scan_query_calm scan_sql_calm sql_calm need_rows_def sql_posts_insert_def sql_posts_delete_def delete_posts_def
  sql_threads_update_def bump_post_def recalc_stats_def post_summary_def op_defs sample_db_def sample_rows
  find_key_def count_rows_def update_rows_def delete_rows_def int4_def Let_def stmt_answer_def sample_answer_def

lemma sample_two_replies:
  "\<exists>w1. schedule [0, 1, 0, 1, 1, 0, 1, 0] (sample_world sample_db, map forum_task [ReqReply 31 2 ''hi'', ReqReply 31 1 ''yo'']) =
     (w1, [Finished (Inr ()), Finished (Inr ())]) \<and> length (posts_in (posts (w_db w1)) 31) = 3"
  by (simp add: sample_eval sample_bodies posts_in_def)

theorem concurrent_replies_counted_witness:
  "\<exists>w1 t1. schedule [0, 1, 0, 1, 1, 0, 1, 0] (sample_world sample_db, map forum_task [ReqReply 31 2 ''hi'', ReqReply 31 1 ''yo'']) =
     (w1, [Finished (Inr ()), Finished (Inr ())]) \<and>
     find_key thread_ID 31 (threads (w_db w1)) = Some t1 \<and> thread_PostCount t1 = 3"
proof -
  let ?qs = "[ReqReply 31 2 ''hi'', ReqReply 31 1 ''yo'']" and ?done = "[Finished (Inr ()), Finished (Inr ())]"
  obtain w1 where run: "schedule [0, 1, 0, 1, 1, 0, 1, 0] (sample_world sample_db, map forum_task ?qs) = (w1, ?done)"
    and n: "length (posts_in (posts (w_db w1)) 31) = 3" using sample_two_replies by blast
  have "find_key thread_ID 31 (threads (w_db (sample_world sample_db))) = Some sample_thread"
    by (simp add: find_key_def sample_db_def sample_rows)
  from concurrent_replies_counted [OF _ this _ run, of sample_ext] sample_db_ok n
  obtain t1 where "find_key thread_ID 31 (threads (w_db w1)) = Some t1" "thread_PostCount t1 = 3"
    by (auto simp: posts_in_def sample_db_def sample_rows)
  with run show ?thesis by blast
qed

text \<open>The two statements of a deletion when nothing fails.\<close>

lemma recalc_stats_calm:
  assumes "calm w" "threads_ok (w_db w)" "find_key thread_ID i (threads (w_db w)) = Some t"
    and "int4 (int (length (posts_in (posts (w_db w)) i)))"
  shows "ThreadStore_RecalcStats i w = (Inr (), (tick w)\<lparr>w_db := (w_db w)\<lparr>threads :=
    update_rows (\<lambda>s. thread_ID s = i) (recalc_stats (stmt_answer w) (w_db w)) (threads (w_db w))\<rparr>\<rparr>)"
  unfolding ThreadStore_RecalcStats_def
  by (rule thread_update_calm [OF assms(1-3)])
     (use assms(4) row_ranges [OF assms(2,3)] threadT.find_key_Some [OF assms(3)] in
       \<open>simp_all add: recalc_stats_def count_rows_def posts_in_def\<close>)

lemma post_delete_calm:
  assumes "calm w" "find_key post_ID j (posts (w_db w)) = Some p"
  shows "PostStore_Delete j w = (Inr (), (tick w)\<lparr>w_db := delete_posts (\<lambda>q. post_ID q = j) (w_db w)\<rparr>)"
proof -
  have "count_rows (\<lambda>q. post_ID q = j) (posts (w_db w)) \<noteq> 0"
    using postT.find_key_Some [OF assms(2)] by (auto simp: count_rows_def filter_empty_conv)
  then show ?thesis using assms(1)
    by (simp add: PostStore_Delete_def need_rows_def bindE_def sql_calm sql_posts_delete_def returnE_def)
qed

lemma posts_in_deleted:
  assumes "distinct (map post_ID ps)" "p \<in> set ps"
  shows "length (posts_in ps (post_ThreadID p)) = Suc (length (posts_in (filter (\<lambda>q. post_ID q \<noteq> post_ID p) ps) (post_ThreadID p)))"
proof -
  let ?in = "posts_in ps (post_ThreadID p)"
  have "find_key post_ID (post_ID p) ?in = Some p"
    using assms by (simp add: posts_in_def postT.find_key_eq distinct_map_filter)
  then have "length (filter (\<lambda>q. post_ID q = post_ID p) ?in) = 1"
    using postT.count_key [of ?in "post_ID p"] assms by (simp add: count_rows_def posts_in_def distinct_map_filter)
  moreover have "posts_in (filter (\<lambda>q. post_ID q \<noteq> post_ID p) ps) (post_ThreadID p) = filter (\<lambda>q. post_ID q \<noteq> post_ID p) ?in"
    by (simp add: posts_in_def conj_commute)
  ultimately show ?thesis using sum_length_filter_compl [of "\<lambda>q. post_ID q = post_ID p" ?in] by simp
qed

text \<open>Seven calls of a reply and of a deletion, interleaved.\<close>

lemma race_schedule:
  assumes "ThreadStore_GetByID i w0 = (Inr t, w1)" "\<not> thread_Locked t" "validateBody body = Inr ()"
    and "PostStore_Create \<lparr>newpost_ThreadID = i, newpost_AuthorID = u, newpost_Body = body\<rparr> w1 = (Inr q, w2)"
    and "PostStore_GetByID j w2 = (Inr p, w3)" "post_AuthorID p = c \<or> hasRole rs [RoleAdmin, RoleModerator]" "post_ThreadID p = i"
    and "PostStore_Delete j w3 = (Inr (), w4)" "ThreadStore_RecalcStats i w4 = (Inr (), w5)"
    and "ThreadStore_BumpPost i (post_CreatedAt q) w5 = (Inr (), w6)" "PostStore_SummaryByID (post_ID q) w6 = (Inr s, w7)"
  shows "schedule [0, 0, 1, 1, 1, 0, 0] (w0, map forum_task [ReqReply i u body, ReqDeletePost j c rs]) =
    (w7, [Finished (Inr ()), Finished (Inr ())])"
  using assms(6)
  by (elim disjE; simp add: assms done_with_def Reply_task_def Delete_task_def bindT_def mapErrT_def handleT_def returnT_def throwT_def atomic_def)

text \<open>C14: A reply and the deletion of another post of its thread can race, without any failure: for
  every unlocked thread, every reply to it that would succeed and every deletion of one of its posts
  that would succeed there is an interleaving of the two in which both succeed and the thread counts
  one post more than it has. The deletion recounts the posts between the two statements of the
  reply, so that the reply is counted twice.\<close>

theorem reply_delete_race:
  assumes "calm w" "db_ok X (w_db w)"
    and "find_key thread_ID i (threads (w_db w)) = Some t" "\<not> thread_Locked t"
    and "valid_body body" "pg_text body" "find_key user_ID u (users (w_db w)) = Some usr"
    and "ans_uuid (stmt_answer (tick w)) \<notin> post_ids (w_db w)"
    and "find_key post_ID j (posts (w_db w)) = Some p" "post_ThreadID p = i"
    and "post_AuthorID p = c \<or> hasRole rs [RoleAdmin, RoleModerator]"
    and "int4 (int (length (posts_in (posts (w_db w)) i)) + 1)"
  shows "\<exists>sch w1 t1. schedule sch (w, map forum_task [ReqReply i u body, ReqDeletePost j c rs]) =
      (w1, [Finished (Inr ()), Finished (Inr ())]) \<and>
    find_key thread_ID i (threads (w_db w1)) = Some t1 \<and>
    posts (w_db w1) = filter (\<lambda>q. post_ID q \<noteq> j) (posts (w_db w)) @ [reply_post w i u body] \<and>
    thread_PostCount t1 = int (length (posts_in (posts (w_db w1)) i)) + 1"
proof -
  let ?d = "w_db w" and ?q = "reply_post w i u body"
  have c: "calm (tick v)" "calm (v\<lparr>w_db := d\<rparr>)" if "calm v" for v d using that by (simp_all add: calm_def)
  define w2 where "w2 = (tick (tick w))\<lparr>w_db := ?d\<lparr>posts := posts ?d @ [?q]\<rparr>\<rparr>"
  define w4 where "w4 = (tick (tick w2))\<lparr>w_db := delete_posts (\<lambda>q. post_ID q = j) (w_db w2)\<rparr>"
  define w5 where "w5 = (tick w4)\<lparr>w_db := (w_db w4)\<lparr>threads :=
    update_rows (\<lambda>s. thread_ID s = i) (recalc_stats (stmt_answer w4) (w_db w4)) (threads (w_db w4))\<rparr>\<rparr>"
  define w6 where "w6 = (tick w5)\<lparr>w_db := (w_db w5)\<lparr>threads :=
    update_rows (\<lambda>s. thread_ID s = i) (bump_post (post_CreatedAt ?q) (stmt_answer w5) (w_db w5)) (threads (w_db w5))\<rparr>\<rparr>"
  have calm: "calm w2" "calm w4" "calm w5" "calm w6" using assms(1) by (simp_all add: w2_def w4_def w5_def w6_def c)
  have q: "post_ID ?q \<notin> post_ids ?d" "post_ThreadID ?q = i" "post_AuthorID ?q = u"
    using assms(8) by (simp_all add: reply_post_def created_post_def)
  have j: "j \<in> post_ids ?d" "p \<in> set (posts ?d)" "post_ID p = j" using postT.find_key_Some [OF assms(9)] by auto
  then have jq: "post_ID ?q \<noteq> j" using q(1) by auto
  have ids: "i \<in> thread_ids ?d" "u \<in> user_ids ?d"
    using threadT.find_key_Some [OF assms(3)] userT.find_key_Some [OF assms(7)] by (metis imageI)+
  have get: "ThreadStore_GetByID i w = (Inr t, tick w)" using assms(1,3) by (simp add: ThreadStore_GetByID_def scan_query_calm)
  have ins: "PostStore_Create \<lparr>newpost_ThreadID = i, newpost_AuthorID = u, newpost_Body = body\<rparr> (tick w) = (Inr ?q, w2)"
    using reply_insert_calm [OF assms(1) ids assms(6,8)] by (simp add: w2_def)
  have getp: "PostStore_GetByID j w2 = (Inr p, tick w2)"
    using calm(1) assms(9) by (simp add: PostStore_GetByID_def scan_query_calm w2_def postT.find_key_append)
  have del: "PostStore_Delete j (tick w2) = (Inr (), w4)"
    using post_delete_calm [of "tick w2" j p] calm(1) assms(9) by (simp add: c w4_def w2_def postT.find_key_append)
  have schema: "keeps (on_db (db_ok X)) (PostStore_Create np)" "keeps (on_db (db_ok X)) (PostStore_Delete j)"
    "keeps (on_db (db_ok X)) (ThreadStore_RecalcStats i)" for np
    by (intro keeps_intros)+
  have ok2: "db_ok X (w_db w2)" using keeps_dbD [OF schema(1) _ ins] assms(2) by simp
  have ok4: "db_ok X (w_db w4)" using keeps_dbD [OF schema(2) _ del] ok2 by simp
  have ps: "posts (w_db w4) = filter (\<lambda>q. post_ID q \<noteq> j) (posts ?d) @ [?q]" "threads (w_db w4) = threads ?d"
    using jq by (simp_all add: w4_def w2_def delete_posts_def delete_rows_def Let_def)
  have n: "length (posts_in (posts (w_db w4)) i) = length (posts_in (posts ?d) i)"
    using posts_in_deleted [of "posts ?d" p] assms(2,10) j q(2) ps(1) by (simp add: db_ok_def posts_ok_def posts_in_def)
  have rec: "ThreadStore_RecalcStats i w4 = (Inr (), w5)"
    using recalc_stats_calm [OF calm(2) _ _, of i t] ok4 assms(3,12) n ps(2) by (simp add: w5_def db_ok_def int4_def)
  have ok5: "db_ok X (w_db w5)" using keeps_dbD [OF schema(3) ok4 rec] .
  let ?t5 = "recalc_stats (stmt_answer w4) (w_db w4) t"
  have t5: "find_key thread_ID i (threads (w_db w5)) = Some ?t5"
    using assms(3) ps(2) by (simp add: w5_def threadT.find_key_update recalc_stats_def)
  have n5: "thread_PostCount ?t5 = int (length (posts_in (posts ?d) i))"
    using n threadT.find_key_Some [OF assms(3)] by (simp add: recalc_stats_def count_rows_def posts_in_def)
  have bump: "ThreadStore_BumpPost i (post_CreatedAt ?q) w5 = (Inr (), w6)"
    using bump_post_calm [OF calm(3) _ t5] ok5 assms(12) n5 by (simp add: w6_def db_ok_def)
  have p6: "posts (w_db w6) = posts (w_db w4)" "users (w_db w6) = users ?d"
    by (simp_all add: w6_def w5_def w4_def w2_def delete_posts_def Let_def)
  have "find_key post_ID (post_ID ?q) (posts (w_db w6)) = Some ?q"
    unfolding p6 ps using q(1) by (intro postT.find_key_insert) auto
  then have sum: "PostStore_SummaryByID (post_ID ?q) w6 =
      (Inr \<lparr>ps_Post = ?q, ps_AuthorUsername = user_Username usr, ps_AuthorDisplay = user_DisplayName usr\<rparr>, tick w6)"
    using assms(7) q(3) p6(2) by (intro post_summary_calm [OF calm(4)]) simp_all
  have "schedule [0, 0, 1, 1, 1, 0, 0] (w, map forum_task [ReqReply i u body, ReqDeletePost j c rs]) =
      (tick w6, [Finished (Inr ()), Finished (Inr ())])"
    by (rule race_schedule [OF get assms(4) assms(5) ins getp assms(11,10) del rec bump sum])
  moreover have "find_key thread_ID i (threads (w_db w6)) = Some (bump_post (post_CreatedAt ?q) (stmt_answer w5) (w_db w5) ?t5)"
    using t5 by (simp add: w6_def threadT.find_key_update bump_post_def)
  moreover have "thread_PostCount (bump_post (post_CreatedAt ?q) (stmt_answer w5) (w_db w5) ?t5) = int (length (posts_in (posts (w_db w6)) i)) + 1"
    using n n5 p6(1) by (simp add: bump_post_def)
  ultimately show ?thesis using ps(1) p6(1) by (metis tick_simps(1))
qed

theorem reply_delete_race_witness:
  "\<exists>sch w1 t1. schedule sch (sample_world sample_db, map forum_task [ReqReply 31 2 ''hi'', ReqDeletePost 41 1 []]) =
     (w1, [Finished (Inr ()), Finished (Inr ())]) \<and>
     find_key thread_ID 31 (threads (w_db w1)) = Some t1 \<and>
     length (posts_in (posts (w_db w1)) 31) = 1 \<and> thread_PostCount t1 = 2"
proof -
  have "\<exists>sch w1 t1. schedule sch (sample_world sample_db, map forum_task [ReqReply 31 2 ''hi'', ReqDeletePost 41 1 []]) =
      (w1, [Finished (Inr ()), Finished (Inr ())]) \<and>
    find_key thread_ID 31 (threads (w_db w1)) = Some t1 \<and>
    posts (w_db w1) = filter (\<lambda>q. post_ID q \<noteq> 41) (posts (w_db (sample_world sample_db))) @ [reply_post (sample_world sample_db) 31 2 ''hi''] \<and>
    thread_PostCount t1 = int (length (posts_in (posts (w_db w1)) 31)) + 1"
    by (rule reply_delete_race [of _ sample_ext 31 sample_thread _ 2 bob _ sample_post])
       (use sample_db_ok sample_bodies in \<open>simp_all add: sample_db_def sample_rows find_key_def int4_def posts_in_def
          stmt_answer_def sample_answer_def\<close>)
  then obtain sch w1 t1 where run: "schedule sch (sample_world sample_db, map forum_task [ReqReply 31 2 ''hi'', ReqDeletePost 41 1 []]) =
      (w1, [Finished (Inr ()), Finished (Inr ())])" "find_key thread_ID 31 (threads (w_db w1)) = Some t1"
    "posts (w_db w1) = filter (\<lambda>q. post_ID q \<noteq> 41) (posts sample_db) @ [reply_post (sample_world sample_db) 31 2 ''hi'']"
    "thread_PostCount t1 = int (length (posts_in (posts (w_db w1)) 31)) + 1"
    unfolding sample_world_simps by blast
  moreover have "posts_in (filter (\<lambda>q. post_ID q \<noteq> 41) (posts sample_db) @ [reply_post (sample_world sample_db) 31 2 ''hi'']) 31 =
      [reply_post (sample_world sample_db) 31 2 ''hi'']"
    by (simp add: posts_in_def sample_db_def sample_rows reply_post_def created_post_def)
  ultimately have "length (posts_in (posts (w_db w1)) 31) = 1 \<and> thread_PostCount t1 = 2" by simp
  with run(1,2) show ?thesis by blast
qed

text \<open>Two changes of a thread can both succeed and lose one of them, because every change reads
  the whole row and writes all three of its fields back: when the owner renames the thread while a
  moderator locks it, the interleaving shown ends with the thread unlocked.\<close>

lemma concurrent_update_lost:
  "\<exists>w1 t1. schedule [0, 1, 1, 0, 0, 1] (sample_world sample_db, map forum_task
       [ReqChange 31 \<lparr>uti_Title = Some ''hi'', uti_Pinned = None, uti_Locked = None\<rparr> 1 [],
        ReqChange 31 \<lparr>uti_Title = None, uti_Pinned = None, uti_Locked = Some True\<rparr> 2 [RoleModerator]]) =
     (w1, [Finished (Inr ()), Finished (Inr ())]) \<and>
     find_key thread_ID 31 (threads (w_db w1)) = Some t1 \<and> thread_Title t1 = ''hi'' \<and> \<not> thread_Locked t1"
  by (simp add: sample_eval apply_thread_update_def thread_summary_def sample_bodies sample_title hasRole_def
      RoleAdmin_def RoleModerator_def)

end
