(* ===== verification/Concurrent_Setup.thy ===== *)
theory Concurrent_Setup
  imports Admin_Install Tasks
begin

text \<open>
  Two first-run setups at the same time. \<^verbatim>\<open>Setup\<close> of \<^verbatim>\<open>internal/services/install.go\<close> reads
  whether the forum is installed and marks it installed several statements later, outside a
  transaction. The setup as a task shows what this means: a second setup that has read the mark
  before the first one writes it succeeds as well, and the forum has two administrators from two
  setups. Setups one after the other are the subject of \<open>setup_runs_once\<close>.
\<close>

section \<open>The setup as a task\<close>

definition Status_task :: "(world, error + InstallStatus) task" where
  "Status_task =
     bindT (atomic (get_optional keyInstalled)) (\<lambda>raw.
     bindT (case raw of
              None \<Rightarrow> returnT False
            | Some r \<Rightarrow> (case Unmarshal_bool r of None \<Rightarrow> throwT ErrJson | Some b \<Rightarrow> returnT b)) (\<lambda>installed.
     bindT (atomic (get_optional keyForumName)) (\<lambda>name.
     bindT (case name of
              None \<Rightarrow> returnT None
            | Some r \<Rightarrow> (case Unmarshal_string r of None \<Rightarrow> throwT ErrJson | Some n \<Rightarrow> returnT (Some n))) (\<lambda>forumName.
     returnT \<lparr>ist_Installed = installed, ist_ForumName = forumName\<rparr>))))"

definition create_admin_task :: "ext \<Rightarrow> Params \<Rightarrow> InstallInput \<Rightarrow> (world, error + User) task" where
  "create_admin_task X hasher inp =
     bindT (atomic (PasswordHasher_Hash X hasher (inst_AdminPassword inp))) (\<lambda>hash.
     bindT (mapErrT (\<lambda>e. if e = StoreErrConflict then ErrConflict else e)
              (atomic (UserStore_Create X
                \<lparr>newuser_Username = TrimSpace (inst_AdminUsername inp),
                 newuser_Email = TrimSpace (inst_AdminEmail inp), newuser_PasswordHash = hash,
                 newuser_DisplayName = TrimSpace (inst_AdminUsername inp)\<rparr>))) (\<lambda>user.
     bindT (atomic (UserStore_AddMemberRole (user_ID user))) (\<lambda>_.
     bindT (atomic (UserStore_AssignRole (user_ID user) RoleAdmin)) (\<lambda>_.
     bindT (atomic (SettingsStore_Set keyInstalled (JBool True))) (\<lambda>_.
     bindT (atomic (SettingsStore_Set keyForumName (json_string (TrimSpace (inst_ForumName inp))))) (\<lambda>_.
     returnT user))))))"

definition Setup_task :: "ext \<Rightarrow> Params \<Rightarrow> InstallInput \<Rightarrow> (world, error + User) task" where
  "Setup_task X hasher inp =
     bindT Status_task (\<lambda>st.
     if ist_Installed st then throwT ErrAlreadyInstalled
     else if \<not> setup_valid inp then throwT ErrInvalidInput
     else create_admin_task X hasher inp)"

lemma run_Status_task [run_simps]: "run Status_task = InstallService_Status"
  by (simp add: Status_task_def InstallService_Status_def run_simps cong: option.case_cong)

lemma run_create_admin_task [run_simps]: "run (create_admin_task X P inp) = create_admin X P inp"
  by (simp add: create_admin_task_def create_admin_def run_simps)

lemma run_Setup_task: "run (Setup_task X P inp) = InstallService_Setup X P inp"
  by (simp add: Setup_task_def InstallService_Setup_def run_simps cong: if_cong)

section \<open>Two setups\<close>

definition other_setup :: InstallInput where
  "other_setup = \<lparr>inst_ForumName = ''Lodge'', inst_AdminUsername = ''bobby'',
     inst_AdminEmail = ''bobby@example.org'', inst_AdminPassword = ''sesame-street''\<rparr>"

lemma create_admin_frame:
  assumes "create_admin X P inp w = (Inr u, w1)"
  shows "roles (w_db w1) = roles (w_db w)" "db_ok X (w_db w) \<Longrightarrow> db_ok X (w_db w1)"
proof -
  have st: "stmt_keeps (\<lambda>d. roles d = roles (w_db w)) (sql_settings_upsert k v)"
    "stmt_keeps (\<lambda>d. roles d = roles (w_db w)) (sql_users_insert X nu)"
    "stmt_keeps (\<lambda>d. roles d = roles (w_db w)) (sql_user_roles_insert i q)" for k v nu i q
    by (auto simp: stmt_keeps_def sql_settings_upsert_def sql_users_insert_def sql_user_roles_insert_def Let_def
        split: if_splits)
  have "keeps (on_db (\<lambda>d. roles d = roles (w_db w))) (create_admin X P inp)"
    unfolding create_admin_def user_store_defs by (intro keeps_intros st)
  from keeps_dbD [OF this _ assms] show "roles (w_db w1) = roles (w_db w)" by simp
  have "keeps (on_db (db_ok X)) (create_admin X P inp)" unfolding create_admin_def by (intro keeps_intros)
  from keeps_dbD [OF this _ assms] show "db_ok X (w_db w) \<Longrightarrow> db_ok X (w_db w1)" .
qed

lemma other_setup_facts:
  "setup_valid other_setup" "TrimSpace ''bobby'' = ''bobby''" "TrimSpace ''bobby@example.org'' = ''bobby@example.org''"
proof -
  have "runes ''bobby@example.org'' = map byte_of ''bobby'' @ 64 # map byte_of ''example'' @ 46 # map byte_of ''org''"
    by (subst runes_ascii) simp_all
  moreover have "list_all mail_r (map byte_of ''bobby'' @ map byte_of ''example'' @ map byte_of ''org'')"
    by (simp add: mail_r_def)
  ultimately have "MatchString emailRe ''bobby@example.org''"
    unfolding emailRe_iff by blast
  moreover show t: "TrimSpace ''bobby'' = ''bobby''" "TrimSpace ''bobby@example.org'' = ''bobby@example.org''"
    by (rule TrimSpace_ascii_nospace, simp add: IsSpace_def)+
  moreover have "MatchString usernameRe ''bobby''" by (simp add: usernameRe_iff username_ok_def rune_class_defs)
  moreover have "runes ''bobby'' = map byte_of ''bobby''" by (rule runes_ascii) simp
  moreover have "RuneCountInString ''Lodge'' = 5" by (simp add: RuneCount_ascii)
  ultimately show "setup_valid other_setup" by (simp add: setup_valid_def other_setup_def trim_lodge)
qed

lemma fresh_forum_facts:
  "calm fresh_forum" "settings (w_db fresh_forum) = []" "users (w_db fresh_forum) = []"
  "db_ok sample_ext (w_db fresh_forum)" "setup_valid sample_setup"
  "\<exists>r \<in> set (roles (w_db fresh_forum)). role_Key r = RoleAdmin"
proof -
  show "\<exists>r \<in> set (roles (w_db fresh_forum)). role_Key r = RoleAdmin"
    by (simp add: fresh_forum_def migrated_def RoleAdmin_def)
qed (use sample_setup_env migrated_ok [of 11 12 13 sample_ext] in
      \<open>simp_all add: fresh_forum_def migrated_def setup_env_def\<close>)

text \<open>Both setups read that the forum is not installed.\<close>

lemma both_setups_checked:
  "\<exists>sch. schedule sch (fresh_forum, map (Setup_task sample_ext DefaultParams) [sample_setup, other_setup]) =
     (tick (tick (tick (tick fresh_forum))),
      [create_admin_task sample_ext DefaultParams sample_setup, create_admin_task sample_ext DefaultParams other_setup])"
proof -
  let ?A = "create_admin_task sample_ext DefaultParams sample_setup"
    and ?B = "create_admin_task sample_ext DefaultParams other_setup"
    and ?SA = "Setup_task sample_ext DefaultParams sample_setup"
  have st: "run Status_task w = (Inr \<lparr>ist_Installed = False, ist_ForumName = None\<rparr>, tick (tick w))"
    if "calm w" "settings (w_db w) = []" for w
    using Status_calm_empty [OF that] by (simp add: run_simps)
  obtain n1 where s1: "schedule (replicate n1 1) (fresh_forum, map (Setup_task sample_ext DefaultParams) [sample_setup, other_setup]) =
      (tick (tick fresh_forum), [?SA, ?B])"
    using schedule_run_bind [OF _ _ st [OF fresh_forum_facts(1,2)], of 1 "map (Setup_task sample_ext DefaultParams) [sample_setup, other_setup]"]
      other_setup_facts(1) by (fastforce simp: Setup_task_def)
  obtain n2 where s2: "schedule (replicate n2 0) (tick (tick fresh_forum), [?SA, ?B]) =
      (tick (tick (tick (tick fresh_forum))), [?A, ?B])"
    using schedule_run_bind [OF _ _ st, of 0 "[?SA, ?B]" _ "tick (tick fresh_forum)"] fresh_forum_facts
    by (fastforce simp: Setup_task_def)
  have "schedule (replicate n1 1 @ replicate n2 0)
      (fresh_forum, map (Setup_task sample_ext DefaultParams) [sample_setup, other_setup]) =
      (tick (tick (tick (tick fresh_forum))), [?A, ?B])"
    by (simp only: schedule_append s1 s2)
  then show ?thesis by blast
qed

text \<open>C24: The check of the setup and its mark are separate statements, so two setups of a fresh forum,
  with different names and addresses, that run at the same time can both succeed: for the two sample
  setups there is an interleaving, without any failure, in which both succeed and both accounts are
  administrators.\<close>

theorem concurrent_setups_both_succeed:
  "\<exists>sch w1 u v. schedule sch (fresh_forum, map (Setup_task sample_ext DefaultParams) [sample_setup, other_setup]) =
       (w1, [Finished (Inr u), Finished (Inr v)]) \<and> user_ID u \<noteq> user_ID v \<and>
     RoleAdmin \<in> set (roles_of sample_ext (user_ID u) (w_db w1)) \<and>
     RoleAdmin \<in> set (roles_of sample_ext (user_ID v) (w_db w1))"
proof -
  let ?A = "create_admin_task sample_ext DefaultParams sample_setup"
    and ?B = "create_admin_task sample_ext DefaultParams other_setup"
  let ?w4 = "tick (tick (tick (tick fresh_forum)))"
  obtain sch where s1: "schedule sch (fresh_forum, map (Setup_task sample_ext DefaultParams) [sample_setup, other_setup]) =
      (?w4, [?A, ?B])" using both_setups_checked by blast
  have "admin_env sample_ext sample_setup ?w4"
    using sample_setup_env fresh_forum_facts by (simp add: setup_env_def admin_env_def fresh_forum_def)
  from create_admin_succeeds [OF this sample_argon2_lawful] obtain u d1 where
    u: "create_admin sample_ext DefaultParams sample_setup ?w4 = (Inr u, (tick (tick (tick (tick (tick (tick ?w4))))))\<lparr>w_db := d1\<rparr>)"
      "user_ID u = 1005"
    by (auto simp: fresh_forum_def sample_answer_def)
  let ?w10 = "(tick (tick (tick (tick (tick (tick ?w4))))))\<lparr>w_db := d1\<rparr>"
  note U = create_admin_Inr [OF u(1)] create_admin_frame [OF u(1)]
  obtain n where s2: "schedule (replicate n 0) (?w4, [?A, ?B]) = (?w10, [Finished (Inr u), ?B])"
    using schedule_run [of 0 "[?A, ?B]" ?w4 "Inr u" ?w10] u(1) by (auto simp: run_simps)
  have "users d1 = [u]" "roles_ok d1" using U(2,9) fresh_forum_facts(3,4) by (simp_all add: db_ok_def)
  then have "admin_env sample_ext other_setup ?w10"
    using fresh_forum_facts(1) other_setup_facts U(4,5) u(2)
    by (simp add: admin_env_def other_setup_def sample_setup_def sample_trims trim_lodge pg_text_ascii)
       (simp add: fresh_forum_def sample_answer_def sample_ext_def ascii_lower_def lower_byte_def)
  from create_admin_succeeds [OF this sample_argon2_lawful] obtain v w1 where
    v: "create_admin sample_ext DefaultParams other_setup ?w10 = (Inr v, w1)" "user_ID v = 1011"
    by (auto simp: fresh_forum_def sample_answer_def)
  note V = create_admin_Inr [OF v(1)] create_admin_frame [OF v(1)]
  obtain m where s3: "schedule (replicate m 1) (?w10, [Finished (Inr u), ?B]) = (w1, [Finished (Inr u), Finished (Inr v)])"
    using schedule_run [of 1 "[Finished (Inr u), ?B]" ?w10 "Inr v" w1] v(1) by (auto simp: run_simps)
  have "schedule (sch @ replicate n 0 @ replicate m 1)
      (fresh_forum, map (Setup_task sample_ext DefaultParams) [sample_setup, other_setup]) = (w1, [Finished (Inr u), Finished (Inr v)])"
    by (simp only: schedule_append s1 s2 s3)
  moreover from fresh_forum_facts(6) obtain r where r: "r \<in> set (roles (w_db fresh_forum))" "role_Key r = RoleAdmin" by blast
  then have "(user_ID u, role_ID r) \<in> set (user_roles (w_db w1))" "(user_ID v, role_ID r) \<in> set (user_roles (w_db w1))"
    "r \<in> set (roles (w_db w1))"
    using U(6,8) V(6,8) by auto
  with roles_ofI [of r "w_db w1"] r(2) have "RoleAdmin \<in> set (roles_of sample_ext (user_ID u) (w_db w1))"
    "RoleAdmin \<in> set (roles_of sample_ext (user_ID v) (w_db w1))" by metis+
  moreover have "user_ID u \<noteq> user_ID v" using u(2) v(2) by simp
  ultimately show ?thesis by blast
qed

end
