(* ===== verification/Spec2Isabelle.thy ===== *)
theory Spec2Isabelle
  imports Privacy Privileges Startup Concurrent_Auth Concurrent_Forum Concurrent_Setup
begin

text \<open>
  \<^bold>\<open>A verification of MasonicCore\<close>

  MasonicCore is the backend of a forum: a Go server with a JSON interface over PostgreSQL, an
  S3-compatible store for media, and a websocket hub for live events. This development models
  the program from \<^verbatim>\<open>cmd/server/main.go\<close> down to the single SQL statements, as executable
  functions and step relations, and proves what the server promises about them.

  \<^bold>\<open>Parts of the program and how they interact\<close>

  A request goes through the router (\<^verbatim>\<open>internal/http/router.go\<close>) and its middleware
  (\<^verbatim>\<open>internal/handlers/middleware.go\<close>) to a handler (\<^verbatim>\<open>internal/handlers\<close>), which decodes
  it, calls one service (\<^verbatim>\<open>internal/services\<close>) and encodes the result or the error. Services
  validate, check permissions and call the stores (\<^verbatim>\<open>internal/store\<close>), each of which runs one
  statement or one transaction. The authentication service uses \<^verbatim>\<open>internal/auth\<close> (argon2id
  hashes, access tokens, refresh tokens), the media service uses \<^verbatim>\<open>internal/storage\<close>. Sending
  a message hands events to the hub (\<^verbatim>\<open>internal/ws\<close>), whose goroutine delivers them to the
  goroutines of the connections.

  \<^bold>\<open>Theories\<close>

  Foundations:
  \<^item> \<open>Prelude\<close>: operations with errors over a state (\<open>bindE\<close>, \<open>handleE\<close>, \<open>mapErrE\<close>), the
    rules for what an operation keeps (\<open>keeps\<close>, collected in \<open>keeps_intros\<close>), tables as lists of
    rows and the locale \<open>keyed_rows\<close> of a table with a key.
  \<^item> \<open>Go_Strings\<close>, \<open>Go_Regexp\<close>: what the program uses of \<^verbatim>\<open>strings\<close>, \<^verbatim>\<open>unicode/utf8\<close>,
    \<^verbatim>\<open>strconv\<close>, \<^verbatim>\<open>path\<close>, \<^verbatim>\<open>net\<close> and \<^verbatim>\<open>regexp\<close>. A Go string is a list of bytes; the matcher
    takes derivatives and is proved equal to the language of the expression.
  \<^item> \<open>Domain\<close>: the structs of \<^verbatim>\<open>internal/models\<close>, the sentinel errors, the tables, and the record
    \<open>ext\<close> of the functions that are outside the repository.
  \<^item> \<open>Database\<close>: the world (tables, object store calls, events handed to the hub), the answers of
    the environment, statements, transactions and the constraints of \<^verbatim>\<open>migrations/*.sql\<close>
    (\<open>db_ok\<close>).
  \<^item> \<open>Samples\<close>: concrete instances for the witnesses.

  \<^item> \<open>Tasks\<close>: requests that run at the same time, as resumptions whose calls a schedule
    interleaves. \<open>run\<close> is a task left alone. The locale \<open>contended\<close> proves that at most one request
    wins what can be taken once, the locale \<open>accounted\<close> that a counter updated in two calls is right
    when no request is between them.

  Stores:
  \<^item> \<open>User_Store\<close>: \<^verbatim>\<open>store/user.go\<close>, \<^verbatim>\<open>session.go\<close>, \<^verbatim>\<open>settings.go\<close>.
  \<^item> \<open>Forum_Store\<close>: \<^verbatim>\<open>store/group.go\<close>, \<^verbatim>\<open>thread.go\<close>, \<^verbatim>\<open>post.go\<close>, \<^verbatim>\<open>attachment.go\<close>, with the
    cascades of the schema.
  \<^item> \<open>Message_Store\<close>: \<^verbatim>\<open>store/message.go\<close>; the locale \<open>read_marks\<close> covers messages and
    notifications.
  Every statement is shown to keep the constraints of the schema and to fail, under every
  environment, without a change or after its whole effect.

  Services:
  \<^item> \<open>Forum_Service\<close>: \<^verbatim>\<open>services/errors.go\<close>, \<^verbatim>\<open>group.go\<close>, \<^verbatim>\<open>thread.go\<close>, \<^verbatim>\<open>post.go\<close>; the locale
    \<open>owned_deletion\<close> states who may delete, for threads, posts and (in \<open>Media_Service\<close>)
    attachments.
  \<^item> \<open>Forum_Spec\<close>: the abstract forum and the refinement of the six writing operations to it.
  \<^item> \<open>Forum_Stats\<close>: the redundant statistics of threads agree with their posts.
  \<^item> \<open>Auth_Crypto\<close>: \<^verbatim>\<open>auth/password.go\<close>, \<^verbatim>\<open>auth/jwt.go\<close>, with base64 and \<^verbatim>\<open>fmt.Sscanf\<close> written out.
  \<^item> \<open>Config\<close>: \<^verbatim>\<open>config/config.go\<close>, with 64-bit durations that wrap.
  \<^item> \<open>Auth_Service\<close>: \<^verbatim>\<open>services/auth.go\<close>: registration, login, rotation and single use of refresh
    tokens, logout.
  \<^item> \<open>Admin_Install\<close>: \<^verbatim>\<open>services/admin.go\<close>, \<^verbatim>\<open>install.go\<close>.
  \<^item> \<open>Message_Service\<close>: \<^verbatim>\<open>services/message.go\<close>.
  \<^item> \<open>Media_Service\<close>: \<^verbatim>\<open>services/media.go\<close>, \<^verbatim>\<open>storage/keys.go\<close>, \<^verbatim>\<open>storage/s3.go\<close>.

  Requests at the same time, statement by statement; every task is proved to be the operation of
  the service when it runs alone:
  \<^item> \<open>Concurrent_Auth\<close>: registrations, logins, refreshes and logouts, with \<open>contended\<close> interpreted
    on the single use of refresh tokens.
  \<^item> \<open>Concurrent_Forum\<close>: views, new threads, changes, replies, edits and post deletions, with
    \<open>accounted\<close> interpreted on the post count of a thread.
  \<^item> \<open>Concurrent_Setup\<close>: setups of the forum.

  Server:
  \<^item> \<open>Hub\<close>: \<^verbatim>\<open>ws/hub.go\<close> and \<^verbatim>\<open>ws/client.go\<close> as a transition system. The hub's goroutine, the
    reading goroutine and the writing goroutine of every connection interleave freely; the hub
    receives a notification, takes the read lock and serves one recipient per step, while all others
    go on and only registrations and unregistrations wait for the lock. The locale \<open>safe_system\<close> carries
    invariants to reachable states.
  \<^item> \<open>Http_Core\<close>: \<^verbatim>\<open>handlers/core.go\<close>, \<^verbatim>\<open>response.go\<close>, \<^verbatim>\<open>middleware.go\<close> and the decoding of JSON
    bodies. \<open>Handlers\<close>: every handler.
  \<^item> \<open>Router\<close>: the tree of routes of \<^verbatim>\<open>router.go\<close> with the middleware of each scope, and
    \<open>serve\<close>, the whole way of a request. What a handler leaves open is decided around it
    (\<open>answered\<close>): \<open>Timeout\<close> writes 504 when the deadline of the request has passed and nothing was
    written, \<open>recoverer\<close> answers a panic, and \<^verbatim>\<open>net/http\<close> completes an empty response with 200.
  \<^item> \<open>Server\<close>: requests and hub as one transition system, interpreted in \<open>safe_system\<close> again. A
    request on \<^verbatim>\<open>/ws\<close> that is upgraded adds a connection; from there on the handler's goroutine is
    that connection's, and its registration and announcement are steps of \<open>Hub\<close>, between which
    others can run.
  \<^item> \<open>Privacy\<close>: runs of the hub with the list of the notifications put into its channel, and where
    events on a connection come from. The handler of \<^verbatim>\<open>POST /pms\<close> takes its \<^verbatim>\<open>Send\<close> operation as an
    argument there (\<open>Messages_Send_via\<close>), because the one of the program always fails.
  \<^item> \<open>Privileges\<close>: how accounts become administrators.
  \<^item> \<open>Startup\<close>: \<^verbatim>\<open>cmd/server/main.go\<close>, \<^verbatim>\<open>db/db.go\<close> and the constructor of the object store.

  \<^bold>\<open>What is shown\<close>

  \<^item> Of the running server: the schema holds, the hub does not panic and presence is exact in
    every reachable state; routes that are not public refuse requests without a valid token and
    administration routes those without the role, both without an effect; administrators are made
    by the first setup or by administrators; events reach their addressees only; deletions come
    from the owner or a moderator; reading requests change nothing but view counters, except that
    \<^verbatim>\<open>GET /ws\<close> opens a connection; every request is answered in one of the listed forms, also after
    a panic or its deadline; a login's token is accepted and names its account.
  \<^item> Of the forum: refinement of the abstract forum, the statistics under every operation, and
    that replies and deletions work.
  \<^item> Of accounts: single use, rotation and acceptance of refresh tokens, soundness of login, the
    round trips of registration, of hashes and of access tokens, one setup only, exact role and
    status updates.
  \<^item> Of the hub: exact presence, a delivery that is atomic for the registrations whatever the other
    goroutines do meanwhile, termination, bounded channels in order.
  \<^item> Of media and messages: rows have objects, exact uploads and deletions, the pages of
    conversations and of the inbox, marks and counts.
  \<^item> Of requests that interleave: a refresh token is exchanged at most once, and replies are
    counted exactly, under all interleavings.
  \<^item> Of start-up: nothing listens before the configuration, the database, the migrations and the
    bucket are ready.

  Some properties record what the code does where its comments or its purpose suggest something
  else: a private message is never stored, since the statement names an alias it does not define
  (\<open>send_never_succeeds\<close>); a refused role update has already written the status
  (\<open>rejected_roles_leave_status\<close>); a group update never reports a conflict
  (\<open>group_update_never_conflicts\<close>); a long refresh lifetime wraps to a negative one
  (\<open>refresh_ttl_range\<close>); presence events can arrive out of order (\<open>presence_out_of_order\<close>); two
  setups at the same time can both succeed (\<open>concurrent_setups_both_succeed\<close>); a deletion that
  recounts posts while a reply is under way leaves a wrong count (\<open>reply_delete_race\<close>); a rename can
  undo a lock set in between (\<open>concurrent_update_lost\<close>).

  \<^bold>\<open>Assumptions about the environment\<close>

  Failures, the clock, generated ids and random bytes are answers of the environment, one for each
  external call, and arbitrary unless a theorem says \<open>calm w\<close> (no call fails) or names the values
  it relies on. Functions outside the repository are fields of \<open>ext\<close> (argon2id, SHA-256, the JWT
  library, uuid printing and parsing, Unicode tables, PostgreSQL's \<^verbatim>\<open>lower\<close>, collation and
  \<^verbatim>\<open>inet\<close>), of \<open>net\<close> (chi's matching, the client address, the upgrade) and of \<open>outside\<close> (process
  environment, driver, goose, minio, the end of the server). What a theorem needs of them are the
  hypotheses \<open>argon2_lawful\<close>, \<open>jwt_lawful\<close>, \<open>jwt_signs\<close>, \<open>uuid_lawful\<close> and \<open>case_table_lawful\<close>,
  each shown to hold of the instance \<open>sample_ext\<close>, and \<open>upgrade_lawful\<close> (a refused upgrade is
  answered with an error status), shown of \<open>sample_net\<close>.

  All functions are total and no fuel is used: the loops of the program run over finite lists, and
  the recursions over bytes are shown to terminate. Loops without an end (the goroutines of the hub
  and of the connections) are step relations.

  \<^bold>\<open>Not modelled\<close>

  \<^item> The interleaving of statements in \<open>Server\<close>: there a request is one step, while the hub's and the
    connections' steps fall between requests freely. The theories \<open>Concurrent_Auth\<close>,
    \<open>Concurrent_Forum\<close> and \<open>Concurrent_Setup\<close> interleave the statements of the operations that they
    name, each with requests of its own service; one statement or one transaction is one step, as
    the database runs it. Media, message and administration requests are not interleaved, nor
    requests of different services.
  \<^item> Contexts, except as failing calls and as the deadline of a request, which has passed or not
    when its handler is done (\<open>ans_late\<close>); signals, except as the parameter for the end of the
    server.
  \<^item> The times of pings and deadlines of websocket connections: reading can end and a ping can fail
    at any moment.
  \<^item> The text of log lines, JSON whitespace and header order; responses are structured values.
  \<^item> Constructors that only store their arguments, indexes and the down migrations, the embed
    directive and the interface of the pool: there is no behaviour to model.
\<close>

end
